(* ===== verification/Fpga_Prelude.thy ===== *)
theory Fpga_Prelude
  imports Main "HOL-Library.Word"
begin

text \<open>
  The language of the model.  A C function of the library becomes a program: a function from
  the state of the process to an outcome.  An outcome is either a returned value with the new
  state, or a stop: the process exited, an application handler never came back, the C code
  reached undefined behaviour (which is an outcome of its own, so that its absence is a
  theorem), or the fuel of a recursion that need not end was used up.

  The theory holds the combinators, a weakest-precondition predicate for total correctness
  (\<open>wp\<close>: the program returns and the returned state satisfies the condition) with its
  rules in \<open>wp_rules\<close>, and the facts on lists and machine words that several components
  share.
\<close>

section \<open>Machine integers\<close>

type_synonym u8 = "8 word"
type_synonym u16 = "16 word"
type_synonym u32 = "32 word"
type_synonym u64 = "64 word"

text \<open>C \<open>int\<close> values are kept as HOL integers; the increments of the code are guarded,
  since signed overflow is undefined.  Conversions to an unsigned type wrap.\<close>

abbreviation INT_MAX :: int where
  "INT_MAX \<equiv> 2147483647"

definition size_t_of_int :: "int \<Rightarrow> nat" where
  "size_t_of_int i = unat (word_of_int i :: u64)"

definition uint_of_int :: "int \<Rightarrow> u32" where
  "uint_of_int i = word_of_int i"

lemma unat_word_of_int_small:
  "0 \<le> i \<Longrightarrow> i < 2 ^ LENGTH('a::len) \<Longrightarrow> unat (word_of_int i :: 'a word) = nat i"
  by (simp add: unat_eq_nat_uint uint_word_of_int take_bit_int_eq_self)

lemma size_t_of_int_small [simp]:
  assumes "0 \<le> i" and "i \<le> INT_MAX"
  shows "size_t_of_int i = nat i"
proof -
  have "i < 2 ^ LENGTH(64)" using assms(2) by simp
  with assms(1) show ?thesis
    unfolding size_t_of_int_def by (rule unat_word_of_int_small)
qed

lemma unat_uint_of_int_small [simp]:
  assumes "0 \<le> i" and "i \<le> INT_MAX"
  shows "unat (uint_of_int i) = nat i"
proof -
  have "i < 2 ^ LENGTH(32)" using assms(2) by simp
  with assms(1) show ?thesis
    unfolding uint_of_int_def by (rule unat_word_of_int_small)
qed

text \<open>A negative \<open>int\<close> becomes a huge \<open>size_t\<close>.\<close>

lemma size_t_of_int_negative:
  assumes "i < 0" and "- INT_MAX - 1 \<le> i"
  shows "size_t_of_int i = nat (i + 2 ^ 64)"
proof -
  have "take_bit 64 i = i + 2 ^ 64"
  proof -
    have "take_bit 64 (i + 2 ^ 64) = i + 2 ^ 64"
      using assms by (intro take_bit_int_eq_self) auto
    then show ?thesis by (simp add: take_bit_eq_mod)
  qed
  then have "i mod 2 ^ 64 = i + 2 ^ 64" by (simp add: take_bit_eq_mod)
  then show ?thesis
    by (simp add: size_t_of_int_def unat_eq_nat_uint uint_word_of_int)
qed

section \<open>Outcomes and programs\<close>

datatype ub =
    Null_dereference
  | Out_of_bounds
  | Unmapped_address
  | Misaligned_access
  | Signed_overflow
  | Invalid_free
  | Indeterminate_value

datatype stop =
    Process_exit int
  | Handler_diverted
  | Undefined_behaviour ub
  | Out_of_fuel

datatype ('a, 's) outcome = Ret 'a 's | Stop stop 's

type_synonym ('a, 's) prog = "'s \<Rightarrow> ('a, 's) outcome"

definition ret :: "'a \<Rightarrow> ('a, 's) prog" where
  "ret x = (\<lambda>s. Ret x s)"

definition halt :: "stop \<Rightarrow> ('a, 's) prog" where
  "halt e = (\<lambda>s. Stop e s)"

definition bnd :: "('a, 's) prog \<Rightarrow> ('a \<Rightarrow> ('b, 's) prog) \<Rightarrow> ('b, 's) prog" where
  "bnd m k = (\<lambda>s. case m s of Ret x s' \<Rightarrow> k x s' | Stop e s' \<Rightarrow> Stop e s')"

definition thn :: "('a, 's) prog \<Rightarrow> ('b, 's) prog \<Rightarrow> ('b, 's) prog" where
  "thn m k = bnd m (\<lambda>_. k)"

definition gets :: "('s \<Rightarrow> 'a) \<Rightarrow> ('a, 's) prog" where
  "gets f = (\<lambda>s. Ret (f s) s)"

definition modify :: "('s \<Rightarrow> 's) \<Rightarrow> (unit, 's) prog" where
  "modify f = (\<lambda>s. Ret () (f s))"

definition require :: "ub \<Rightarrow> bool \<Rightarrow> (unit, 's) prog" where
  "require u b = (if b then ret () else halt (Undefined_behaviour u))"

text \<open>\<open>++\<close> on a C \<open>int\<close>: undefined on overflow.\<close>

definition int_succ :: "int \<Rightarrow> (int, 's) prog" where
  "int_succ i = thn (require Signed_overflow (i < INT_MAX)) (ret (i + 1))"

definition deref :: "'a option \<Rightarrow> ('a, 's) prog" where
  "deref p = (case p of None \<Rightarrow> halt (Undefined_behaviour Null_dereference) | Some x \<Rightarrow> ret x)"

section \<open>Weakest preconditions\<close>

named_theorems wp_rules \<open>unfolding rules of the weakest precondition\<close>

definition wp :: "('a, 's) prog \<Rightarrow> ('a \<Rightarrow> 's \<Rightarrow> bool) \<Rightarrow> 's \<Rightarrow> bool" where
  "wp m Q s = (case m s of Ret x s' \<Rightarrow> Q x s' | Stop e s' \<Rightarrow> False)"

lemma wp_ret [wp_rules]: "wp (ret x) Q s = Q x s"
  by (simp add: wp_def ret_def)

lemma wp_ret_eta: "wp (ret x) Q = Q x"
  by (simp add: fun_eq_iff wp_ret)

lemma wp_halt [wp_rules]: "wp (halt e) Q s = False"
  by (simp add: wp_def halt_def)

lemma wp_bnd [wp_rules]: "wp (bnd m k) Q s = wp m (\<lambda>x. wp (k x) Q) s"
  by (simp add: wp_def bnd_def split: outcome.split)

lemma wp_thn [wp_rules]: "wp (thn m k) Q s = wp m (\<lambda>_. wp k Q) s"
  by (simp add: thn_def wp_bnd)

lemma wp_eta: "wp (thn m k) Q = wp m (\<lambda>_. wp k Q)" "wp (bnd m f) Q = wp m (\<lambda>x. wp (f x) Q)"
  by (simp_all add: fun_eq_iff wp_thn wp_bnd)

lemma wp_gets [wp_rules]: "wp (gets f) Q s = Q (f s) s"
  by (simp add: wp_def gets_def)

lemma wp_modify [wp_rules]: "wp (modify f) Q s = Q () (f s)"
  by (simp add: wp_def modify_def)

lemma wp_require [wp_rules]: "wp (require u b) Q s = (b \<and> Q () s)"
  by (simp add: require_def wp_ret wp_halt)

lemma wp_if [wp_rules]: "wp (if b then m else m') Q s = (if b then wp m Q s else wp m' Q s)"
  by simp

lemma wp_int_succ [wp_rules]: "wp (int_succ i) Q s = (i < INT_MAX \<and> Q (i + 1) s)"
  by (simp add: int_succ_def wp_rules)

lemma wp_deref [wp_rules]: "wp (deref p) Q s = (\<exists>x. p = Some x \<and> Q x s)"
  by (simp add: deref_def wp_rules split: option.split)

lemma wp_mono: "wp m Q s \<Longrightarrow> (\<And>x s'. Q x s' \<Longrightarrow> R x s') \<Longrightarrow> wp m R s"
  by (simp add: wp_def split: outcome.splits)

text \<open>The two rules of sequencing, to chain lemmas.\<close>

lemma wp_thn_then:
  "wp p (\<lambda>_. P) s \<Longrightarrow> (\<And>t. P t \<Longrightarrow> wp q Q t) \<Longrightarrow> wp (thn p q) Q s"
  unfolding wp_thn by (rule wp_mono)

lemma wp_bnd_then:
  "wp p R s \<Longrightarrow> (\<And>x t. R x t \<Longrightarrow> wp (f x) Q t) \<Longrightarrow> wp (bnd p f) Q s"
  unfolding wp_bnd by (rule wp_mono)

lemma wp_conj: "wp m P s \<Longrightarrow> wp m Q s \<Longrightarrow> wp m (\<lambda>x t. P x t \<and> Q x t) s"
  by (simp add: wp_def split: outcome.splits)

lemma wp_Ret: "m s = Ret x s' \<Longrightarrow> wp m Q s = Q x s'"
  by (simp add: wp_def)

lemma wpD: "wp m Q s \<Longrightarrow> \<exists>x s'. m s = Ret x s' \<and> Q x s'"
  by (simp add: wp_def split: outcome.splits)

lemma wp_returns: "wp m (\<lambda>x s'. x = y \<and> s' = t) s \<longleftrightarrow> m s = Ret y t"
  by (simp add: wp_def split: outcome.split)

lemma wp_returns_unit: "wp m (\<lambda>_ s'. s' = t) s \<longleftrightarrow> m s = Ret () t"
  by (simp add: wp_def split: outcome.split)

text \<open>Partial correctness: whatever the program does, if it returns then the condition holds.\<close>

definition wlp :: "('a, 's) prog \<Rightarrow> ('a \<Rightarrow> 's \<Rightarrow> bool) \<Rightarrow> 's \<Rightarrow> bool" where
  "wlp m Q s = (case m s of Ret x s' \<Rightarrow> Q x s' | Stop e s' \<Rightarrow> True)"

lemma wp_imp_wlp: "wp m Q s \<Longrightarrow> wlp m Q s"
  by (simp add: wp_def wlp_def split: outcome.splits)

section \<open>Symbolic execution\<close>

text \<open>Equations that run a program on a given state, for closed computations and for the
  branches on which a program stops.\<close>

named_theorems run_rules \<open>equations that apply a program to a state\<close>

lemma run_ret [run_rules]: "ret x s = Ret x s"
  by (simp add: ret_def)

lemma run_halt [run_rules]: "halt e s = Stop e s"
  by (simp add: halt_def)

lemma run_bnd [run_rules]:
  "bnd m k s = (case m s of Ret x s' \<Rightarrow> k x s' | Stop e s' \<Rightarrow> Stop e s')"
  by (simp add: bnd_def)

lemma run_thn [run_rules]:
  "thn m k s = (case m s of Ret x s' \<Rightarrow> k s' | Stop e s' \<Rightarrow> Stop e s')"
  by (simp add: thn_def bnd_def)

lemma run_gets [run_rules]: "gets f s = Ret (f s) s"
  by (simp add: gets_def)

lemma run_modify [run_rules]: "modify f s = Ret () (f s)"
  by (simp add: modify_def)

lemma run_require [run_rules]:
  "require u b s = (if b then Ret () s else Stop (Undefined_behaviour u) s)"
  by (simp add: require_def ret_def halt_def)

lemma run_if [run_rules]: "(if b then m else m') s = (if b then m s else m' s)"
  by simp

lemma run_int_succ [run_rules]:
  "int_succ i s =
     (if i < INT_MAX then Ret (i + 1) s else Stop (Undefined_behaviour Signed_overflow) s)"
  by (simp add: int_succ_def run_thn run_require run_ret)

lemma run_deref [run_rules]:
  "deref p s = (case p of None \<Rightarrow> Stop (Undefined_behaviour Null_dereference) s
                        | Some x \<Rightarrow> Ret x s)"
  by (simp add: deref_def ret_def halt_def split: option.split)

lemma bnd_assoc: "bnd (bnd m k) l = bnd m (\<lambda>x. bnd (k x) l)"
  by (auto simp: bnd_def fun_eq_iff split: outcome.split)

section \<open>Lists\<close>

lemma take_Suc_update:
  "i < length xs \<Longrightarrow> take (Suc i) (xs[i := x]) = take i xs @ [x]"
  by (simp add: take_Suc_conv_app_nth)

lemma sum_list_drop_nth:
  fixes f :: "'a \<Rightarrow> int"
  assumes "i < length xs"
  shows "sum_list (map f (drop i xs)) = f (xs ! i) + sum_list (map f (drop (Suc i) xs))"
  using assms by (simp flip: Cons_nth_drop_Suc)

lemma sum_list_list_update:
  fixes f :: "'a \<Rightarrow> int"
  assumes "i < length xs"
  shows "sum_list (map f (xs[i := x])) = sum_list (map f xs) - f (xs ! i) + f x"
  using assms by (induction xs arbitrary: i) (auto split: nat.split)

end
