(* ===== verification/Cmn_State.thy ===== *)
theory Cmn_State
  imports Fpga_Prelude
begin

text \<open>
  The data model shared by every part of the library: the structs of
  \<open>intel_fpga_platform_*.h\<close>, the messages and exceptions of \<open>intel_fpga_api_cmn_msg\<close>, and
  the record of the process state that the common library reads and writes.

  Pointers to heap blocks that have exactly one owner are represented by the block itself:
  \<open>None\<close> is the null pointer and \<open>Some xs\<close> a live array holding \<open>xs\<close>.  The ghost counter
  \<open>live\<close> counts the heap blocks that were allocated and not freed, so that leaks and double
  frees are visible.  Addresses of memory mapped registers are 64-bit machine words.
\<close>

section \<open>Messages and exceptions\<close>

text \<open>\<open>FPGA_MSG_PRINTF_TYPE\<close>; an enum variable of C can hold a value that is no enumerator.\<close>

datatype FPGA_MSG_PRINTF_TYPE =
    FPGA_MSG_PRINTF_INFO
  | FPGA_MSG_PRINTF_WARNING
  | FPGA_MSG_PRINTF_ERROR
  | FPGA_MSG_PRINTF_DEBUG
  | FPGA_MSG_PRINTF_INVALID int

text \<open>The variable arguments of a format string.\<close>

datatype msg_arg = Arg_int int | Arg_size nat | Arg_word u64 | Arg_str string

text \<open>What \<open>fpga_throw_runtime_exception\<close> hands to the handler, less the source position.\<close>

record fpga_exception =
  exn_function :: string
  exn_format :: string
  exn_args :: "msg_arg list"

text \<open>The two function pointers of \<open>intel_fpga_api_cmn_msg.c\<close>: the library's default, a function
  of the application, or null.  An application's printf is known by the value it returns; its
  exception handler by whether it comes back to the library.\<close>

datatype FPGA_MSG_PRINTF =
    Default_printf
  | App_printf "FPGA_MSG_PRINTF_TYPE \<Rightarrow> string \<Rightarrow> msg_arg list \<Rightarrow> int"
  | Null_printf

datatype FPGA_RUNTIME_EXCEPTION_HANDLER =
    Default_handler
  | App_handler "fpga_exception \<Rightarrow> bool"
  | Null_handler

text \<open>What the application can observe of the messages.\<close>

datatype out_event =
    Stdout_puts string
  | Stdout_vprintf string "msg_arg list"
  | App_message FPGA_MSG_PRINTF_TYPE string "msg_arg list"
  | App_exception fpga_exception

section \<open>Interface information\<close>

record FPGA_INTERFACE_PARAMETER =
  version :: u16
  param_id :: u16
  data_size :: u64
  data :: "u64 list option"

record FPGA_INTERFACE_GUID =
  guid_l :: u64
  guid_h :: u64

text \<open>\<open>FPGA_INTERFACE_INFO\<close> with the members of the three platforms; \<open>irq\<close> and \<open>dev\<close> exist on
  Zephyr only.  Function pointers and contexts are addresses, \<open>0\<close> being null.\<close>

record FPGA_INTERFACE_INFO =
  guid :: FPGA_INTERFACE_GUID
  instance_id :: u16
  group_id :: u16
  num_of_parameters :: nat
  parameters :: "FPGA_INTERFACE_PARAMETER list option"
  dfh_parent :: int
  dfl :: bool
  base_address :: u64
  interrupt :: u16
  is_mmio_opened :: bool
  is_interrupt_opened :: bool
  interrupt_enable :: bool
  isr_callback :: u64
  isr_context :: u64
  irq :: int
  dev :: nat

text \<open>The values that \<open>memset\<close> with zero leaves.\<close>

definition zero_param :: FPGA_INTERFACE_PARAMETER where
  "zero_param = \<lparr>version = 0, param_id = 0, data_size = 0, data = None\<rparr>"

definition zero_info :: FPGA_INTERFACE_INFO where
  "zero_info =
     \<lparr>guid = \<lparr>guid_l = 0, guid_h = 0\<rparr>, instance_id = 0, group_id = 0,
      num_of_parameters = 0, parameters = None, dfh_parent = 0, dfl = False,
      base_address = 0, interrupt = 0, is_mmio_opened = False,
      is_interrupt_opened = False, interrupt_enable = False, isr_callback = 0,
      isr_context = 0, irq = 0, dev = 0\<rparr>"

lemma zero_param_simps [simp]:
  "version zero_param = 0" "param_id zero_param = 0" "data_size zero_param = 0"
  "data zero_param = None"
  by (simp_all add: zero_param_def)

lemma zero_info_simps [simp]:
  "num_of_parameters zero_info = 0" "parameters zero_info = None"
  "is_mmio_opened zero_info = False" "is_interrupt_opened zero_info = False"
  "interrupt_enable zero_info = False" "isr_callback zero_info = 0"
  "base_address zero_info = 0" "dfh_parent zero_info = 0" "dfl zero_info = False"
  by (simp_all add: zero_info_def)

text \<open>\<open>sizeof\<close> on the 64-bit targets, as the byte counts handed to the allocator.\<close>

definition sizeof_info :: nat where "sizeof_info = 80"
definition sizeof_param :: nat where "sizeof_param = 24"
definition sizeof_int :: nat where "sizeof_int = 4"

section \<open>The environment of the process\<close>

text \<open>
  What the library relies on and that is not in the repository: whether the \<open>n\<close>-th allocation
  request of so many bytes is granted, the indeterminate contents of fresh heap memory, the
  value \<open>vprintf\<close> returns, and how the DFL words are read in this build
  (\<open>common_dfl_read_64\<close> has three variants chosen by the preprocessor; on the simulation
  platform it calls the simulator's 32-bit read function).
\<close>

datatype read_mode = Native_64 | Emulated_32 | Custom_read

record environment =
  env_alloc_ok :: "nat \<Rightarrow> nat \<Rightarrow> bool"
  env_junk_info :: FPGA_INTERFACE_INFO
  env_junk_param :: FPGA_INTERFACE_PARAMETER
  env_junk_word :: u64
  env_junk_int :: int
  env_vprintf :: "string \<Rightarrow> msg_arg list \<Rightarrow> int"
  env_read_mode :: read_mode
  env_sim_read_32 :: "u64 \<Rightarrow> u32"

type_synonym memory = "u64 \<Rightarrow> u8 option"

section \<open>The state of the common library\<close>

record DFH_PARENT_STACK =
  stack_head :: "int list option"
  stack_top :: int
  stack_size :: int

record cmn_state =
  env :: environment
  mem :: memory
  out :: "out_event list"
  g_common_fpga_platform_printf :: FPGA_MSG_PRINTF
  g_common_fpga_platform_runtime_exception_handler :: FPGA_RUNTIME_EXCEPTION_HANDLER
  g_common_show_dbg_msg :: int
  live :: int
  alloc_no :: nat
  g_common_fpga_interface_info_vec :: "FPGA_INTERFACE_INFO list option"
  g_common_fpga_interface_info_vec_size :: nat
  g_common_fpga_interface_info_vec_reserved :: nat
  dfh_parent_stack :: DFH_PARENT_STACK
  s_scanned_interface_count :: int
  s_interface_index :: int

abbreviation (input) vec where "vec \<equiv> g_common_fpga_interface_info_vec"
abbreviation (input) vec_size where "vec_size \<equiv> g_common_fpga_interface_info_vec_size"
abbreviation (input) vec_reserved where "vec_reserved \<equiv> g_common_fpga_interface_info_vec_reserved"

text \<open>The static initialisers, in a given environment and address space.  \<open>dfh_parent_stack\<close> has
  no initialiser in the C file (\<open>DFH_PARENT_STACK_default\<close> is never used), so it starts as all
  zeros.\<close>

definition DFH_PARENT_STACK_default :: DFH_PARENT_STACK where
  "DFH_PARENT_STACK_default = \<lparr>stack_head = None, stack_top = -1, stack_size = 0\<rparr>"

definition zero_stack :: DFH_PARENT_STACK where
  "zero_stack = \<lparr>stack_head = None, stack_top = 0, stack_size = 0\<rparr>"

definition initial_state :: "environment \<Rightarrow> memory \<Rightarrow> cmn_state" where
  "initial_state e m =
     \<lparr>env = e, mem = m, out = [],
      g_common_fpga_platform_printf = Default_printf,
      g_common_fpga_platform_runtime_exception_handler = Default_handler,
      g_common_show_dbg_msg = 0, live = 0, alloc_no = 0,
      g_common_fpga_interface_info_vec = None,
      g_common_fpga_interface_info_vec_size = 0,
      g_common_fpga_interface_info_vec_reserved = 0,
      dfh_parent_stack = zero_stack,
      s_scanned_interface_count = 0, s_interface_index = 0\<rparr>"

type_synonym ('e, 'a) cmn = "('a, 'e cmn_state_scheme) prog"

section \<open>The allocator\<close>

definition heap_request :: "nat \<Rightarrow> ('e, bool) cmn" where
  "heap_request bytes =
     bnd (gets (\<lambda>s. env_alloc_ok (env s) (alloc_no s) bytes)) (\<lambda>ok.
     thn (modify (\<lambda>s. s\<lparr>alloc_no := Suc (alloc_no s)\<rparr>))
         (ret ok))"

text \<open>\<open>malloc\<close>: a block whose initial contents are given, or null.\<close>

definition malloc :: "nat \<Rightarrow> 'a \<Rightarrow> ('e, 'a option) cmn" where
  "malloc bytes contents =
     bnd (heap_request bytes) (\<lambda>ok.
       if ok then thn (modify (\<lambda>s. s\<lparr>live := live s + 1\<rparr>)) (ret (Some contents))
       else ret None)"

text \<open>\<open>free\<close>: no effect on null.\<close>

definition free :: "'a option \<Rightarrow> ('e, unit) cmn" where
  "free p = (case p of None \<Rightarrow> ret () | Some _ \<Rightarrow> modify (\<lambda>s. s\<lparr>live := live s - 1\<rparr>))"

text \<open>\<open>realloc\<close> of an array to \<open>n\<close> elements of so many bytes each: the old elements that fit,
  followed by indeterminate ones.  On failure the old block stays allocated and null is
  returned.\<close>

definition realloc :: "'a list option \<Rightarrow> nat \<Rightarrow> nat \<Rightarrow> 'a \<Rightarrow> ('e, 'a list option) cmn" where
  "realloc p n elem junk =
     bnd (heap_request (n * elem)) (\<lambda>ok.
       if ok then
         (case p of
            None \<Rightarrow> thn (modify (\<lambda>s. s\<lparr>live := live s + 1\<rparr>)) (ret (Some (replicate n junk)))
          | Some xs \<Rightarrow> ret (Some (take n xs @ replicate (n - length xs) junk)))
       else ret None)"

definition allocs_ok :: "'e cmn_state_scheme \<Rightarrow> bool" where
  "allocs_ok s \<longleftrightarrow> (\<forall>n bytes. env_alloc_ok (env s) n bytes)"

lemma wp_heap_request [wp_rules]:
  "wp (heap_request b) Q s =
     Q (env_alloc_ok (env s) (alloc_no s) b) (s\<lparr>alloc_no := Suc (alloc_no s)\<rparr>)"
  by (simp add: heap_request_def wp_rules)

lemma wp_malloc [wp_rules]:
  "wp (malloc b c) Q s =
     (if env_alloc_ok (env s) (alloc_no s) b
      then Q (Some c) (s\<lparr>alloc_no := Suc (alloc_no s), live := live s + 1\<rparr>)
      else Q None (s\<lparr>alloc_no := Suc (alloc_no s)\<rparr>))"
  by (simp add: malloc_def wp_rules)

lemma wp_free [wp_rules]:
  "wp (free p) Q s = (if p = None then Q () s else Q () (s\<lparr>live := live s - 1\<rparr>))"
  by (simp add: free_def wp_rules split: option.split)

lemma wp_realloc [wp_rules]:
  "wp (realloc p n elem junk) Q s =
     (if env_alloc_ok (env s) (alloc_no s) (n * elem)
      then (case p of
              None \<Rightarrow> Q (Some (replicate n junk))
                        (s\<lparr>alloc_no := Suc (alloc_no s), live := live s + 1\<rparr>)
            | Some xs \<Rightarrow> Q (Some (take n xs @ replicate (n - length xs) junk))
                           (s\<lparr>alloc_no := Suc (alloc_no s)\<rparr>))
      else Q None (s\<lparr>alloc_no := Suc (alloc_no s)\<rparr>))"
  by (simp add: realloc_def wp_rules split: option.split)

end
