(* ===== verification/Cmn_Msg.thy ===== *)
theory Cmn_Msg
  imports Cmn_State
begin

text \<open>
  Messages and run-time exceptions, \<open>common/src/intel_fpga_api_cmn_msg.c\<close>.  Both go through a
  registered function pointer.  The default exception handler prints and exits the process; a
  registered one may come back, and then the library code after the throw runs, which is why
  every throw of the library is followed by its continuation in the model.
  All the \<open>INTEL_FPGA_MSG_PRINTF_ENABLE\<close> switches are defined in the library's header.
\<close>

section \<open>Operations\<close>

definition emit :: "out_event \<Rightarrow> ('e, unit) cmn" where
  "emit ev = modify (\<lambda>s. s\<lparr>out := out s @ [ev]\<rparr>)"

definition vprintf :: "string \<Rightarrow> msg_arg list \<Rightarrow> ('e, int) cmn" where
  "vprintf fmt args =
     thn (emit (Stdout_vprintf fmt args)) (gets (\<lambda>s. env_vprintf (env s) fmt args))"

definition s_common_fpga_platform_default_runtime_exception_handler ::
    "fpga_exception \<Rightarrow> ('e, unit) cmn" where
  "s_common_fpga_platform_default_runtime_exception_handler ex =
     thn (bnd (vprintf ''Exception occured in %s() at line %d in %s due to '' [Arg_str (exn_function ex)])
            (\<lambda>_. ret ()))
    (thn (bnd (vprintf (exn_format ex) (exn_args ex)) (\<lambda>_. ret ()))
    (thn (emit (Stdout_puts ''\<newline>\<newline>Application is terminated.\<newline>''))
         (halt (Process_exit 1))))"

definition fpga_throw_runtime_exception ::
    "string \<Rightarrow> string \<Rightarrow> msg_arg list \<Rightarrow> ('e, unit) cmn" where
  "fpga_throw_runtime_exception fn fmt args =
     (let ex = \<lparr>exn_function = fn, exn_format = fmt, exn_args = args\<rparr> in
      bnd (gets g_common_fpga_platform_runtime_exception_handler) (\<lambda>h.
        case h of
          Default_handler \<Rightarrow> s_common_fpga_platform_default_runtime_exception_handler ex
        | App_handler comes_back \<Rightarrow>
            thn (emit (App_exception ex))
                (if comes_back ex then ret () else halt Handler_diverted)
        | Null_handler \<Rightarrow> halt (Undefined_behaviour Null_dereference)))"

text \<open>\<open>fputs\<close> of the prefix, \<open>vprintf\<close>, \<open>fputs\<close> of the newline.\<close>

definition print_prefixed :: "string \<Rightarrow> string \<Rightarrow> msg_arg list \<Rightarrow> ('e, int) cmn" where
  "print_prefixed prefix fmt args =
     thn (emit (Stdout_puts prefix))
    (bnd (vprintf fmt args) (\<lambda>r.
     thn (emit (Stdout_puts ''\<newline>'')) (ret r)))"

definition s_common_fpga_platform_default_printf ::
    "FPGA_MSG_PRINTF_TYPE \<Rightarrow> string \<Rightarrow> msg_arg list \<Rightarrow> ('e, int) cmn" where
  "s_common_fpga_platform_default_printf type fmt args =
     (case type of
        FPGA_MSG_PRINTF_INFO \<Rightarrow> print_prefixed ''INFO: '' fmt args
      | FPGA_MSG_PRINTF_WARNING \<Rightarrow> print_prefixed ''WARNING: '' fmt args
      | FPGA_MSG_PRINTF_ERROR \<Rightarrow> print_prefixed ''ERROR: '' fmt args
      | FPGA_MSG_PRINTF_DEBUG \<Rightarrow>
          bnd (gets g_common_show_dbg_msg) (\<lambda>d.
            if d \<noteq> 0 then print_prefixed ''DEBUG: '' fmt args else ret 0)
      | FPGA_MSG_PRINTF_INVALID _ \<Rightarrow>
          thn (fpga_throw_runtime_exception ''s_common_fpga_platform_default_printf''
                 ''invalid message print type is specified.'' [])
              (ret 0))"

definition fpga_msg_printf ::
    "FPGA_MSG_PRINTF_TYPE \<Rightarrow> string \<Rightarrow> msg_arg list \<Rightarrow> ('e, int) cmn" where
  "fpga_msg_printf type fmt args =
     bnd (gets g_common_fpga_platform_printf) (\<lambda>p.
       case p of
         Default_printf \<Rightarrow> s_common_fpga_platform_default_printf type fmt args
       | App_printf f \<Rightarrow> thn (emit (App_message type fmt args)) (ret (f type fmt args))
       | Null_printf \<Rightarrow> halt (Undefined_behaviour Null_dereference))"

definition fpga_platform_register_printf :: "FPGA_MSG_PRINTF \<Rightarrow> ('e, unit) cmn" where
  "fpga_platform_register_printf f =
     modify (\<lambda>s. s\<lparr>g_common_fpga_platform_printf := f\<rparr>)"

definition fpga_platform_register_runtime_exception_handler ::
    "FPGA_RUNTIME_EXCEPTION_HANDLER \<Rightarrow> ('e, unit) cmn" where
  "fpga_platform_register_runtime_exception_handler h =
     modify (\<lambda>s. s\<lparr>g_common_fpga_platform_runtime_exception_handler := h\<rparr>)"

section \<open>Rules\<close>

lemma wp_emit [wp_rules]: "wp (emit ev) Q s = Q () (s\<lparr>out := out s @ [ev]\<rparr>)"
  by (simp add: emit_def wp_rules)

lemma wp_vprintf [wp_rules]:
  "wp (vprintf fmt args) Q s =
     Q (env_vprintf (env s) fmt args) (s\<lparr>out := out s @ [Stdout_vprintf fmt args]\<rparr>)"
  by (simp add: vprintf_def wp_rules)

lemma wp_print_prefixed [wp_rules]:
  "wp (print_prefixed p fmt args) Q s =
     Q (env_vprintf (env s) fmt args)
       (s\<lparr>out := out s @ [Stdout_puts p, Stdout_vprintf fmt args, Stdout_puts ''\<newline>'']\<rparr>)"
  by (simp add: print_prefixed_def wp_rules)

text \<open>A throw returns exactly when an application handler comes back.\<close>

definition handler_comes_back :: "FPGA_RUNTIME_EXCEPTION_HANDLER \<Rightarrow> fpga_exception \<Rightarrow> bool" where
  "handler_comes_back h ex = (case h of App_handler cb \<Rightarrow> cb ex | _ \<Rightarrow> False)"

lemma wp_throw [wp_rules]:
  "wp (fpga_throw_runtime_exception fn fmt args) Q s =
     (let ex = \<lparr>exn_function = fn, exn_format = fmt, exn_args = args\<rparr> in
      handler_comes_back (g_common_fpga_platform_runtime_exception_handler s) ex
      \<and> Q () (s\<lparr>out := out s @ [App_exception ex]\<rparr>))"
  by (simp add: fpga_throw_runtime_exception_def Let_def wp_rules handler_comes_back_def
      s_common_fpga_platform_default_runtime_exception_handler_def
      split: FPGA_RUNTIME_EXCEPTION_HANDLER.split)

text \<open>Under the documented contract (a throw terminates the application) no throw returns.\<close>

definition handler_final :: "'e cmn_state_scheme \<Rightarrow> bool" where
  "handler_final s \<longleftrightarrow>
     (\<forall>ex. \<not> handler_comes_back (g_common_fpga_platform_runtime_exception_handler s) ex)"

lemma handler_final_default [simp]:
  "g_common_fpga_platform_runtime_exception_handler s = Default_handler \<Longrightarrow> handler_final s"
  by (simp add: handler_final_def handler_comes_back_def)

lemma wp_throw_final:
  "handler_final s \<Longrightarrow> wp (fpga_throw_runtime_exception fn fmt args) Q s = False"
  by (simp add: wp_throw handler_final_def Let_def)

text \<open>The events that one message of a type adds to standard output.\<close>

fun msg_prefix :: "FPGA_MSG_PRINTF_TYPE \<Rightarrow> string" where
  "msg_prefix FPGA_MSG_PRINTF_INFO = ''INFO: ''"
| "msg_prefix FPGA_MSG_PRINTF_WARNING = ''WARNING: ''"
| "msg_prefix FPGA_MSG_PRINTF_ERROR = ''ERROR: ''"
| "msg_prefix FPGA_MSG_PRINTF_DEBUG = ''DEBUG: ''"
| "msg_prefix (FPGA_MSG_PRINTF_INVALID _) = ''''"

definition default_lines ::
    "int \<Rightarrow> FPGA_MSG_PRINTF_TYPE \<Rightarrow> string \<Rightarrow> msg_arg list \<Rightarrow> out_event list" where
  "default_lines dbg type fmt args =
     (if type = FPGA_MSG_PRINTF_DEBUG \<and> dbg = 0 then []
      else [Stdout_puts (msg_prefix type), Stdout_vprintf fmt args, Stdout_puts ''\<newline>''])"

definition valid_msg_type :: "FPGA_MSG_PRINTF_TYPE \<Rightarrow> bool" where
  "valid_msg_type type = (case type of FPGA_MSG_PRINTF_INVALID _ \<Rightarrow> False | _ \<Rightarrow> True)"

text \<open>What a message adds to the output, by the registered printf, and what it returns.\<close>

definition msg_events ::
    "'e cmn_state_scheme \<Rightarrow> FPGA_MSG_PRINTF_TYPE \<Rightarrow> string \<Rightarrow> msg_arg list \<Rightarrow> out_event list" where
  "msg_events s type fmt args =
     (case g_common_fpga_platform_printf s of
        Default_printf \<Rightarrow> default_lines (g_common_show_dbg_msg s) type fmt args
      | App_printf f \<Rightarrow> [App_message type fmt args]
      | Null_printf \<Rightarrow> [])"

definition msg_result ::
    "'e cmn_state_scheme \<Rightarrow> FPGA_MSG_PRINTF_TYPE \<Rightarrow> string \<Rightarrow> msg_arg list \<Rightarrow> int" where
  "msg_result s type fmt args =
     (case g_common_fpga_platform_printf s of
        App_printf f \<Rightarrow> f type fmt args
      | _ \<Rightarrow> if type = FPGA_MSG_PRINTF_DEBUG \<and> g_common_show_dbg_msg s = 0 then 0
             else env_vprintf (env s) fmt args)"

lemma msg_events_out [simp]: "msg_events (s\<lparr>out := o1\<rparr>) = msg_events s"
  by (simp add: fun_eq_iff msg_events_def split: FPGA_MSG_PRINTF.split)

definition can_print :: "'e cmn_state_scheme \<Rightarrow> bool" where
  "can_print s \<longleftrightarrow> g_common_fpga_platform_printf s \<noteq> Null_printf"

lemma run_msg:
  assumes "can_print s" and "valid_msg_type type"
  shows "fpga_msg_printf type fmt args s =
     Ret (msg_result s type fmt args) (s\<lparr>out := out s @ msg_events s type fmt args\<rparr>)"
proof -
  have self: "s\<lparr>out := out s\<rparr> = s" by (cases s) simp
  show ?thesis
    using assms self
    by (cases "g_common_fpga_platform_printf s"; cases type)
      (simp_all add: can_print_def fpga_msg_printf_def run_rules emit_def print_prefixed_def
        vprintf_def s_common_fpga_platform_default_printf_def msg_result_def msg_events_def
        default_lines_def valid_msg_type_def)
qed

end
