(* ===== verification/Cmn_Inf.thy ===== *)
theory Cmn_Inf
  imports Cmn_Msg
begin

text \<open>
  The vector of interfaces, \<open>common/src/intel_fpga_api_cmn_inf.c\<close> and its header: reserve and
  resize with their calls to the allocator, and the discovery API on top of it (count, copy out,
  claim and release of the register and of the interrupt interface).

  \<open>vec_inv\<close> is the invariant of the vector, \<open>vec_abs\<close> the list of interfaces it stands for, and
  \<open>blocks_of_info\<close> counts the heap blocks an entry owns.  The interfaces other components rely on
  are the locales of theory \<open>Inf_Contracts\<close>.
\<close>

section \<open>Element access\<close>

text \<open>\<open>common_fpga_interface_info_vec_at(i)\<close> followed by a read or a write through the pointer: the
  access is in bounds when the allocated array has an element \<open>i\<close>.\<close>

definition common_fpga_interface_info_vec_at :: "nat \<Rightarrow> ('e, FPGA_INTERFACE_INFO) cmn" where
  "common_fpga_interface_info_vec_at i =
     bnd (gets g_common_fpga_interface_info_vec) (\<lambda>p.
     bnd (deref p) (\<lambda>xs.
     thn (require Out_of_bounds (i < length xs)) (ret (xs ! i))))"

definition vec_upd :: "nat \<Rightarrow> (FPGA_INTERFACE_INFO \<Rightarrow> FPGA_INTERFACE_INFO) \<Rightarrow> ('e, unit) cmn" where
  "vec_upd i f =
     bnd (gets g_common_fpga_interface_info_vec) (\<lambda>p.
     bnd (deref p) (\<lambda>xs.
     thn (require Out_of_bounds (i < length xs))
         (modify (\<lambda>s. s\<lparr>g_common_fpga_interface_info_vec := Some (xs[i := f (xs ! i)])\<rparr>))))"

definition common_fpga_interface_info_vec_size :: "('e, nat) cmn" where
  "common_fpga_interface_info_vec_size = gets g_common_fpga_interface_info_vec_size"

section \<open>Reserve and resize\<close>

text \<open>The inner loop of the shrinking branch: \<open>free(parameters[j].data)\<close> for \<open>j\<close> from 0.  The first
  argument is the number of iterations left.\<close>

fun free_param_data :: "nat \<Rightarrow> nat \<Rightarrow> nat \<Rightarrow> ('e, unit) cmn" where
  "free_param_data 0 i j = ret ()"
| "free_param_data (Suc k) i j =
     bnd (common_fpga_interface_info_vec_at i) (\<lambda>info.
     bnd (deref (parameters info)) (\<lambda>ps.
     thn (require Out_of_bounds (j < length ps))
    (thn (free (data (ps ! j)))
         (free_param_data k i (Suc j)))))"

text \<open>The outer loop, over the entries that are dropped.\<close>

fun free_infos :: "nat \<Rightarrow> nat \<Rightarrow> ('e, unit) cmn" where
  "free_infos 0 i = ret ()"
| "free_infos (Suc k) i =
     bnd (common_fpga_interface_info_vec_at i) (\<lambda>info.
     thn (free_param_data (num_of_parameters info) i 0)
    (bnd (common_fpga_interface_info_vec_at i) (\<lambda>info'.
     thn (free (parameters info'))
         (free_infos k (Suc i)))))"

text \<open>\<open>memset\<close> of the entries from \<open>i\<close> on, \<open>n\<close> of them, to zero.\<close>

definition zero_infos :: "nat \<Rightarrow> nat \<Rightarrow> ('e, unit) cmn" where
  "zero_infos i n =
     bnd (gets g_common_fpga_interface_info_vec) (\<lambda>p.
     bnd (deref p) (\<lambda>xs.
     thn (require Out_of_bounds (i + n \<le> length xs))
         (modify (\<lambda>s. s\<lparr>g_common_fpga_interface_info_vec :=
            Some (take i xs @ replicate n zero_info @ drop (i + n) xs)\<rparr>))))"

definition common_fpga_interface_info_vec_reserve :: "nat \<Rightarrow> ('e, unit) cmn" where
  "common_fpga_interface_info_vec_reserve n =
     bnd (gets g_common_fpga_interface_info_vec_reserved) (\<lambda>reserved.
     if n > reserved then
       bnd (gets g_common_fpga_interface_info_vec) (\<lambda>p.
       bnd (gets (\<lambda>s. env_junk_info (env s))) (\<lambda>junk.
       bnd (realloc p n sizeof_info junk) (\<lambda>q.
       thn (modify (\<lambda>s. s\<lparr>g_common_fpga_interface_info_vec := q\<rparr>))
           (if q = None then
              fpga_throw_runtime_exception ''common_fpga_interface_info_vec_reserve''
                ''insufficient memory for %d interfaces.'' [Arg_size n]
            else
              thn (zero_infos reserved (n - reserved))
                  (modify (\<lambda>s. s\<lparr>g_common_fpga_interface_info_vec_reserved := n\<rparr>))))))
     else
       bnd (gets g_common_fpga_interface_info_vec_size) (\<lambda>sz.
       thn (if n < sz then
              thn (free_infos (sz - n) n)
             (thn (zero_infos n (sz - n))
                  (modify (\<lambda>s. s\<lparr>g_common_fpga_interface_info_vec_size := n\<rparr>)))
            else ret ())
           (if n = 0 then
              bnd (gets g_common_fpga_interface_info_vec) (\<lambda>p.
              thn (if p \<noteq> None then free p else ret ())
                  (modify (\<lambda>s. s\<lparr>g_common_fpga_interface_info_vec := None,
                                 g_common_fpga_interface_info_vec_reserved := 0,
                                 g_common_fpga_interface_info_vec_size := 0\<rparr>)))
            else ret ())))"

definition common_fpga_interface_info_vec_resize :: "nat \<Rightarrow> ('e, unit) cmn" where
  "common_fpga_interface_info_vec_resize n =
     thn (common_fpga_interface_info_vec_reserve n)
         (modify (\<lambda>s. s\<lparr>g_common_fpga_interface_info_vec_size := n\<rparr>))"

section \<open>Discovery API\<close>

definition fpga_get_num_of_interfaces :: "('e, u32) cmn" where
  "fpga_get_num_of_interfaces =
     bnd common_fpga_interface_info_vec_size (\<lambda>n. ret (of_nat n))"

text \<open>The result buffer: the returned \<open>bool\<close> and the struct that was copied, if any.  The flag
  \<open>buffer\<close> says whether the caller's \<open>info\<close> pointer is not null.\<close>

definition fpga_get_interface_at ::
    "u32 \<Rightarrow> bool \<Rightarrow> ('e, bool \<times> FPGA_INTERFACE_INFO option) cmn" where
  "fpga_get_interface_at index buffer =
     bnd common_fpga_interface_info_vec_size (\<lambda>n.
     if unat index < n \<and> buffer then
       bnd (common_fpga_interface_info_vec_at (unat index)) (\<lambda>info. ret (True, Some info))
     else ret (False, None))"

text \<open>Handles are C \<open>int\<close>s; \<open>FPGA_MMIO_INTERFACE_INVALID_HANDLE\<close> and
  \<open>FPGA_INTERRUPT_INVALID_HANDLE\<close> are both -1.\<close>

definition INVALID_HANDLE :: int where "INVALID_HANDLE = -1"

definition fpga_open :: "u32 \<Rightarrow> ('e, int) cmn" where
  "fpga_open index =
     bnd common_fpga_interface_info_vec_size (\<lambda>n.
     if unat index < n then
       bnd (common_fpga_interface_info_vec_at (unat index)) (\<lambda>info.
       if \<not> is_mmio_opened info then
         thn (vec_upd (unat index) (\<lambda>x. x\<lparr>is_mmio_opened := True\<rparr>)) (ret (sint index))
       else ret INVALID_HANDLE)
     else ret INVALID_HANDLE)"

definition fpga_close :: "u32 \<Rightarrow> ('e, unit) cmn" where
  "fpga_close index =
     bnd common_fpga_interface_info_vec_size (\<lambda>n.
     if unat index < n then vec_upd (unat index) (\<lambda>x. x\<lparr>is_mmio_opened := False\<rparr>)
     else ret ())"

definition fpga_interrupt_open :: "u32 \<Rightarrow> ('e, int) cmn" where
  "fpga_interrupt_open index =
     bnd common_fpga_interface_info_vec_size (\<lambda>n.
     if unat index < n then
       bnd (common_fpga_interface_info_vec_at (unat index)) (\<lambda>info.
       if \<not> is_interrupt_opened info then
         thn (vec_upd (unat index) (\<lambda>x. x\<lparr>is_interrupt_opened := True\<rparr>)) (ret (sint index))
       else ret INVALID_HANDLE)
     else ret INVALID_HANDLE)"

definition fpga_interrupt_close :: "u32 \<Rightarrow> ('e, unit) cmn" where
  "fpga_interrupt_close index =
     bnd common_fpga_interface_info_vec_size (\<lambda>n.
     if unat index < n then vec_upd (unat index) (\<lambda>x. x\<lparr>is_interrupt_opened := False\<rparr>)
     else ret ())"

section \<open>Rules for the element accesses\<close>

lemma wp_vec_at [wp_rules]:
  "wp (common_fpga_interface_info_vec_at i) Q s =
     (\<exists>xs. vec s = Some xs \<and> i < length xs \<and> Q (xs ! i) s)"
  by (auto simp: common_fpga_interface_info_vec_at_def wp_rules)

lemma wp_vec_upd [wp_rules]:
  "wp (vec_upd i f) Q s =
     (\<exists>xs. vec s = Some xs \<and> i < length xs
        \<and> Q () (s\<lparr>g_common_fpga_interface_info_vec := Some (xs[i := f (xs ! i)])\<rparr>))"
  by (auto simp: vec_upd_def wp_rules)

lemma wp_vec_size [wp_rules]:
  "wp common_fpga_interface_info_vec_size Q s = Q (vec_size s) s"
  by (simp add: common_fpga_interface_info_vec_size_def wp_rules)

lemma wp_zero_infos [wp_rules]:
  "wp (zero_infos i n) Q s =
     (\<exists>xs. vec s = Some xs \<and> i + n \<le> length xs
        \<and> Q () (s\<lparr>g_common_fpga_interface_info_vec :=
              Some (take i xs @ replicate n zero_info @ drop (i + n) xs)\<rparr>))"
  by (auto simp: zero_infos_def wp_rules)

section \<open>The invariant of the vector and what it owns\<close>

text \<open>An entry is well formed when its parameter array has the recorded length.\<close>

definition info_ok :: "FPGA_INTERFACE_INFO \<Rightarrow> bool" where
  "info_ok x = (case parameters x of
                  None \<Rightarrow> num_of_parameters x = 0
                | Some ps \<Rightarrow> num_of_parameters x = length ps)"

definition blocks_of_param :: "FPGA_INTERFACE_PARAMETER \<Rightarrow> int" where
  "blocks_of_param p = (if data p = None then 0 else 1)"

definition blocks_of_info :: "FPGA_INTERFACE_INFO \<Rightarrow> int" where
  "blocks_of_info x = (case parameters x of
                         None \<Rightarrow> 0
                       | Some ps \<Rightarrow> 1 + sum_list (map blocks_of_param ps))"

definition vec_inv :: "'e cmn_state_scheme \<Rightarrow> bool" where
  "vec_inv s =
     (case vec s of
        None \<Rightarrow> vec_size s = 0 \<and> vec_reserved s = 0
      | Some xs \<Rightarrow> length xs = vec_reserved s \<and> vec_size s \<le> vec_reserved s
          \<and> 0 < vec_reserved s
          \<and> list_all info_ok xs
          \<and> drop (vec_size s) xs = replicate (vec_reserved s - vec_size s) zero_info)"

definition vec_abs :: "'e cmn_state_scheme \<Rightarrow> FPGA_INTERFACE_INFO list" where
  "vec_abs s = (case vec s of None \<Rightarrow> [] | Some xs \<Rightarrow> take (vec_size s) xs)"

definition vec_blocks :: "'e cmn_state_scheme \<Rightarrow> int" where
  "vec_blocks s = (case vec s of None \<Rightarrow> 0
                   | Some xs \<Rightarrow> 1 + sum_list (map blocks_of_info (take (vec_size s) xs)))"

lemma info_ok_zero [simp]: "info_ok zero_info"
  by (simp add: info_ok_def)

lemma blocks_of_info_zero [simp]: "blocks_of_info zero_info = 0"
  by (simp add: blocks_of_info_def)

lemma blocks_of_param_zero [simp]: "blocks_of_param zero_param = 0"
  by (simp add: blocks_of_param_def)

text \<open>All three depend on the three variables of the vector only.\<close>

lemma vec_cong:
  assumes "vec s = vec t" and "vec_size s = vec_size t" and "vec_reserved s = vec_reserved t"
  shows "vec_inv s = vec_inv t" and "vec_abs s = vec_abs t" and "vec_blocks s = vec_blocks t"
  using assms by (simp_all add: vec_inv_def vec_abs_def vec_blocks_def cong: option.case_cong)

lemma length_vec_abs: "vec_inv s \<Longrightarrow> length (vec_abs s) = vec_size s"
  by (auto simp: vec_inv_def vec_abs_def split: option.splits)

lemma vec_inv_nth_ok:
  "vec_inv s \<Longrightarrow> vec s = Some xs \<Longrightarrow> i < length xs \<Longrightarrow> info_ok (xs ! i)"
  by (auto simp: vec_inv_def list_all_length)

lemma vec_inv_Some:
  assumes "vec_inv s" and "i < vec_size s"
  obtains xs where "vec s = Some xs" and "i < length xs" and "xs ! i = vec_abs s ! i"
  using assms by (auto simp: vec_inv_def vec_abs_def split: option.splits)

section \<open>The shrinking branch\<close>

text \<open>The inner loop frees exactly the data blocks of the parameters from \<open>j\<close> on.\<close>

lemma wp_free_param_data:
  assumes "vec s = Some xs" and "i < length xs" and "parameters (xs ! i) = Some ps"
    and "j + k = length ps"
  shows "wp (free_param_data k i j) Q s =
     Q () (s\<lparr>live := live s - sum_list (map blocks_of_param (drop j ps))\<rparr>)"
  using assms
proof (induction k arbitrary: j s)
  case 0
  then show ?case by (simp add: wp_rules)
next
  case (Suc k)
  then have "j < length ps" and "Suc j + k = length ps" by simp_all
  with Suc.prems show ?case
    by (auto simp: wp_rules Suc.IH sum_list_drop_nth [of j ps] blocks_of_param_def algebra_simps)
qed

lemma wp_free_info_params:
  assumes "vec s = Some xs" and "i < length xs" and "info_ok (xs ! i)"
  shows "wp (free_param_data (num_of_parameters (xs ! i)) i 0) Q s =
     Q () (s\<lparr>live := live s - (blocks_of_info (xs ! i)
                 - (if parameters (xs ! i) = None then 0 else 1))\<rparr>)"
proof (cases "parameters (xs ! i)")
  case None
  with assms(3) show ?thesis by (simp add: info_ok_def blocks_of_info_def wp_rules)
next
  case (Some ps)
  with assms(3) have "0 + num_of_parameters (xs ! i) = length ps" by (simp add: info_ok_def)
  from wp_free_param_data [OF assms(1,2) Some this] Some show ?thesis
    by (simp add: blocks_of_info_def)
qed

text \<open>The outer loop frees everything the dropped entries own.\<close>

lemma wp_free_infos:
  assumes "vec s = Some xs" and "i + k \<le> length xs" and "list_all info_ok xs"
  shows "wp (free_infos k i) Q s =
     Q () (s\<lparr>live := live s - sum_list (map blocks_of_info (take k (drop i xs)))\<rparr>)"
  using assms
proof (induction k arbitrary: i s)
  case 0
  then show ?case by (simp add: wp_rules)
next
  case (Suc k)
  then have i: "i < length xs" and rest: "Suc i + k \<le> length xs" by simp_all
  with Suc.prems have ok: "info_ok (xs ! i)" by (simp add: list_all_length)
  have split: "take (Suc k) (drop i xs) = xs ! i # take k (drop (Suc i) xs)"
    using i by (simp flip: Cons_nth_drop_Suc)
  show ?case
    using Suc.prems i rest ok
    by (auto simp: wp_rules wp_free_info_params Suc.IH split algebra_simps)
qed

section \<open>Reserve and resize keep the invariant\<close>

lemma drop_take_replicate:
  "n \<le> length xs \<Longrightarrow> n \<le> m \<Longrightarrow> m \<le> length xs \<Longrightarrow> drop m xs = replicate (length xs - m) z
   \<Longrightarrow> take n xs @ replicate (m - n) z @ drop m xs = take n xs @ replicate (length xs - n) z"
  by (simp flip: replicate_add)

text \<open>The growing branch.\<close>

lemma wp_reserve_grow:
  assumes inv: "vec_inv s" and n: "vec_reserved s < n"
    and ok: "env_alloc_ok (env s) (alloc_no s) (n * sizeof_info)"
  shows "wp (common_fpga_interface_info_vec_reserve n) Q s =
     Q () (s\<lparr>alloc_no := Suc (alloc_no s),
             live := live s + (if vec s = None then 1 else 0),
             g_common_fpga_interface_info_vec :=
               Some (vec_abs s @ replicate (n - vec_size s) zero_info),
             g_common_fpga_interface_info_vec_reserved := n\<rparr>)"
proof (cases "vec s")
  case None
  with inv n ok show ?thesis
    by (simp add: common_fpga_interface_info_vec_reserve_def wp_rules vec_inv_def vec_abs_def)
next
  case (Some xs)
  with inv have len: "length xs = vec_reserved s" and sz: "vec_size s \<le> vec_reserved s"
    and z: "drop (vec_size s) xs = replicate (vec_reserved s - vec_size s) zero_info"
    by (auto simp: vec_inv_def)
  have step: "wp (common_fpga_interface_info_vec_reserve n) Q s =
     Q () (s\<lparr>alloc_no := Suc (alloc_no s),
             g_common_fpga_interface_info_vec :=
               Some (xs @ replicate (n - vec_reserved s) zero_info),
             g_common_fpga_interface_info_vec_reserved := n\<rparr>)"
    using Some n ok len by (simp add: common_fpga_interface_info_vec_reserve_def wp_rules)
  have "xs = take (vec_size s) xs @ replicate (vec_reserved s - vec_size s) zero_info"
    using append_take_drop_id [of "vec_size s" xs] z by simp
  then have "xs @ replicate (n - vec_reserved s) zero_info =
      take (vec_size s) xs @ replicate (vec_reserved s - vec_size s) zero_info
        @ replicate (n - vec_reserved s) zero_info"
    by (metis append.assoc)
  also have "\<dots> = vec_abs s @ replicate (n - vec_size s) zero_info"
    using Some n sz by (simp add: vec_abs_def flip: replicate_add)
  finally show ?thesis using Some by (simp add: step)
qed

text \<open>The branch for a size that fits: entries are dropped and zeroed, and at zero the array goes
  back to the allocator.\<close>

lemma wp_reserve_fits:
  assumes inv: "vec_inv s" and n: "n \<le> vec_reserved s" "0 < n"
  shows "wp (common_fpga_interface_info_vec_reserve n) Q s =
     Q () (s\<lparr>live := live s - sum_list (map blocks_of_info (drop n (vec_abs s))),
             g_common_fpga_interface_info_vec :=
               Some (take n (vec_abs s) @ replicate (vec_reserved s - min n (vec_size s)) zero_info),
             g_common_fpga_interface_info_vec_size := min n (vec_size s)\<rparr>)"
proof -
  from inv n obtain xs where xs: "vec s = Some xs" and len: "length xs = vec_reserved s"
    and sz: "vec_size s \<le> vec_reserved s" and oks: "list_all info_ok xs"
    and z: "drop (vec_size s) xs = replicate (vec_reserved s - vec_size s) zero_info"
    by (auto simp: vec_inv_def split: option.splits)
  have whole: "xs = take (vec_size s) xs @ replicate (vec_reserved s - vec_size s) zero_info"
    using append_take_drop_id [of "vec_size s" xs] z by simp
  show ?thesis
  proof (cases "n < vec_size s")
    case True
    have "take (vec_size s - n) (drop n xs) = drop n (vec_abs s)"
      using xs by (simp add: vec_abs_def drop_take)
    moreover have "take n xs @ replicate (vec_size s - n) zero_info @ drop (vec_size s) xs
        = take n (vec_abs s) @ replicate (vec_reserved s - n) zero_info"
      using True xs sz len z by (simp add: vec_abs_def min_def flip: replicate_add)
    ultimately show ?thesis
      using True n xs sz len oks
      by (simp add: common_fpga_interface_info_vec_reserve_def wp_rules wp_free_infos min_def)
  next
    case False
    then have d: "drop n (vec_abs s) = []" and t: "take n (vec_abs s) = vec_abs s"
      and m: "min n (vec_size s) = vec_size s"
      using inv by (simp_all add: length_vec_abs)
    have a: "vec_abs s @ replicate (vec_reserved s - vec_size s) zero_info = xs"
      using xs whole by (simp add: vec_abs_def)
    have self: "s\<lparr>live := live s, g_common_fpga_interface_info_vec := Some xs,
        g_common_fpga_interface_info_vec_size := vec_size s\<rparr> = s"
      using xs by (cases s) simp
    have "wp (common_fpga_interface_info_vec_reserve n) Q s = Q () s"
      using False n xs by (simp add: common_fpga_interface_info_vec_reserve_def wp_rules)
    then show ?thesis unfolding d t m a by (simp only: list.map sum_list.Nil diff_zero self)
  qed
qed

text \<open>Size zero: everything is freed.\<close>

lemma wp_reserve_zero:
  assumes inv: "vec_inv s"
  shows "wp (common_fpga_interface_info_vec_reserve 0) Q s =
     Q () (s\<lparr>live := live s - vec_blocks s, g_common_fpga_interface_info_vec := None,
             g_common_fpga_interface_info_vec_reserved := 0,
             g_common_fpga_interface_info_vec_size := 0\<rparr>)"
proof (cases "vec s")
  case None
  with inv show ?thesis
    by (simp add: common_fpga_interface_info_vec_reserve_def wp_rules vec_inv_def vec_blocks_def)
next
  case (Some xs)
  with inv show ?thesis
    by (auto simp: common_fpga_interface_info_vec_reserve_def wp_rules wp_free_infos vec_inv_def
        vec_blocks_def algebra_simps)
qed

section \<open>Resize against the abstract vector\<close>

text \<open>What a resize to \<open>n\<close> leaves of the abstract list.\<close>

definition list_resize :: "nat \<Rightarrow> FPGA_INTERFACE_INFO list \<Rightarrow> FPGA_INTERFACE_INFO list" where
  "list_resize n xs = take n xs @ replicate (n - length xs) zero_info"

lemma length_list_resize [simp]: "length (list_resize n xs) = n"
  by (simp add: list_resize_def)

lemma list_resize_0 [simp]: "list_resize 0 xs = []"
  by (simp add: list_resize_def)

definition reserved_after :: "nat \<Rightarrow> nat \<Rightarrow> nat" where
  "reserved_after n r = (if n = 0 then 0 else max n r)"

text \<open>The whole effect of a resize that gets its memory, as one state update.\<close>

definition resized :: "nat \<Rightarrow> 'e cmn_state_scheme \<Rightarrow> 'e cmn_state_scheme" where
  "resized n s =
     s\<lparr>alloc_no := (if n > vec_reserved s then Suc (alloc_no s) else alloc_no s),
       live := live s - sum_list (map blocks_of_info (drop n (vec_abs s)))
         + (if vec s = None \<and> 0 < n then 1 else if vec s \<noteq> None \<and> n = 0 then -1 else 0),
       g_common_fpga_interface_info_vec :=
         (if n = 0 then None
          else Some (list_resize n (vec_abs s)
                     @ replicate (reserved_after n (vec_reserved s) - n) zero_info)),
       g_common_fpga_interface_info_vec_reserved := reserved_after n (vec_reserved s),
       g_common_fpga_interface_info_vec_size := n\<rparr>"

lemma vec_blocks_abs:
  "vec_blocks s = (if vec s = None then 0 else 1 + sum_list (map blocks_of_info (vec_abs s)))"
  by (auto simp: vec_blocks_def vec_abs_def split: option.split)

lemma wp_resize:
  assumes inv: "vec_inv s"
    and ok: "vec_reserved s < n \<Longrightarrow> env_alloc_ok (env s) (alloc_no s) (n * sizeof_info)"
  shows "wp (common_fpga_interface_info_vec_resize n) Q s = Q () (resized n s)"
proof -
  have len: "length (vec_abs s) = vec_size s" and sz: "vec_size s \<le> vec_reserved s"
    using inv by (auto simp: length_vec_abs vec_inv_def split: option.splits)
  consider "n = 0" | "0 < n" "n \<le> vec_reserved s" | "vec_reserved s < n" by linarith
  then show ?thesis
  proof cases
    case 1
    with inv show ?thesis
      by (simp add: common_fpga_interface_info_vec_resize_def wp_rules wp_reserve_zero
          resized_def vec_blocks_abs reserved_after_def algebra_simps vec_abs_def)
  next
    case 2
    with inv obtain xs where "vec s = Some xs" by (cases "vec s") (auto simp: vec_inv_def)
    with 2 inv len sz show ?thesis
      by (simp add: common_fpga_interface_info_vec_resize_def wp_rules wp_reserve_fits
          resized_def list_resize_def reserved_after_def max_def min_def flip: replicate_add)
  next
    case 3
    with inv ok len sz show ?thesis
      by (simp add: common_fpga_interface_info_vec_resize_def wp_rules wp_reserve_grow
          resized_def list_resize_def reserved_after_def)
  qed
qed

text \<open>The resized state is well formed and stands for the resized list.\<close>

lemma resized_abs: "vec_inv s \<Longrightarrow> vec_abs (resized n s) = list_resize n (vec_abs s)"
  by (simp add: vec_abs_def [of "resized n s"]) (simp add: resized_def)

lemma list_all_resize: "list_all info_ok xs \<Longrightarrow> list_all info_ok (list_resize n xs)"
  by (auto simp: list_resize_def list_all_iff dest: in_set_takeD)

lemma vec_abs_ok: "vec_inv s \<Longrightarrow> list_all info_ok (vec_abs s)"
  by (cases "vec s") (auto simp: vec_inv_def vec_abs_def list_all_iff dest: in_set_takeD)

lemma list_all_replicate_zero: "list_all info_ok (replicate k zero_info)"
  by (simp add: list_all_iff)

lemma resized_vec:
  "vec (resized n s) =
     (if n = 0 then None
      else Some (list_resize n (vec_abs s)
                 @ replicate (reserved_after n (vec_reserved s) - n) zero_info))"
  "vec_size (resized n s) = n"
  "vec_reserved (resized n s) = reserved_after n (vec_reserved s)"
  by (simp_all add: resized_def)

lemma resized_inv:
  assumes "vec_inv s"
  shows "vec_inv (resized n s)"
proof (cases "n = 0")
  case True
  then show ?thesis by (simp add: vec_inv_def resized_vec reserved_after_def)
next
  case False
  then have "n \<le> reserved_after n (vec_reserved s)" and "0 < reserved_after n (vec_reserved s)"
    by (simp_all add: reserved_after_def)
  with False show ?thesis
    by (simp add: vec_inv_def resized_vec list_all_resize [OF vec_abs_ok [OF assms]]
        list_all_replicate_zero)
qed

lemma resized_frame [simp]:
  "env (resized n s) = env s" "mem (resized n s) = mem s" "out (resized n s) = out s"
  "dfh_parent_stack (resized n s) = dfh_parent_stack s"
  "s_scanned_interface_count (resized n s) = s_scanned_interface_count s"
  "s_interface_index (resized n s) = s_interface_index s"
  "vec_size (resized n s) = n"
  "g_common_fpga_platform_runtime_exception_handler (resized n s)
     = g_common_fpga_platform_runtime_exception_handler s"
  by (simp_all add: resized_def)

text \<open>Blocks are accounted for: what the vector owns and \<open>live\<close> move together.\<close>

lemma sum_blocks_take_drop:
  "sum_list (map blocks_of_info xs) =
   sum_list (map blocks_of_info (list_resize n xs)) + sum_list (map blocks_of_info (drop n xs))"
proof -
  have "sum_list (map blocks_of_info (replicate k zero_info)) = 0" for k
    by (induction k) simp_all
  then show ?thesis
    by (metis add.right_neutral append_take_drop_id list_resize_def map_append sum_list_append)
qed

lemma resized_live:
  assumes "vec_inv s"
  shows "live (resized n s) - vec_blocks (resized n s) = live s - vec_blocks s"
proof -
  have live: "live (resized n s) = live s - sum_list (map blocks_of_info (drop n (vec_abs s)))
      + (if vec s = None \<and> 0 < n then 1 else if vec s \<noteq> None \<and> n = 0 then -1 else 0)"
    by (simp add: resized_def)
  have new: "vec_blocks (resized n s) =
      (if n = 0 then 0 else 1 + sum_list (map blocks_of_info (list_resize n (vec_abs s))))"
    by (simp add: vec_blocks_abs resized_abs [OF assms] resized_vec)
  have empty: "vec_abs s = []" if "vec s = None" using that by (simp add: vec_abs_def)
  show ?thesis
    unfolding live new vec_blocks_abs [of s] sum_blocks_take_drop [of "vec_abs s" n]
    by (cases "vec s"; cases "n = 0") (simp_all add: empty list_resize_def sum_list_replicate)
qed

end
