(* ===== verification/Dfl_Read.thy ===== *)
theory Dfl_Read
  imports Cmn_Inf
begin

unbundle bit_operations_syntax

text \<open>
  Reading a Device Feature List: the register reads of \<open>common/inc/intel_fpga_api_cmn_dfl.h\<close> in
  their three build variants, and the field decoders of \<open>common/src/intel_fpga_api_cmn_dfl.c\<close>.

  \<open>dfl_view\<close> is what the DFL looks like through \<open>common_dfl_read_64\<close>, whichever variant is
  built; the walker is verified against it.  Every decoder is proved to be a bit field, and the
  decoders are compared with the encoders that the library's own tests use.
\<close>

section \<open>Little-endian memory\<close>

fun load_bytes :: "memory \<Rightarrow> u64 \<Rightarrow> nat \<Rightarrow> u8 list option" where
  "load_bytes m a 0 = Some []"
| "load_bytes m a (Suc n) =
     (case m a of None \<Rightarrow> None | Some b \<Rightarrow> map_option (Cons b) (load_bytes m (a + 1) n))"

fun le_word :: "u8 list \<Rightarrow> 'a::len word" where
  "le_word [] = 0"
| "le_word (b # bs) = ucast b OR push_bit 8 (le_word bs)"

definition load32 :: "memory \<Rightarrow> u64 \<Rightarrow> u32 option" where
  "load32 m a = map_option le_word (load_bytes m a 4)"

definition load64 :: "memory \<Rightarrow> u64 \<Rightarrow> u64 option" where
  "load64 m a = map_option le_word (load_bytes m a 8)"

text \<open>A pointer that is dereferenced has to be aligned to the size of what it points to.\<close>

definition aligned :: "nat \<Rightarrow> u64 \<Rightarrow> bool" where
  "aligned n a \<longleftrightarrow> n dvd unat a"

definition volatile_load :: "nat \<Rightarrow> (memory \<Rightarrow> u64 \<Rightarrow> 'a option) \<Rightarrow> u64 \<Rightarrow> ('e, 'a) cmn" where
  "volatile_load n load a =
     thn (require Misaligned_access (aligned n a))
    (bnd (gets mem) (\<lambda>m.
       case load m a of
         None \<Rightarrow> halt (Undefined_behaviour Unmapped_address)
       | Some w \<Rightarrow> ret w))"

text \<open>A 64-bit value from two 32-bit halves, the low one first.\<close>

definition join32 :: "u32 \<Rightarrow> u32 \<Rightarrow> u64" where
  "join32 lo hi = ucast lo OR push_bit 32 (ucast hi)"

section \<open>Register reads\<close>

definition common_dfl_read_32 :: "u64 \<Rightarrow> u32 \<Rightarrow> ('e, u32) cmn" where
  "common_dfl_read_32 begin_address offset =
     thn (if (begin_address + ucast offset) AND 3 \<noteq> 0 then
            fpga_throw_runtime_exception ''common_dfl_read_32''
              ''read address 0x%lX is not 32-bit aligned.''
              [Arg_word (begin_address + ucast offset)]
          else ret ())
         (volatile_load 4 load32 (begin_address + ucast offset))"

definition common_dfl_read_64_native :: "u64 \<Rightarrow> u32 \<Rightarrow> ('e, u64) cmn" where
  "common_dfl_read_64_native begin_address offset =
     volatile_load 8 load64 (begin_address + ucast offset)"

definition common_dfl_read_64_emulated :: "u64 \<Rightarrow> u32 \<Rightarrow> ('e, u64) cmn" where
  "common_dfl_read_64_emulated begin_address offset =
     bnd (common_dfl_read_32 begin_address offset) (\<lambda>lo.
     bnd (common_dfl_read_32 begin_address (offset + 4)) (\<lambda>hi.
     ret (ucast lo OR push_bit 32 (ucast hi))))"

definition common_dfl_read_64_custom :: "u64 \<Rightarrow> u32 \<Rightarrow> ('e, u64) cmn" where
  "common_dfl_read_64_custom begin_address offset =
     bnd (gets (\<lambda>s. env_sim_read_32 (env s))) (\<lambda>g_fpga_read_32_f.
     ret (join32 (g_fpga_read_32_f (begin_address + ucast offset))
                 (g_fpga_read_32_f (begin_address + ucast offset + 4))))"

definition common_dfl_read_64 :: "u64 \<Rightarrow> u32 \<Rightarrow> ('e, u64) cmn" where
  "common_dfl_read_64 begin_address offset =
     bnd (gets (\<lambda>s. env_read_mode (env s))) (\<lambda>mode.
       case mode of
         Native_64 \<Rightarrow> common_dfl_read_64_native begin_address offset
       | Emulated_32 \<Rightarrow> common_dfl_read_64_emulated begin_address offset
       | Custom_read \<Rightarrow> common_dfl_read_64_custom begin_address offset)"

section \<open>Field decoders\<close>

definition is_eol :: "u64 \<Rightarrow> bool" where
  "is_eol dfh_start_64_data \<longleftrightarrow> dfh_start_64_data AND 0x0000010000000000 > 0"

definition get_next_dfh_byte_offset :: "u64 \<Rightarrow> u32" where
  "get_next_dfh_byte_offset dfh_start_64_data =
     ucast (drop_bit 16 (dfh_start_64_data AND 0x0000007fffff0000))"

definition get_next_dfh_addr :: "u64 \<Rightarrow> u64 \<Rightarrow> u64" where
  "get_next_dfh_addr dfh_start_64_data current_dfh_address =
     current_dfh_address + ucast (get_next_dfh_byte_offset dfh_start_64_data)"

definition get_first_param_header_addr :: "u64 \<Rightarrow> u64" where
  "get_first_param_header_addr dfh_base_addr = dfh_base_addr + 0x28"

definition is_last_param_block :: "u64 \<Rightarrow> bool" where
  "is_last_param_block param_header_64_data \<longleftrightarrow> drop_bit 32 param_header_64_data AND 1 \<noteq> 0"

definition get_next_param_byte_offset :: "u64 \<Rightarrow> u64" where
  "get_next_param_byte_offset param_header_64_data = push_bit 3 (drop_bit 35 param_header_64_data)"

definition get_param_block_version :: "u64 \<Rightarrow> u16" where
  "get_param_block_version param_header_64_data = ucast (drop_bit 16 param_header_64_data AND 0xFFFF)"

definition get_param_block_param_id :: "u64 \<Rightarrow> u16" where
  "get_param_block_param_id param_header_64_data = ucast (param_header_64_data AND 0xFFFF)"

definition get_param_id :: "u64 \<Rightarrow> u32" where
  "get_param_id param_header_64_data = ucast (param_header_64_data AND 0x000000000000FFFF)"

definition has_params :: "u64 \<Rightarrow> bool" where
  "has_params csr_size_group_64_data \<longleftrightarrow> csr_size_group_64_data AND 0x0000000080000000 > 0"

section \<open>Header accessors\<close>

definition get_x_feature_dfh_start_64_data :: "u64 \<Rightarrow> ('e, u64) cmn" where
  "get_x_feature_dfh_start_64_data current_dfh_address = common_dfl_read_64 current_dfh_address 0x00"

definition get_x_feature_guid_l_64 :: "u64 \<Rightarrow> ('e, u64) cmn" where
  "get_x_feature_guid_l_64 current_dfh_address = common_dfl_read_64 current_dfh_address 0x08"

definition get_x_feature_guid_h_64 :: "u64 \<Rightarrow> ('e, u64) cmn" where
  "get_x_feature_guid_h_64 current_dfh_address = common_dfl_read_64 current_dfh_address 0x10"

definition get_x_feature_guid_128 :: "u64 \<Rightarrow> ('e, FPGA_INTERFACE_GUID) cmn" where
  "get_x_feature_guid_128 dfh_addr =
     bnd (get_x_feature_guid_h_64 dfh_addr) (\<lambda>h.
     bnd (get_x_feature_guid_l_64 dfh_addr) (\<lambda>l.
     ret \<lparr>guid_l = l, guid_h = h\<rparr>))"

definition get_x_feature_csr_group_size_64_data :: "u64 \<Rightarrow> ('e, u64) cmn" where
  "get_x_feature_csr_group_size_64_data current_dfh_address =
     common_dfl_read_64 current_dfh_address 0x20"

definition get_instance_id :: "u64 \<Rightarrow> ('e, u16) cmn" where
  "get_instance_id current_dfh_address =
     bnd (get_x_feature_csr_group_size_64_data current_dfh_address) (\<lambda>d.
     ret (ucast (d AND 0x000000000000ffff)))"

definition get_group_id :: "u64 \<Rightarrow> ('e, u16) cmn" where
  "get_group_id current_dfh_address =
     bnd (get_x_feature_csr_group_size_64_data current_dfh_address) (\<lambda>d.
     ret (ucast (drop_bit 16 (d AND 0x000000007fff0000))))"

definition get_base_address :: "u64 \<Rightarrow> ('e, u64) cmn" where
  "get_base_address current_dfh_address =
     bnd (common_dfl_read_64 current_dfh_address 0x18) (\<lambda>csr_addr.
     if 1 AND csr_addr \<noteq> 0 then ret (csr_addr AND 0xFFFFFFFFFFFFFFFE)
     else ret (current_dfh_address + csr_addr))"

section \<open>The words of a DFL as the library sees them\<close>

definition dfl_view :: "'e cmn_state_scheme \<Rightarrow> u64 \<Rightarrow> u64 option" where
  "dfl_view s a =
     (case env_read_mode (env s) of
        Native_64 \<Rightarrow> if aligned 8 a then load64 (mem s) a else None
      | Emulated_32 \<Rightarrow> if a AND 3 = 0 then load64 (mem s) a else None
      | Custom_read \<Rightarrow> Some (join32 (env_sim_read_32 (env s) a) (env_sim_read_32 (env s) (a + 4))))"

lemma dfl_view_cong: "env s = env t \<Longrightarrow> mem s = mem t \<Longrightarrow> dfl_view s = dfl_view t"
  by (rule ext) (simp only: dfl_view_def)

section \<open>Little-endian words\<close>

lemma bit_le_word:
  "bit (le_word bs :: 'a::len word) n \<longleftrightarrow>
     n < LENGTH('a) \<and> n div 8 < length bs \<and> bit (bs ! (n div 8)) (n mod 8)"
proof (induction bs arbitrary: n)
  case Nil
  then show ?case by simp
next
  case (Cons b bs)
  show ?case
  proof (cases "n < 8")
    case True
    then show ?thesis by (auto simp: bit_simps)
  next
    case False
    then have "n div 8 = Suc ((n - 8) div 8)" and "n mod 8 = (n - 8) mod 8"
      by (simp_all add: le_div_geq le_mod_geq)
    moreover have "\<not> bit b n" using False by (simp add: bit_word.rep_eq) 
    ultimately show ?thesis using False by (auto simp: bit_simps Cons.IH)
  qed
qed

lemma le_word_append:
  "(le_word (bs @ cs) :: 'a::len word) = le_word bs OR push_bit (8 * length bs) (le_word cs)"
  by (induction bs) (simp_all add: push_bit_or or.assoc)

lemma ucast_le_word:
  assumes "8 * length bs \<le> LENGTH('b)"
  shows "(ucast (le_word bs :: 'b::len word) :: 'a::len word) = le_word bs"
proof (rule bit_word_eqI)
  fix n assume "n < LENGTH('a)"
  moreover have "n < LENGTH('b)" if "n div 8 < length bs"
    using that assms by linarith
  ultimately show "bit (ucast (le_word bs :: 'b word) :: 'a word) n = bit (le_word bs :: 'a word) n"
    by (auto simp: bit_simps bit_le_word)
qed

lemma load_bytes_append:
  "load_bytes m a (k + n) =
     (case load_bytes m a k of None \<Rightarrow> None
      | Some bs \<Rightarrow> (case load_bytes m (a + of_nat k) n of None \<Rightarrow> None
                     | Some cs \<Rightarrow> Some (bs @ cs)))"
proof (induction k arbitrary: a)
  case 0
  then show ?case by (simp split: option.split)
next
  case (Suc k)
  show ?case by (simp add: Suc.IH add.assoc split: option.split)
qed

lemma length_load_bytes: "load_bytes m a n = Some bs \<Longrightarrow> length bs = n"
  by (induction n arbitrary: a bs) (auto split: option.splits)

text \<open>The emulation with two 32-bit reads gives the native value.\<close>

lemma load64_halves:
  "load64 m a =
     (case load32 m a of None \<Rightarrow> None
      | Some lo \<Rightarrow> (case load32 m (a + 4) of None \<Rightarrow> None | Some hi \<Rightarrow> Some (join32 lo hi)))"
proof -
  have "load_bytes m a (4 + 4) =
     (case load_bytes m a 4 of None \<Rightarrow> None
      | Some bs \<Rightarrow> (case load_bytes m (a + 4) 4 of None \<Rightarrow> None | Some cs \<Rightarrow> Some (bs @ cs)))"
    by (subst load_bytes_append) (simp split: option.split)
  moreover have "le_word (bs @ cs) = join32 (le_word bs) (le_word cs)"
    if "length bs = 4" and "length cs = 4" for bs cs
    using that by (simp add: join32_def le_word_append ucast_le_word)
  ultimately show ?thesis
    by (auto simp: load64_def load32_def dest: length_load_bytes split: option.splits)
qed

section \<open>The three read variants agree with the view\<close>

lemma mask_numerals:
  "(3 :: u64) = mask 2" "(7 :: u64) = mask 3" "(0xFFFF :: u64) = mask 16"
  "(0x7FFF :: u64) = mask 15" "(0x7FFFFF :: u64) = mask 23"
  by (simp_all add: mask_eq_exp_minus_1)

lemma and_3_add_4: "(y + 4) AND 3 = (y::u64) AND 3"
proof -
  have "unat (take_bit 2 (y + 4)) = unat (take_bit 2 y)"
    by (simp add: unsigned_take_bit_eq unat_word_ariths take_bit_eq_mod mod_mod_cancel)
  then have "take_bit 2 (y + 4) = take_bit 2 y" by (simp only: word_unat_eq_iff)
  then show ?thesis by (simp add: mask_numerals flip: take_bit_eq_mask)
qed

lemma ucast_small_add_4:
  assumes "off \<le> (0x28 :: u32)"
  shows "(ucast (off + 4) :: u64) = ucast off + 4"
proof -
  have "unat off \<le> 0x28" using assms by (simp add: word_le_nat_alt)
  then have "unat (ucast (off + 4) :: u64) = unat (ucast off + 4 :: u64)"
    by (simp add: unat_word_ariths unsigned_ucast_eq take_bit_nat_eq_self)
  then show ?thesis by (rule word_unat_eq_iff [THEN iffD2])
qed

lemma aligned_4_mask: "aligned 4 x \<longleftrightarrow> x AND 3 = 0"
proof -
  have "unat (take_bit 2 x) = unat x mod 4"
    by (simp only: unsigned_take_bit_eq) (simp add: take_bit_eq_mod)
  then have "aligned 4 x \<longleftrightarrow> unat (take_bit 2 x) = 0" by (simp add: aligned_def dvd_eq_mod_eq_0)
  then show ?thesis by (simp add: mask_numerals unat_eq_0 flip: take_bit_eq_mask)
qed

lemma run_volatile_load [run_rules]:
  "volatile_load n load a s =
     (if aligned n a then
       (case load (mem s) a of None \<Rightarrow> Stop (Undefined_behaviour Unmapped_address) s
        | Some w \<Rightarrow> Ret w s)
      else Stop (Undefined_behaviour Misaligned_access) s)"
  by (simp add: volatile_load_def run_rules split: option.split)

text \<open>Whatever the build, a read of a header or parameter word that the view shows returns that
  word and changes nothing.\<close>

lemma common_dfl_read_64_at:
  assumes view: "dfl_view s (a + ucast off) = Some w" and off: "(ucast (off + 4) :: u64) = ucast off + 4"
  shows "common_dfl_read_64 a off s = Ret w s"
proof (cases "env_read_mode (env s)")
  case Native_64
  with view show ?thesis
    by (simp add: common_dfl_read_64_def common_dfl_read_64_native_def run_rules dfl_view_def
        split: if_splits)
next
  case Emulated_32
  with view have al: "(a + ucast off) AND 3 = 0" and l: "load64 (mem s) (a + ucast off) = Some w"
    by (simp_all add: dfl_view_def split: if_splits)
  have next_a: "a + ucast (off + 4) = a + ucast off + 4"
    using off by (simp add: add.assoc)
  from al have al': "(a + ucast off + 4) AND 3 = 0" by (simp add: and_3_add_4)
  from l obtain lo hi where "load32 (mem s) (a + ucast off) = Some lo"
    and "load32 (mem s) (a + ucast off + 4) = Some hi" and "w = join32 lo hi"
    by (auto simp: load64_halves split: option.splits)
  with Emulated_32 al al' show ?thesis
    by (simp add: common_dfl_read_64_def common_dfl_read_64_emulated_def common_dfl_read_32_def
        run_rules aligned_4_mask next_a join32_def del: word_eq_numeral_iff_iszero)
next
  case Custom_read
  with view show ?thesis
    by (simp add: common_dfl_read_64_def common_dfl_read_64_custom_def run_rules dfl_view_def)
qed

lemma common_dfl_read_64_view:
  assumes "dfl_view s (a + ucast off) = Some w" and "off \<le> 0x28"
  shows "common_dfl_read_64 a off s = Ret w s"
  using assms by (intro common_dfl_read_64_at ucast_small_add_4)

section \<open>The decoders are bit fields\<close>

lemma is_eol_bit: "is_eol w \<longleftrightarrow> bit w 40"
proof -
  have "(0x0000010000000000 :: u64) = 2 ^ 40" by simp
  then show ?thesis unfolding is_eol_def
    by (simp only: word_neq_0_conv [symmetric] and_exp_eq_0_iff_not_bit not_not)
qed

lemma has_params_bit: "has_params w \<longleftrightarrow> bit w 31"
proof -
  have "(0x0000000080000000 :: u64) = 2 ^ 31" by simp
  then show ?thesis unfolding has_params_def
    by (simp only: word_neq_0_conv [symmetric] and_exp_eq_0_iff_not_bit not_not)
qed

lemma is_last_param_block_bit: "is_last_param_block w \<longleftrightarrow> bit w 32"
  by (simp add: is_last_param_block_def and_one_eq bit_iff_odd_drop_bit odd_iff_mod_2_eq_one)

lemma get_next_dfh_byte_offset_field:
  "get_next_dfh_byte_offset w = ucast (take_bit 23 (drop_bit 16 w))"
proof -
  have "drop_bit 16 (w AND 0x0000007fffff0000) = drop_bit 16 w AND 0x7FFFFF"
    by (simp add: drop_bit_and)
  then show ?thesis
    by (simp add: get_next_dfh_byte_offset_def mask_numerals flip: take_bit_eq_mask)
qed

lemma get_param_block_version_field: "get_param_block_version w = ucast (drop_bit 16 w)"
  by (simp add: get_param_block_version_def mask_numerals flip: take_bit_eq_mask)
    (simp add: bit_eq_iff bit_simps)

lemma get_param_block_param_id_field: "get_param_block_param_id w = ucast w"
  by (simp add: get_param_block_param_id_def mask_numerals flip: take_bit_eq_mask)
    (simp add: bit_eq_iff bit_simps)

lemma get_param_id_block: "get_param_id w = ucast (get_param_block_param_id w)"
  by (simp add: get_param_block_param_id_field get_param_id_def mask_numerals
      flip: take_bit_eq_mask) (simp add: bit_eq_iff bit_simps)

lemma unat_param_units: "unat (drop_bit 35 (w :: u64)) < 2 ^ 29"
proof -
  have "unat w < 2 ^ 64" using unsigned_less [of w] by simp
  then show ?thesis
    by (simp add: unat_drop_bit_eq drop_bit_eq_div unat_div_distrib div_less_iff_less_mult)
qed

lemma unat_next_param_byte_offset:
  "unat (get_next_param_byte_offset w) = 8 * unat (drop_bit 35 w)"
  using unat_param_units [of w]
  by (simp add: get_next_param_byte_offset_def push_bit_eq_mult unat_word_ariths)

end
