(* ===== verification/Dfl_Stack.thy ===== *)
theory Dfl_Stack
  imports Dfl_Read
begin

text \<open>
  The parent stack of the DFL walker, \<open>dfh_parent_stack_*\<close> of
  \<open>common/src/intel_fpga_api_cmn_dfl.c\<close>: a growable array of C \<open>int\<close>s with an index of the top
  entry.  Slot 0 is never used, since the static object starts with \<open>top = 0\<close>.

  The contract the walker relies on is the locale \<open>bounded_stack\<close>: an abstract list, a number of
  free places, and push, peek and pop on it.  The provider is the C stack, whose free places end
  one short of the allocated array: the growth test compares the top index with the size, so the
  push that would have to grow the array writes behind it instead.
\<close>

section \<open>Operations\<close>

definition DFH_PARENT_STACK_INCR_SIZE :: int where "DFH_PARENT_STACK_INCR_SIZE = 8"

definition set_stack :: "(DFH_PARENT_STACK \<Rightarrow> DFH_PARENT_STACK) \<Rightarrow> ('e, unit) cmn" where
  "set_stack f = modify (\<lambda>s. s\<lparr>dfh_parent_stack := f (dfh_parent_stack s)\<rparr>)"

text \<open>\<open>memset\<close> of the elements from \<open>i\<close> on, \<open>n\<close> of them, to zero.\<close>

definition zero_ints :: "nat \<Rightarrow> nat \<Rightarrow> ('e, unit) cmn" where
  "zero_ints i n =
     bnd (gets dfh_parent_stack) (\<lambda>st.
     bnd (deref (stack_head st)) (\<lambda>xs.
     thn (require Out_of_bounds (i + n \<le> length xs))
         (set_stack (\<lambda>st. st\<lparr>stack_head := Some (take i xs @ replicate n 0 @ drop (i + n) xs)\<rparr>))))"

definition dfh_parent_stack_resize :: "nat \<Rightarrow> ('e, unit) cmn" where
  "dfh_parent_stack_resize n =
     bnd (gets dfh_parent_stack) (\<lambda>st.
     if n > size_t_of_int (stack_size st) then
       bnd (gets (\<lambda>s. env_junk_int (env s))) (\<lambda>junk.
       bnd (realloc (stack_head st) n sizeof_int junk) (\<lambda>q.
       thn (set_stack (\<lambda>st. st\<lparr>stack_head := q\<rparr>))
           (if q = None then
              fpga_throw_runtime_exception ''dfh_parent_stack_resize''
                ''insufficient memory for %d DFH Parent Stack.'' [Arg_size n]
            else
              thn (zero_ints (size_t_of_int (stack_size st)) (n - size_t_of_int (stack_size st)))
                  (set_stack (\<lambda>st. st\<lparr>stack_size := int n\<rparr>)))))
     else if n = 0 then
       thn (if stack_head st \<noteq> None then free (stack_head st) else ret ())
           (set_stack (\<lambda>st. st\<lparr>stack_head := None, stack_size := 0\<rparr>))
     else if n < size_t_of_int (stack_size st) then
       fpga_throw_runtime_exception ''dfh_parent_stack_resize''
         ''Truncating parameter DFH Parent Stack size is not allowed'' []
     else ret ())"

definition dfh_parent_stack_isempty :: "('e, int) cmn" where
  "dfh_parent_stack_isempty =
     bnd (gets dfh_parent_stack) (\<lambda>st. if stack_top st = -1 then ret 1 else ret 0)"

definition dfh_parent_stack_peek :: "('e, int) cmn" where
  "dfh_parent_stack_peek =
     bnd (gets dfh_parent_stack) (\<lambda>st.
     bnd (deref (stack_head st)) (\<lambda>xs.
     thn (require Out_of_bounds (0 \<le> stack_top st \<and> nat (stack_top st) < length xs))
         (ret (xs ! nat (stack_top st)))))"

definition dfh_parent_stack_pop :: "('e, unit) cmn" where
  "dfh_parent_stack_pop =
     bnd dfh_parent_stack_isempty (\<lambda>e.
     if e = 0 then set_stack (\<lambda>st. st\<lparr>stack_top := stack_top st - 1\<rparr>)
     else fpga_throw_runtime_exception ''dfh_parent_stack_pop''
            ''Could not retrieve data from DFH Parent Stack, Stack is empty'' [])"

definition dfh_parent_stack_push :: "int \<Rightarrow> ('e, unit) cmn" where
  "dfh_parent_stack_push d =
     bnd (gets dfh_parent_stack) (\<lambda>st.
     thn (if stack_top st = stack_size st
          then dfh_parent_stack_resize (size_t_of_int (stack_size st + DFH_PARENT_STACK_INCR_SIZE))
          else ret ())
    (thn (set_stack (\<lambda>st. st\<lparr>stack_top := stack_top st + 1\<rparr>))
    (bnd (gets dfh_parent_stack) (\<lambda>st.
     bnd (deref (stack_head st)) (\<lambda>xs.
     thn (require Out_of_bounds (0 \<le> stack_top st \<and> nat (stack_top st) < length xs))
         (set_stack (\<lambda>st. st\<lparr>stack_head := Some (xs[nat (stack_top st) := d])\<rparr>)))))))"

section \<open>Invariant and abstraction\<close>

text \<open>Between scans the stack is released: no array, \<open>top = 0\<close>, \<open>size = 0\<close>.\<close>

definition stack_released :: "DFH_PARENT_STACK \<Rightarrow> bool" where
  "stack_released st \<longleftrightarrow> st = zero_stack"

definition stack_inv :: "DFH_PARENT_STACK \<Rightarrow> bool" where
  "stack_inv st \<longleftrightarrow>
     (case stack_head st of
        None \<Rightarrow> False
      | Some xs \<Rightarrow> int (length xs) = stack_size st \<and> 0 \<le> stack_top st
          \<and> stack_top st < stack_size st)"

text \<open>The entries, top first; slot 0 is not an entry.\<close>

definition stack_list :: "DFH_PARENT_STACK \<Rightarrow> int list" where
  "stack_list st =
     (case stack_head st of
        None \<Rightarrow> []
      | Some xs \<Rightarrow> rev (take (nat (stack_top st)) (drop 1 xs)))"

definition stack_room :: "DFH_PARENT_STACK \<Rightarrow> nat" where
  "stack_room st = nat (stack_size st - 1 - stack_top st)"

section \<open>Rules\<close>

lemma wp_set_stack [wp_rules]:
  "wp (set_stack f) Q s = Q () (s\<lparr>dfh_parent_stack := f (dfh_parent_stack s)\<rparr>)"
  by (simp add: set_stack_def wp_rules)

lemma run_set_stack [run_rules]:
  "set_stack f s = Ret () (s\<lparr>dfh_parent_stack := f (dfh_parent_stack s)\<rparr>)"
  by (simp add: set_stack_def run_rules)

lemma wp_zero_ints [wp_rules]:
  "wp (zero_ints i n) Q s =
     (\<exists>xs. stack_head (dfh_parent_stack s) = Some xs \<and> i + n \<le> length xs
       \<and> Q () (s\<lparr>dfh_parent_stack := (dfh_parent_stack s)
             \<lparr>stack_head := Some (take i xs @ replicate n 0 @ drop (i + n) xs)\<rparr>\<rparr>))"
  by (auto simp: zero_ints_def wp_rules)

text \<open>A push with room left stores the value and touches nothing else.\<close>

definition pushed :: "int \<Rightarrow> DFH_PARENT_STACK \<Rightarrow> DFH_PARENT_STACK" where
  "pushed d st =
     st\<lparr>stack_top := stack_top st + 1,
        stack_head := map_option (\<lambda>xs. xs[nat (stack_top st + 1) := d]) (stack_head st)\<rparr>"

lemma run_push:
  assumes "stack_inv (dfh_parent_stack s)" and "0 < stack_room (dfh_parent_stack s)"
  shows "dfh_parent_stack_push d s =
     Ret () (s\<lparr>dfh_parent_stack := pushed d (dfh_parent_stack s)\<rparr>)"
  using assms
  by (auto simp: dfh_parent_stack_push_def run_rules stack_inv_def stack_room_def pushed_def
      split: option.splits)

lemma pushed_inv:
  assumes "stack_inv st" and "0 < stack_room st"
  shows "stack_inv (pushed d st)" and "stack_list (pushed d st) = d # stack_list st"
    and "stack_room (pushed d st) = stack_room st - 1"
    and "stack_size (pushed d st) = stack_size st"
proof -
  from assms obtain xs where xs: "stack_head st = Some xs" "int (length xs) = stack_size st"
    and t: "0 \<le> stack_top st" "stack_top st + 1 < stack_size st"
    by (auto simp: stack_inv_def stack_room_def split: option.splits)
  define k where "k = nat (stack_top st)"
  have k: "stack_top st = int k" "Suc k < length xs" using xs t by (auto simp: k_def)
  show "stack_inv (pushed d st)"
    using xs t by (simp add: stack_inv_def pushed_def)
  have "take (Suc k) (drop 1 (xs[Suc k := d])) = take k (drop 1 xs) @ [d]"
    using k(2) by (simp add: drop_update_swap take_Suc_update)
  moreover have "nat (int k + 1) = Suc k" by simp
  ultimately show "stack_list (pushed d st) = d # stack_list st"
    using xs k(1) by (simp add: stack_list_def pushed_def)
  show "stack_room (pushed d st) = stack_room st - 1"
    and "stack_size (pushed d st) = stack_size st"
    by (simp_all add: stack_room_def pushed_def)
qed

text \<open>A push on a released stack allocates the first eight slots.\<close>

definition first_stack :: "int \<Rightarrow> DFH_PARENT_STACK" where
  "first_stack d =
     \<lparr>stack_head = Some [0, d, 0, 0, 0, 0, 0, 0], stack_top = 1, stack_size = 8\<rparr>"

lemma wp_push_first:
  assumes "dfh_parent_stack s = zero_stack"
    and "env_alloc_ok (env s) (alloc_no s) 32"
  shows "wp (dfh_parent_stack_push d) Q s =
     Q () (s\<lparr>alloc_no := Suc (alloc_no s), live := live s + 1, dfh_parent_stack := first_stack d\<rparr>)"
  using assms
  by (simp add: dfh_parent_stack_push_def dfh_parent_stack_resize_def wp_rules zero_stack_def
      DFH_PARENT_STACK_INCR_SIZE_def sizeof_int_def first_stack_def numeral_eq_Suc)

lemma first_stack_inv [simp]:
  "stack_inv (first_stack d)" "stack_list (first_stack d) = [d]" "stack_room (first_stack d) = 6"
  "stack_size (first_stack d) = 8"
  by (simp_all add: first_stack_def stack_inv_def stack_list_def stack_room_def)

text \<open>A push when the array is exactly full: the write goes one element behind the array.\<close>

lemma run_push_overflow:
  assumes "stack_inv (dfh_parent_stack s)" and "stack_room (dfh_parent_stack s) = 0"
  shows "dfh_parent_stack_push d s =
     Stop (Undefined_behaviour Out_of_bounds)
       (s\<lparr>dfh_parent_stack := (dfh_parent_stack s)
            \<lparr>stack_top := stack_top (dfh_parent_stack s) + 1\<rparr>\<rparr>)"
  using assms
  by (auto simp: dfh_parent_stack_push_def run_rules stack_inv_def stack_room_def
      split: option.splits)

lemma run_pop:
  assumes "stack_inv (dfh_parent_stack s)"
  shows "dfh_parent_stack_pop s =
     Ret () (s\<lparr>dfh_parent_stack := (dfh_parent_stack s)
            \<lparr>stack_top := stack_top (dfh_parent_stack s) - 1\<rparr>\<rparr>)"
  using assms
  by (auto simp: dfh_parent_stack_pop_def dfh_parent_stack_isempty_def run_rules stack_inv_def
      split: option.splits)

definition popped :: "DFH_PARENT_STACK \<Rightarrow> DFH_PARENT_STACK" where
  "popped st = st\<lparr>stack_top := stack_top st - 1\<rparr>"

lemma popped_inv:
  assumes "stack_inv st" and "stack_list st = x # xs"
  shows "stack_inv (popped st)" and "stack_list (popped st) = xs"
    and "stack_room (popped st) = Suc (stack_room st)"
    and "stack_size (popped st) = stack_size st"
proof -
  from assms obtain ys where ys: "stack_head st = Some ys" "int (length ys) = stack_size st"
    and t': "0 \<le> stack_top st" "stack_top st < stack_size st"
    by (auto simp: stack_inv_def split: option.splits)
  have "nat (stack_top st) \<noteq> 0" using assms(2) ys(1) by (auto simp: stack_list_def)
  with t' have t: "0 < stack_top st" "stack_top st < stack_size st" by simp_all
  define k where "k = nat (stack_top st) - 1"
  have k: "nat (stack_top st) = Suc k" "nat (stack_top st - 1) = k" "Suc k < length ys"
    using ys t by (auto simp: k_def)
  show "stack_inv (popped st)" using ys t by (simp add: stack_inv_def popped_def)
  have "take (Suc k) (drop 1 ys) = take k (drop 1 ys) @ [drop 1 ys ! k]"
    using k(3) by (simp add: take_Suc_conv_app_nth)
  with assms(2) ys k have "take k (drop 1 ys) = rev xs" by (simp add: stack_list_def)
  with ys k show "stack_list (popped st) = xs" by (simp add: stack_list_def popped_def)
  show "stack_room (popped st) = Suc (stack_room st)" and "stack_size (popped st) = stack_size st"
    using t by (simp_all add: stack_room_def popped_def)
qed

lemma run_peek:
  assumes "stack_inv (dfh_parent_stack s)" and "stack_list (dfh_parent_stack s) = x # xs"
  shows "dfh_parent_stack_peek s = Ret x s"
proof -
  define st where "st = dfh_parent_stack s"
  from assms obtain ys where ys: "stack_head st = Some ys" "int (length ys) = stack_size st"
    and t: "0 \<le> stack_top st" "stack_top st < stack_size st"
    by (auto simp: stack_inv_def st_def split: option.splits)
  have "rev (take (nat (stack_top st)) (drop 1 ys)) = x # xs"
    using assms(2) ys(1) by (simp add: stack_list_def st_def)
  then have r: "take (nat (stack_top st)) (drop 1 ys) = rev xs @ [x]"
    by (metis rev.simps(2) rev_rev_ident)
  then have "length (take (nat (stack_top st)) (drop 1 ys)) = Suc (length xs)" by simp
  then have len: "nat (stack_top st) = Suc (length xs)" using ys t by simp
  have "ys ! nat (stack_top st) = take (nat (stack_top st)) (drop 1 ys) ! length xs"
    using len ys t by simp
  also have "\<dots> = x" unfolding r by (simp add: nth_append)
  finally have "ys ! nat (stack_top st) = x" .
  with ys t show ?thesis
    by (simp add: dfh_parent_stack_peek_def run_rules st_def)
qed

section \<open>The contract\<close>

text \<open>
  A stack with a bounded number of places inside a bigger state.  The client's facts are about
  nested use: whatever a piece of code does between its push and its pop, if it leaves the stack
  as it found it then so does the whole, and it sees the pushed value on top.
\<close>

locale bounded_stack =
  fixes push :: "int \<Rightarrow> (unit, 's) prog"
    and pop :: "(unit, 's) prog"
    and peek :: "(int, 's) prog"
    and ok :: "'s \<Rightarrow> bool"
    and entries :: "'s \<Rightarrow> int list"
    and room :: "'s \<Rightarrow> nat"
  assumes push_law: "ok s \<Longrightarrow> 0 < room s \<Longrightarrow>
      wp (push d) (\<lambda>_ t. ok t \<and> entries t = d # entries s \<and> room t = room s - 1) s"
    and pop_law: "ok s \<Longrightarrow> entries s = x # xs \<Longrightarrow>
      wp pop (\<lambda>_ t. ok t \<and> entries t = xs \<and> room t = Suc (room s)) s"
    and peek_law: "ok s \<Longrightarrow> entries s = x # xs \<Longrightarrow> peek s = Ret x s"
begin

lemma peek_after_push:
  assumes "ok s" and "0 < room s"
  shows "wp (thn (push d) peek) (\<lambda>x t. x = d \<and> entries t = d # entries s) s"
  using push_law [OF assms, of d]
  by (auto simp: run_thn wp_def dest: peek_law split: outcome.splits)

lemma bracket:
  assumes "ok s" and "0 < room s"
    and body: "\<And>t. ok t \<Longrightarrow> entries t = d # entries s \<Longrightarrow> room t = room s - 1 \<Longrightarrow>
       wp m (\<lambda>_ u. ok u \<and> entries u = entries t \<and> room u = room t) t"
  shows "wp (thn (push d) (thn m pop))
           (\<lambda>_ u. ok u \<and> entries u = entries s \<and> room u = room s) s"
proof -
  have "wp (thn m pop) (\<lambda>_ u. ok u \<and> entries u = entries s \<and> room u = room s) t"
    if "ok t \<and> entries t = d # entries s \<and> room t = room s - 1" for t
    unfolding wp_thn
  proof (rule wp_mono [OF body])
    fix x u assume u: "ok u \<and> entries u = entries t \<and> room u = room t"
    with that have "entries u = d # entries s" and "ok u" by simp_all
    from wp_mono [OF pop_law [OF this(2,1)]] u that assms(2)
    show "wp pop (\<lambda>_ u. ok u \<and> entries u = entries s \<and> room u = room s) u" by simp
  qed (use that in simp_all)
  with push_law [OF assms(1,2), of d] show ?thesis
    unfolding wp_thn by (blast intro: wp_mono)
qed

end

interpretation parent_stack: bounded_stack
  dfh_parent_stack_push dfh_parent_stack_pop dfh_parent_stack_peek
  "\<lambda>s. stack_inv (dfh_parent_stack s)" "\<lambda>s. stack_list (dfh_parent_stack s)"
  "\<lambda>s. stack_room (dfh_parent_stack s)"
proof unfold_locales
  fix s :: "'a cmn_state_scheme" and d
  assume "stack_inv (dfh_parent_stack s)" and "0 < stack_room (dfh_parent_stack s)"
  then show "wp (dfh_parent_stack_push d) (\<lambda>_ t. stack_inv (dfh_parent_stack t)
      \<and> stack_list (dfh_parent_stack t) = d # stack_list (dfh_parent_stack s)
      \<and> stack_room (dfh_parent_stack t) = stack_room (dfh_parent_stack s) - 1) s"
    by (simp add: wp_Ret [OF run_push] pushed_inv)
next
  fix s :: "'a cmn_state_scheme" and x xs
  assume "stack_inv (dfh_parent_stack s)" and "stack_list (dfh_parent_stack s) = x # xs"
  then show "wp dfh_parent_stack_pop (\<lambda>_ t. stack_inv (dfh_parent_stack t)
      \<and> stack_list (dfh_parent_stack t) = xs
      \<and> stack_room (dfh_parent_stack t) = Suc (stack_room (dfh_parent_stack s))) s"
    using popped_inv [of "dfh_parent_stack s" x xs]
    by (simp add: wp_Ret [OF run_pop] popped_def)
qed (rule run_peek)

end
