(* ===== verification/Dfl_Params.thy ===== *)
theory Dfl_Params
  imports Dfl_Stack
begin

text \<open>
  Collecting what one Device Feature Header says about its interface, the functions
  \<open>param_block_init\<close> to \<open>set_interface_properties\<close> of
  \<open>common/src/intel_fpga_api_cmn_dfl.c\<close>: the parameter array of an interface is grown block by
  block while the parameter list is walked, and the data of every block is copied out of the DFL.
  The walk ends where the list does; a list that does not end uses up the fuel.
\<close>

section \<open>Operations\<close>

definition PARAM_HEADER_SIZE :: u64 where "PARAM_HEADER_SIZE = 8"

text \<open>\<open>common_fpga_interface_info_vec_at(index)->parameters[k]\<close>, read and written.\<close>

definition param_at :: "nat \<Rightarrow> nat \<Rightarrow> ('e, FPGA_INTERFACE_PARAMETER) cmn" where
  "param_at index k =
     bnd (common_fpga_interface_info_vec_at index) (\<lambda>info.
     bnd (deref (parameters info)) (\<lambda>ps.
     thn (require Out_of_bounds (k < length ps)) (ret (ps ! k))))"

definition param_upd ::
    "nat \<Rightarrow> nat \<Rightarrow> (FPGA_INTERFACE_PARAMETER \<Rightarrow> FPGA_INTERFACE_PARAMETER) \<Rightarrow> ('e, unit) cmn" where
  "param_upd index k f =
     bnd (common_fpga_interface_info_vec_at index) (\<lambda>info.
     bnd (deref (parameters info)) (\<lambda>ps.
     thn (require Out_of_bounds (k < length ps))
         (vec_upd index (\<lambda>x. x\<lparr>parameters := Some (ps[k := f (ps ! k)])\<rparr>))))"

definition param_block_init :: "nat \<Rightarrow> ('e, unit) cmn" where
  "param_block_init index =
     bnd (gets (\<lambda>s. env_junk_param (env s))) (\<lambda>junk.
     bnd (malloc sizeof_param [junk]) (\<lambda>q.
     thn (vec_upd index (\<lambda>x. x\<lparr>parameters := q\<rparr>))
    (thn (bnd (common_fpga_interface_info_vec_at index) (\<lambda>info.
            if parameters info = None then
              fpga_throw_runtime_exception ''param_block_init''
                ''insufficient memory for first interfaces.'' []
            else ret ()))
         (vec_upd index (\<lambda>x. x\<lparr>num_of_parameters := 1\<rparr>)))))"

text \<open>\<open>memset\<close> of the parameters from \<open>i\<close> on, \<open>n\<close> of them, to zero.\<close>

definition zero_params :: "nat \<Rightarrow> nat \<Rightarrow> nat \<Rightarrow> ('e, unit) cmn" where
  "zero_params index i n =
     bnd (common_fpga_interface_info_vec_at index) (\<lambda>info.
     bnd (deref (parameters info)) (\<lambda>ps.
     thn (require Out_of_bounds (i + n \<le> length ps))
         (vec_upd index (\<lambda>x. x\<lparr>parameters :=
            Some (take i ps @ replicate n zero_param @ drop (i + n) ps)\<rparr>))))"

definition param_block_resize :: "nat \<Rightarrow> nat \<Rightarrow> ('e, unit) cmn" where
  "param_block_resize index n =
     bnd (common_fpga_interface_info_vec_at index) (\<lambda>info.
     if n > num_of_parameters info then
       bnd (gets (\<lambda>s. env_junk_param (env s))) (\<lambda>junk.
       bnd (realloc (parameters info) n sizeof_param junk) (\<lambda>q.
       thn (vec_upd index (\<lambda>x. x\<lparr>parameters := q\<rparr>))
           (if q = None then
              fpga_throw_runtime_exception ''param_block_resize''
                ''insufficient memory for %d parameter blocks.'' [Arg_size n]
            else
              thn (zero_params index (num_of_parameters info) (n - num_of_parameters info))
                  (vec_upd index (\<lambda>x. x\<lparr>num_of_parameters := n\<rparr>)))))
     else if n = 0 then
       thn (if parameters info \<noteq> None then free (parameters info) else ret ())
           (vec_upd index (\<lambda>x. x\<lparr>parameters := None, num_of_parameters := 0\<rparr>))
     else if n < num_of_parameters info then
       fpga_throw_runtime_exception ''param_block_resize''
         ''truncating parameter block size is not allowed'' []
     else ret ())"

definition param_data_allocate :: "nat \<Rightarrow> nat \<Rightarrow> u64 \<Rightarrow> ('e, unit) cmn" where
  "param_data_allocate index param_block_index sz =
     thn (if sz mod 8 \<noteq> 0 then
            fpga_throw_runtime_exception ''param_data_allocate''
              ''DFH parameter data size, %d, is not multiple of 8.'' [Arg_word sz]
          else ret ())
    (bnd (gets (\<lambda>s. env_junk_word (env s))) (\<lambda>junk.
     bnd (malloc (unat sz) (replicate (unat sz div 8) junk)) (\<lambda>q.
     thn (param_upd index param_block_index (\<lambda>p. p\<lparr>data := q\<rparr>))
    (thn (bnd (param_at index param_block_index) (\<lambda>p.
            if data p = None then
              fpga_throw_runtime_exception ''param_data_allocate''
                ''Out of memory for parameter data.'' []
            else ret ()))
         (param_upd index param_block_index (\<lambda>p. p\<lparr>data_size := sz\<rparr>))))))"

text \<open>The copy loop; the first argument is the number of iterations left.\<close>

fun param_data_copy_loop :: "nat \<Rightarrow> nat \<Rightarrow> nat \<Rightarrow> nat \<Rightarrow> u64 \<Rightarrow> ('e, unit) cmn" where
  "param_data_copy_loop 0 index param_block_index i param_data_addr = ret ()"
| "param_data_copy_loop (Suc k) index param_block_index i param_data_addr =
     bnd (common_dfl_read_64 param_data_addr 0) (\<lambda>d.
     thn (bnd (param_at index param_block_index) (\<lambda>p.
          bnd (deref (data p)) (\<lambda>ws.
          thn (require Out_of_bounds (i < length ws))
              (param_upd index param_block_index (\<lambda>p. p\<lparr>data := Some (ws[i := d])\<rparr>)))))
         (param_data_copy_loop k index param_block_index (Suc i) (param_data_addr + 8)))"

definition param_data_copy :: "nat \<Rightarrow> nat \<Rightarrow> u64 \<Rightarrow> ('e, unit) cmn" where
  "param_data_copy index param_block_index param_data_addr =
     bnd (param_at index param_block_index) (\<lambda>p.
     param_data_copy_loop (unat (data_size p) div 8) index param_block_index 0 param_data_addr)"

text \<open>The loop of \<open>set_parameter_properties\<close>, from a block whose header has been read.\<close>

fun set_parameter_loop :: "nat \<Rightarrow> nat \<Rightarrow> nat \<Rightarrow> u64 \<Rightarrow> u64 \<Rightarrow> ('e, unit) cmn" where
  "set_parameter_loop 0 index k cur h = halt Out_of_fuel"
| "set_parameter_loop (Suc fuel) index k cur h =
     (if \<not> is_last_param_block h \<or> get_next_param_byte_offset h > 0 then
        thn (if k = 0 then param_block_init index else ret ())
       (thn (param_upd index k (\<lambda>p. p\<lparr>version := get_param_block_version h\<rparr>))
       (thn (param_upd index k (\<lambda>p. p\<lparr>param_id := get_param_block_param_id h\<rparr>))
       (thn (param_data_allocate index k
               (if is_last_param_block h then get_next_param_byte_offset h
                else get_next_param_byte_offset h - PARAM_HEADER_SIZE))
       (thn (param_data_copy index k (cur + PARAM_HEADER_SIZE))
            (if \<not> is_last_param_block h then
               bnd (common_dfl_read_64 (cur + get_next_param_byte_offset h) 0) (\<lambda>h'.
               thn (param_block_resize index (Suc k + 1))
                   (set_parameter_loop fuel index (Suc k) (cur + get_next_param_byte_offset h) h'))
             else ret ())))))
      else ret ())"

definition set_parameter_properties :: "nat \<Rightarrow> nat \<Rightarrow> u64 \<Rightarrow> ('e, unit) cmn" where
  "set_parameter_properties fuel index dfh_addr =
     bnd (get_x_feature_csr_group_size_64_data dfh_addr) (\<lambda>csr_size_group_64_data.
     if has_params csr_size_group_64_data then
       bnd (common_dfl_read_64 (get_first_param_header_addr dfh_addr) 0) (\<lambda>h.
       set_parameter_loop fuel index 0 (get_first_param_header_addr dfh_addr) h)
     else ret ())"

definition set_interface_properties :: "nat \<Rightarrow> nat \<Rightarrow> u64 \<Rightarrow> ('e, unit) cmn" where
  "set_interface_properties fuel index dfh_addr =
     bnd (get_base_address dfh_addr) (\<lambda>b.
     thn (vec_upd index (\<lambda>x. x\<lparr>base_address := b\<rparr>))
    (thn (vec_upd index (\<lambda>x. x\<lparr>dfl := True\<rparr>))
    (bnd (get_x_feature_guid_128 dfh_addr) (\<lambda>g.
     thn (vec_upd index (\<lambda>x. x\<lparr>guid := g\<rparr>))
    (bnd (get_instance_id dfh_addr) (\<lambda>i.
     thn (vec_upd index (\<lambda>x. x\<lparr>instance_id := i\<rparr>))
    (bnd (get_group_id dfh_addr) (\<lambda>g.
     thn (vec_upd index (\<lambda>x. x\<lparr>group_id := g\<rparr>))
    (bnd dfh_parent_stack_peek (\<lambda>p.
     thn (vec_upd index (\<lambda>x. x\<lparr>dfh_parent := p\<rparr>))
    (thn (vec_upd index (\<lambda>x. x\<lparr>is_mmio_opened := False\<rparr>))
    (thn (vec_upd index (\<lambda>x. x\<lparr>is_interrupt_opened := False\<rparr>))
         (set_parameter_properties fuel index dfh_addr)))))))))))))"

section \<open>Symbolic execution on one entry\<close>

text \<open>Everything above works on one entry of the vector.  \<open>put_info\<close> replaces it, \<open>charge\<close>
  accounts for allocations; the rules below run the operations to such a form.\<close>

definition has_info :: "'e cmn_state_scheme \<Rightarrow> nat \<Rightarrow> bool" where
  "has_info s i = (case vec s of None \<Rightarrow> False | Some xs \<Rightarrow> i < length xs)"

definition info_at :: "'e cmn_state_scheme \<Rightarrow> nat \<Rightarrow> FPGA_INTERFACE_INFO" where
  "info_at s i = the (vec s) ! i"

definition put_info :: "nat \<Rightarrow> FPGA_INTERFACE_INFO \<Rightarrow> 'e cmn_state_scheme \<Rightarrow> 'e cmn_state_scheme" where
  "put_info i x s =
     s\<lparr>g_common_fpga_interface_info_vec := map_option (\<lambda>xs. xs[i := x]) (vec s)\<rparr>"

definition charge :: "nat \<Rightarrow> int \<Rightarrow> 'e cmn_state_scheme \<Rightarrow> 'e cmn_state_scheme" where
  "charge a d s = s\<lparr>alloc_no := alloc_no s + a, live := live s + d\<rparr>"

lemma put_info_simps [simp]:
  "has_info (put_info i x s) j = has_info s j"
  "put_info i y (put_info i x s) = put_info i y s"
  "env (put_info i x s) = env s" "mem (put_info i x s) = mem s"
  "dfh_parent_stack (put_info i x s) = dfh_parent_stack s"
  "alloc_no (put_info i x s) = alloc_no s" "live (put_info i x s) = live s"
  "s_interface_index (put_info i x s) = s_interface_index s"
  "allocs_ok (put_info i x s) = allocs_ok s"
  by (auto simp: has_info_def put_info_def allocs_ok_def option.map_comp comp_def
      split: option.splits)

lemma dfl_view_put_info [simp]: "dfl_view (put_info i x s) = dfl_view s"
  by (rule dfl_view_cong) simp_all

lemma info_at_put_info [simp]: "has_info s i \<Longrightarrow> info_at (put_info i x s) i = x"
  by (auto simp: has_info_def put_info_def info_at_def split: option.splits)

lemma put_info_self [simp]: "put_info i (info_at s i) s = s"
  by (cases s; cases "vec s") (auto simp: put_info_def info_at_def)

lemma charge_simps [simp]:
  "has_info (charge a d s) j = has_info s j" "info_at (charge a d s) i = info_at s i"
  "charge a d (put_info i x s) = put_info i x (charge a d s)"
  "charge a d (charge b c s) = charge (a + b) (d + c) s"
  "charge 0 0 s = s"
  "env (charge a d s) = env s" "mem (charge a d s) = mem s" "vec (charge a d s) = vec s"
  "dfh_parent_stack (charge a d s) = dfh_parent_stack s"
  "s_interface_index (charge a d s) = s_interface_index s"
  "allocs_ok (charge a d s) = allocs_ok s"
  by (auto simp: has_info_def put_info_def info_at_def charge_def allocs_ok_def)

lemma dfl_view_charge [simp]: "dfl_view (charge a d s) = dfl_view s"
  by (rule dfl_view_cong) simp_all

lemma run_vec_at [run_rules]:
  "has_info s i \<Longrightarrow> common_fpga_interface_info_vec_at i s = Ret (info_at s i) s"
  by (auto simp: common_fpga_interface_info_vec_at_def run_rules has_info_def info_at_def
      split: option.splits)

lemma run_vec_upd [run_rules]:
  "has_info s i \<Longrightarrow> vec_upd i f s = Ret () (put_info i (f (info_at s i)) s)"
  by (auto simp: vec_upd_def run_rules has_info_def info_at_def put_info_def split: option.splits)

lemma run_param_at [run_rules]:
  "has_info s i \<Longrightarrow> parameters (info_at s i) = Some ps \<Longrightarrow> k < length ps \<Longrightarrow>
   param_at i k s = Ret (ps ! k) s"
  by (simp add: param_at_def run_rules)

lemma run_param_upd [run_rules]:
  "has_info s i \<Longrightarrow> parameters (info_at s i) = Some ps \<Longrightarrow> k < length ps \<Longrightarrow>
   param_upd i k f s =
     Ret () (put_info i ((info_at s i)\<lparr>parameters := Some (ps[k := f (ps ! k)])\<rparr>) s)"
  by (simp add: param_upd_def run_rules)

lemma run_malloc [run_rules]: "allocs_ok s \<Longrightarrow> malloc b c s = Ret (Some c) (charge 1 1 s)"
  by (simp add: malloc_def heap_request_def run_rules allocs_ok_def charge_def)

lemma run_realloc_Some [run_rules]:
  "allocs_ok s \<Longrightarrow>
   realloc (Some xs) n elem junk s =
     Ret (Some (take n xs @ replicate (n - length xs) junk)) (charge 1 0 s)"
  by (simp add: realloc_def heap_request_def run_rules allocs_ok_def charge_def)

section \<open>The copy loop\<close>

definition data_at :: "(u64 \<Rightarrow> u64 option) \<Rightarrow> u64 \<Rightarrow> u64 \<Rightarrow> u64 list \<Rightarrow> bool" where
  "data_at V a sz ws \<longleftrightarrow>
     length ws = unat sz div 8 \<and> (\<forall>j < length ws. V (a + 8 * of_nat j) = Some (ws ! j))"

lemma param_self: "data p = Some ws \<Longrightarrow> p\<lparr>data := Some ws\<rparr> = p"
  by (cases p) simp

lemma info_self: "parameters x = Some ps \<Longrightarrow> x\<lparr>parameters := Some ps\<rparr> = x"
  by (cases x) simp

lemma common_dfl_read_64_view_0:
  "dfl_view s a = Some w \<Longrightarrow> common_dfl_read_64 a 0 s = Ret w s"
  using common_dfl_read_64_view [of s a 0 w] by simp

lemma run_copy_loop:
  assumes "has_info s i" and "parameters (info_at s i) = Some ps" and "k < length ps"
    and "data (ps ! k) = Some ws" and "j + length cs = length ws"
    and "\<forall>m < length cs. dfl_view s (a + 8 * of_nat m) = Some (cs ! m)"
  shows "param_data_copy_loop (length cs) i k j a s =
     Ret () (put_info i ((info_at s i)\<lparr>parameters :=
        Some (ps[k := (ps ! k)\<lparr>data := Some (take j ws @ cs)\<rparr>])\<rparr>) s)"
  using assms
proof (induction cs arbitrary: s ps ws j a)
  case Nil
  then show ?case by (simp add: run_rules param_self info_self)
next
  case (Cons c cs)
  from Cons.prems(6) have c: "dfl_view s a = Some c" by force
  have rest: "\<forall>m < length cs. dfl_view s (a + 8 + 8 * of_nat m) = Some (cs ! m)"
  proof (intro allI impI)
    fix m assume "m < length cs"
    with Cons.prems(6) have "dfl_view s (a + 8 * of_nat (Suc m)) = Some (cs ! m)" by force
    then show "dfl_view s (a + 8 + 8 * of_nat m) = Some (cs ! m)"
      by (simp add: algebra_simps)
  qed
  have j: "j < length ws" using Cons.prems(5) by simp
  have "take (Suc j) (ws[j := c]) @ cs = take j ws @ c # cs"
    using j by (simp add: take_Suc_update)
  with Cons.prems j rest show ?case
    by (simp add: run_rules common_dfl_read_64_view_0 [OF c] Cons.IH)
qed

section \<open>One parameter block\<close>

text \<open>The parameter that a block with header \<open>h\<close> and data words \<open>ws\<close> describes.\<close>

definition param_of :: "u64 \<Rightarrow> u64 list \<Rightarrow> FPGA_INTERFACE_PARAMETER" where
  "param_of h ws =
     \<lparr>version = get_param_block_version h, param_id = get_param_block_param_id h,
      data_size = 8 * of_nat (length ws), data = Some ws\<rparr>"

text \<open>The size of the data of a block: the offset to the next block less the header, except that in
  the last block the offset is the size itself.\<close>

definition param_data_size :: "u64 \<Rightarrow> u64" where
  "param_data_size h =
     (if is_last_param_block h then get_next_param_byte_offset h
      else get_next_param_byte_offset h - PARAM_HEADER_SIZE)"

lemma param_data_size_units:
  assumes "is_last_param_block h \<or> 8 \<le> get_next_param_byte_offset h"
  obtains n where "param_data_size h = 8 * of_nat n" and "n < 2 ^ 29"
    and "unat (param_data_size h) = 8 * n"
proof -
  define u where "u = unat (drop_bit 35 h)"
  have u: "u < 2 ^ 29" unfolding u_def by (rule unat_param_units)
  have off: "get_next_param_byte_offset h = 8 * of_nat u"
    by (simp add: get_next_param_byte_offset_def push_bit_eq_mult u_def)
  have un: "unat (8 * of_nat n :: u64) = 8 * n" if "n < 2 ^ 29" for n
    using that by (simp add: unat_word_ariths unat_of_nat)
  show ?thesis
  proof (cases "is_last_param_block h")
    case True
    then show ?thesis using that [of u] u off un by (simp add: param_data_size_def)
  next
    case False
    with assms have "8 \<le> unat (8 * of_nat u :: u64)" by (simp add: off word_le_nat_alt)
    with un [OF u] have "1 \<le> u" by simp
    then have "(8 * of_nat u - 8 :: u64) = 8 * of_nat (u - 1)"
      by (simp add: of_nat_diff algebra_simps)
    with False u un [of "u - 1"] off show ?thesis
      using that [of "u - 1"] by (simp add: param_data_size_def PARAM_HEADER_SIZE_def)
  qed
qed

text \<open>Version, id, data block, size and data of block \<open>k\<close>, the last one of the array.\<close>

lemma run_one_block:
  assumes info: "has_info s i" "parameters (info_at s i) = Some (qs @ [z])" "k = length qs"
    and ok: "allocs_ok s"
    and h: "is_last_param_block h \<or> 8 \<le> get_next_param_byte_offset h"
    and ws: "data_at (dfl_view s) (cur + 8) (param_data_size h) ws"
  shows "thn (param_upd i k (\<lambda>p. p\<lparr>version := get_param_block_version h\<rparr>))
        (thn (param_upd i k (\<lambda>p. p\<lparr>param_id := get_param_block_param_id h\<rparr>))
        (thn (param_data_allocate i k (param_data_size h))
        (thn (param_data_copy i k (cur + PARAM_HEADER_SIZE)) m))) s =
     m (charge 1 1 (put_info i ((info_at s i)\<lparr>parameters := Some (qs @ [param_of h ws])\<rparr>) s))"
proof -
  from h obtain n where sz: "param_data_size h = 8 * of_nat n" "n < 2 ^ 29"
    "unat (param_data_size h) = 8 * n" by (rule param_data_size_units)
  have len: "length ws = n" using ws sz(3) by (simp add: data_at_def)
  have "unat (param_data_size h mod 8) = 0"
    using sz(3) by (simp add: unat_mod_distrib)
  then have al: "param_data_size h mod 8 = 0" by (simp add: unat_eq_0)
  define t where "t = put_info i ((info_at s i)\<lparr>parameters :=
      Some (qs @ [\<lparr>version = get_param_block_version h, param_id = get_param_block_param_id h,
        data_size = param_data_size h, data = Some (replicate n (env_junk_word (env s)))\<rparr>])\<rparr>)
      (charge 1 1 s)"
  have t: "has_info t i" "info_at t i = (info_at s i)\<lparr>parameters :=
      Some (qs @ [\<lparr>version = get_param_block_version h, param_id = get_param_block_param_id h,
        data_size = param_data_size h, data = Some (replicate n (env_junk_word (env s)))\<rparr>])\<rparr>"
    "dfl_view t = dfl_view s"
    using info by (simp_all add: t_def)
  have copy: "param_data_copy_loop (length ws) i k 0 (cur + 8) t =
      Ret () (put_info i ((info_at s i)\<lparr>parameters := Some (qs @ [param_of h ws])\<rparr>) t)"
    using run_copy_loop [where s = t and cs = ws and j = 0 and a = "cur + 8" and i = i and k = k
        and ws = "replicate n (env_junk_word (env s))"
        and ps = "qs @ [\<lparr>version = get_param_block_version h,
          param_id = get_param_block_param_id h, data_size = param_data_size h,
          data = Some (replicate n (env_junk_word (env s)))\<rparr>]"]
      ws t len info sz by (simp add: data_at_def param_of_def nth_append list_update_append)
  show ?thesis
    using info ok sz al copy len
    by (cases z) (simp add: run_rules param_data_allocate_def param_data_copy_def nth_append
        list_update_append PARAM_HEADER_SIZE_def t_def)
qed

section \<open>A whole parameter list\<close>

text \<open>A parameter list in the DFL: the blocks it describes, and whether a null block ends it (as
  opposed to the end-of-parameters bit of a block with data).\<close>

inductive plist_at ::
    "(u64 \<Rightarrow> u64 option) \<Rightarrow> u64 \<Rightarrow> FPGA_INTERFACE_PARAMETER list \<Rightarrow> bool \<Rightarrow> bool"
  for V :: "u64 \<Rightarrow> u64 option" where
  plist_null: "V p = Some h \<Longrightarrow> is_last_param_block h \<Longrightarrow> get_next_param_byte_offset h = 0 \<Longrightarrow>
    plist_at V p [] True"
| plist_last: "V p = Some h \<Longrightarrow> is_last_param_block h \<Longrightarrow> get_next_param_byte_offset h > 0 \<Longrightarrow>
    data_at V (p + 8) (param_data_size h) ws \<Longrightarrow> plist_at V p [param_of h ws] False"
| plist_more: "V p = Some h \<Longrightarrow> \<not> is_last_param_block h \<Longrightarrow> 8 \<le> get_next_param_byte_offset h \<Longrightarrow>
    data_at V (p + 8) (param_data_size h) ws \<Longrightarrow>
    plist_at V (p + get_next_param_byte_offset h) ps t \<Longrightarrow> plist_at V p (param_of h ws # ps) t"

text \<open>The array the library builds: a list that ends in a null block has a zero element more.\<close>

definition param_array :: "FPGA_INTERFACE_PARAMETER list \<Rightarrow> bool \<Rightarrow> FPGA_INTERFACE_PARAMETER list" where
  "param_array ps t = ps @ (if t then [zero_param] else [])"

definition with_params ::
    "FPGA_INTERFACE_PARAMETER list \<Rightarrow> FPGA_INTERFACE_INFO \<Rightarrow> FPGA_INTERFACE_INFO" where
  "with_params xs x = x\<lparr>parameters := Some xs, num_of_parameters := length xs\<rparr>"

lemma with_params_simps [simp]:
  "parameters (with_params xs x) = Some xs" "num_of_parameters (with_params xs x) = length xs"
  "with_params ys (with_params xs x) = with_params ys x"
  "dfh_parent (with_params xs x) = dfh_parent x" "base_address (with_params xs x) = base_address x"
  by (simp_all add: with_params_def)

lemma with_params_fold:
  "length xs = length ys \<Longrightarrow> with_params xs x\<lparr>parameters := Some ys\<rparr> = with_params ys x"
  "n = length ys \<Longrightarrow>
   with_params xs x\<lparr>parameters := Some ys, num_of_parameters := n\<rparr> = with_params ys x"
  by (simp_all add: with_params_def)

text \<open>From one block to the next, or out of the loop.\<close>

lemma run_block_and_rest:
  assumes s: "has_info s i" "info_at s i = with_params (qs @ [z]) x" "k = length qs" "allocs_ok s"
    and V: "V = dfl_view s" and h: "is_last_param_block h \<or> 8 \<le> get_next_param_byte_offset h"
    and ws: "data_at V (cur + 8) (param_data_size h) ws"
    and more: "\<not> is_last_param_block h \<Longrightarrow> V (cur + get_next_param_byte_offset h) = Some h'"
  shows "thn (param_upd i k (\<lambda>p. p\<lparr>version := get_param_block_version h\<rparr>))
        (thn (param_upd i k (\<lambda>p. p\<lparr>param_id := get_param_block_param_id h\<rparr>))
        (thn (param_data_allocate i k (param_data_size h))
        (thn (param_data_copy i k (cur + PARAM_HEADER_SIZE))
             (if \<not> is_last_param_block h then
               bnd (common_dfl_read_64 (cur + get_next_param_byte_offset h) 0) (\<lambda>h'.
               thn (param_block_resize i (Suc k + 1))
                   (set_parameter_loop fuel i (Suc k) (cur + get_next_param_byte_offset h) h'))
             else ret ())))) s =
     (if is_last_param_block h then
        Ret () (charge 1 1 (put_info i (with_params (qs @ [param_of h ws]) x) s))
      else set_parameter_loop fuel i (Suc k) (cur + get_next_param_byte_offset h) h'
        (charge 2 1 (put_info i (with_params (qs @ [param_of h ws, zero_param]) x) s)))"
proof -
  have ps: "parameters (info_at s i) = Some (qs @ [z])" by (simp add: s(2))
  have rd: "common_dfl_read_64 (cur + get_next_param_byte_offset h) 0 t = Ret h' t"
    if "\<not> is_last_param_block h" "dfl_view t = V" for t :: "'a cmn_state_scheme"
    using more [OF that(1)] that(2) by (simp add: common_dfl_read_64_view_0)
  note one = run_one_block [OF s(1) ps s(3,4) h ws [unfolded V]]
  show ?thesis
    unfolding one
    using s rd V
    by (simp add: run_rules param_block_resize_def zero_params_def with_params_fold
        numeral_2_eq_2)
qed

lemma with_params_nil: "info_ok x \<Longrightarrow> parameters x = None \<Longrightarrow>
  x\<lparr>parameters := Some [z], num_of_parameters := Suc 0\<rparr> = with_params [z] x"
  by (simp add: with_params_def)

lemma loop_step:
  assumes s: "has_info s i" "allocs_ok s" "k = length qs"
    and k: "if k = 0 then parameters (info_at s i) = None \<and> info_at s i = x
            else info_at s i = with_params (qs @ [z]) x"
    and V: "V = dfl_view s"
    and h: "is_last_param_block h \<and> get_next_param_byte_offset h > 0
            \<or> \<not> is_last_param_block h \<and> 8 \<le> get_next_param_byte_offset h"
    and ws: "data_at V (cur + 8) (param_data_size h) ws"
    and more: "is_last_param_block h \<or> V (cur + get_next_param_byte_offset h) = Some h'"
  shows "set_parameter_loop (Suc fuel) i k cur h s =
     (if is_last_param_block h then
        Ret () (charge (if k = 0 then 2 else 1) (if k = 0 then 2 else 1)
          (put_info i (with_params (qs @ [param_of h ws]) x) s))
      else set_parameter_loop fuel i (Suc k) (cur + get_next_param_byte_offset h) h'
        (charge (if k = 0 then 3 else 2) (if k = 0 then 2 else 1)
          (put_info i (with_params (qs @ [param_of h ws, zero_param]) x) s)))"
proof -
  have h1: "is_last_param_block h \<or> 8 \<le> get_next_param_byte_offset h" using h by blast
  have loop: "\<not> is_last_param_block h \<or> get_next_param_byte_offset h > 0" using h by blast
  define s1 where "s1 = (if k = 0 then charge 1 1 (put_info i
      (with_params [env_junk_param (env s)] x) s) else s)"
  have init: "(if k = 0 then param_block_init i else ret ()) s = Ret () s1"
    using s k by (simp add: s1_def param_block_init_def run_rules with_params_def)
  have s1: "has_info s1 i" "allocs_ok s1" "V = dfl_view s1"
    using s V by (simp_all add: s1_def)
  have z1: "info_at s1 i = with_params (qs @ [if k = 0 then env_junk_param (env s) else z]) x"
    using s k by (auto simp: s1_def)
  have more': "\<not> is_last_param_block h \<Longrightarrow> V (cur + get_next_param_byte_offset h) = Some h'"
    using more by blast
  note rest = run_block_and_rest [OF s1(1) z1 s(3) s1(2,3) h1 ws more', where fuel = fuel]
  show ?thesis
    unfolding set_parameter_loop.simps param_data_size_def [symmetric] if_P [OF loop]
      run_thn [of "if k = 0 then param_block_init i else ret ()"] init outcome.case
    by (subst rest) (use more' in \<open>simp_all add: s1_def numeral_2_eq_2 numeral_3_eq_3\<close>)
qed

text \<open>Allocations of a list: the array, the data of every block, and a longer array for every block
  that has a successor.\<close>

definition plist_allocs :: "FPGA_INTERFACE_PARAMETER list \<Rightarrow> bool \<Rightarrow> nat" where
  "plist_allocs ps t = (if t then 2 * length ps else 2 * length ps - 1)"

inductive_simps plist_at_Nil: "plist_at V p [] t"
inductive_cases plist_at_ConsE: "plist_at V p (x # ps) t"

lemma plist_at_header: "plist_at V p ps t \<Longrightarrow> \<exists>h. V p = Some h"
  by (auto elim: plist_at.cases)

text \<open>The loop from its second block on.\<close>

lemma run_loop_tail:
  assumes "plist_at V p ps t" and "V p = Some h" and "V = dfl_view s"
    and "has_info s i" and "info_at s i = with_params (qs @ [zero_param]) x"
    and "k = length qs" and "0 < k" and "allocs_ok s" and "length ps < fuel"
  shows "set_parameter_loop fuel i k p h s =
     Ret () (charge (plist_allocs ps t) (int (length ps))
               (put_info i (with_params (qs @ param_array ps t) x) s))"
  using assms
proof (induction arbitrary: s h qs k fuel rule: plist_at.induct)
  case (plist_null p h')
  then have self: "put_info i (with_params (qs @ [zero_param]) x) s = s"
    by (metis put_info_self)
  from plist_null show ?case
    by (cases fuel) (simp_all add: run_rules param_array_def plist_allocs_def self)
next
  case (plist_last p h' ws)
  then obtain f where f: "fuel = Suc f" by (cases fuel) auto
  from plist_last have "h' = h" by simp
  with plist_last.prems plist_last.hyps f show ?case
    by (simp add: loop_step [where V = V and ws = ws and qs = qs and x = x and z = zero_param
          and h' = h]
        param_array_def plist_allocs_def del: set_parameter_loop.simps)
next
  case (plist_more p h' ws ps t)
  then obtain f where f: "fuel = Suc f" by (cases fuel) auto
  from plist_more have h: "h' = h" by simp
  from plist_at_header [OF plist_more.hyps(5)] obtain h2
    where h2: "V (p + get_next_param_byte_offset h) = Some h2" by (auto simp: h)
  define s2 where "s2 = charge 2 1 (put_info i (with_params (qs @ [param_of h ws, zero_param]) x) s)"
  have step: "set_parameter_loop fuel i k p h s =
      set_parameter_loop f i (Suc k) (p + get_next_param_byte_offset h) h2 s2"
    using plist_more.prems plist_more.hyps h2
    by (simp add: loop_step [where V = V and ws = ws and qs = qs and x = x and z = zero_param
          and h' = h2] f h s2_def del: set_parameter_loop.simps)
  have "set_parameter_loop f i (Suc k) (p + get_next_param_byte_offset h) h2 s2 =
      Ret () (charge (plist_allocs ps t) (int (length ps))
        (put_info i (with_params ((qs @ [param_of h ws]) @ param_array ps t) x) s2))"
    by (rule plist_more.IH [unfolded h]) (use plist_more.prems h h2 f in \<open>simp_all add: s2_def\<close>)
  moreover have "plist_allocs ps t + 2 = plist_allocs (param_of h ws # ps) t"
    using plist_more.hyps(5) by (cases ps) (auto simp: plist_allocs_def plist_at_Nil)
  ultimately show ?case
    by (simp add: step s2_def h param_array_def algebra_simps)
qed

text \<open>The whole loop, on an entry without parameters.\<close>

definition params_result ::
    "FPGA_INTERFACE_PARAMETER list \<Rightarrow> bool \<Rightarrow> FPGA_INTERFACE_INFO \<Rightarrow> FPGA_INTERFACE_INFO" where
  "params_result ps t x = (if ps = [] then x else with_params (param_array ps t) x)"

definition params_charge ::
    "nat \<Rightarrow> FPGA_INTERFACE_PARAMETER list \<Rightarrow> bool \<Rightarrow> 'e cmn_state_scheme \<Rightarrow> 'e cmn_state_scheme" where
  "params_charge i ps t s =
     (if ps = [] then s else charge (Suc (plist_allocs ps t)) (1 + int (length ps)) s)"

lemma run_set_parameter_loop:
  assumes "plist_at V p ps t" and "V p = Some h" and "V = dfl_view s"
    and "has_info s i" and "parameters (info_at s i) = None"
    and "allocs_ok s" and "length ps < fuel"
  shows "set_parameter_loop fuel i 0 p h s =
     Ret () (params_charge i ps t (put_info i (params_result ps t (info_at s i)) s))"
proof -
  obtain f where f: "fuel = Suc f" using assms(7) by (cases fuel) auto
  from assms(1) show ?thesis
  proof cases
    case (plist_null h')
    with assms f show ?thesis by (simp add: run_rules params_result_def params_charge_def)
  next
    case (plist_last h' ws)
    with assms f show ?thesis
      by (simp add: loop_step [where V = V and ws = ws and qs = "[]" and x = "info_at s i"
            and h' = h] params_result_def params_charge_def param_array_def plist_allocs_def
            numeral_2_eq_2 del: set_parameter_loop.simps)
  next
    case (plist_more h' ws ps' )
    from assms plist_more have h: "h' = h" by simp
    from plist_at_header [OF plist_more(6)] obtain h2
      where h2: "V (p + get_next_param_byte_offset h) = Some h2" by (auto simp: h)
    define s2 where "s2 = charge 3 2 (put_info i
        (with_params ([param_of h ws] @ [zero_param]) (info_at s i)) s)"
    have step: "set_parameter_loop fuel i 0 p h s =
        set_parameter_loop f i (Suc 0) (p + get_next_param_byte_offset h) h2 s2"
      using assms plist_more h2
      by (simp add: loop_step [where V = V and ws = ws and qs = "[]" and x = "info_at s i"
            and h' = h2] f h s2_def del: set_parameter_loop.simps)
    have "set_parameter_loop f i (Suc 0) (p + get_next_param_byte_offset h) h2 s2 =
        Ret () (charge (plist_allocs ps' t) (int (length ps'))
          (put_info i (with_params ([param_of h ws] @ param_array ps' t) (info_at s i)) s2))"
      by (rule run_loop_tail [OF plist_more(6) [unfolded h]])
        (use assms plist_more h h2 f in \<open>simp_all add: s2_def\<close>)
    moreover have "plist_allocs ps' t + 3 = Suc (plist_allocs ps t)"
      using plist_more by (cases ps') (auto simp: plist_allocs_def plist_at_Nil)
    ultimately show ?thesis
      by (simp add: step s2_def h param_array_def plist_more params_result_def params_charge_def
          algebra_simps)
  qed
qed

section \<open>A whole interface\<close>

text \<open>What a Device Feature Header at \<open>a\<close> describes, read through the view.\<close>

record dfh =
  dfh_word :: u64
  dfh_guid_l :: u64
  dfh_guid_h :: u64
  dfh_csr_addr :: u64
  dfh_csr_group :: u64

definition dfh_at :: "(u64 \<Rightarrow> u64 option) \<Rightarrow> u64 \<Rightarrow> dfh \<Rightarrow> bool" where
  "dfh_at V a d \<longleftrightarrow>
     V a = Some (dfh_word d) \<and> V (a + 0x08) = Some (dfh_guid_l d)
     \<and> V (a + 0x10) = Some (dfh_guid_h d) \<and> V (a + 0x18) = Some (dfh_csr_addr d)
     \<and> V (a + 0x20) = Some (dfh_csr_group d)"

definition csr_base :: "u64 \<Rightarrow> dfh \<Rightarrow> u64" where
  "csr_base a d =
     (if odd (dfh_csr_addr d) then dfh_csr_addr d AND 0xFFFFFFFFFFFFFFFE
      else a + dfh_csr_addr d)"

definition interface_of ::
    "u64 \<Rightarrow> dfh \<Rightarrow> int \<Rightarrow> FPGA_INTERFACE_INFO \<Rightarrow> FPGA_INTERFACE_INFO" where
  "interface_of a d parent x =
     x\<lparr>base_address := csr_base a d, dfl := True,
       guid := \<lparr>guid_l = dfh_guid_l d, guid_h = dfh_guid_h d\<rparr>,
       instance_id := ucast (dfh_csr_group d AND 0xffff),
       group_id := ucast (drop_bit 16 (dfh_csr_group d AND 0x7fff0000)),
       dfh_parent := parent, is_mmio_opened := False, is_interrupt_opened := False\<rparr>"

definition dfh_params_at ::
    "(u64 \<Rightarrow> u64 option) \<Rightarrow> u64 \<Rightarrow> dfh \<Rightarrow> FPGA_INTERFACE_PARAMETER list \<Rightarrow> bool \<Rightarrow> bool" where
  "dfh_params_at V a d ps t \<longleftrightarrow>
     (if has_params (dfh_csr_group d) then plist_at V (a + 0x28) ps t else ps = [])"

lemma run_header_reads [run_rules]:
  assumes "dfh_at (dfl_view s) a d"
  shows "get_x_feature_dfh_start_64_data a s = Ret (dfh_word d) s"
    and "get_x_feature_guid_l_64 a s = Ret (dfh_guid_l d) s"
    and "get_x_feature_guid_h_64 a s = Ret (dfh_guid_h d) s"
    and "get_x_feature_csr_group_size_64_data a s = Ret (dfh_csr_group d) s"
    and "get_base_address a s = Ret (csr_base a d) s"
  using assms
  by (simp_all add: dfh_at_def get_x_feature_dfh_start_64_data_def get_x_feature_guid_l_64_def
      get_x_feature_guid_h_64_def get_x_feature_csr_group_size_64_data_def get_base_address_def
      common_dfl_read_64_view run_rules csr_base_def and_one_eq one_and_eq odd_iff_mod_2_eq_one)

lemma run_set_parameter_properties:
  assumes "dfh_at (dfl_view s) a d" and "dfh_params_at (dfl_view s) a d ps t"
    and "has_info s i" and "parameters (info_at s i) = None"
    and "allocs_ok s" and "length ps < fuel"
  shows "set_parameter_properties fuel i a s =
     Ret () (params_charge i ps t (put_info i (params_result ps t (info_at s i)) s))"
proof (cases "has_params (dfh_csr_group d)")
  case True
  with assms(2) have pl: "plist_at (dfl_view s) (a + 0x28) ps t" by (simp add: dfh_params_at_def)
  from plist_at_header [OF pl] obtain h where h: "dfl_view s (a + 0x28) = Some h" by blast
  from run_set_parameter_loop [OF pl h refl assms(3-6)] True h show ?thesis
    by (simp add: set_parameter_properties_def run_rules run_header_reads [OF assms(1)]
        get_first_param_header_addr_def common_dfl_read_64_view_0 del: set_parameter_loop.simps)
next
  case False
  with assms show ?thesis
    by (simp add: set_parameter_properties_def run_rules run_header_reads [OF assms(1)]
        dfh_params_at_def params_charge_def params_result_def)
qed

text \<open>The whole entry; it is started on an entry that the resize has zeroed.\<close>

lemma run_set_interface_properties:
  assumes "dfh_at (dfl_view s) a d" and "dfh_params_at (dfl_view s) a d ps t"
    and "has_info s i" and "parameters (info_at s i) = None"
    and "allocs_ok s" and "length ps < fuel"
    and "stack_inv (dfh_parent_stack s)" and "stack_list (dfh_parent_stack s) = p # st"
  shows "set_interface_properties fuel i a s =
     Ret () (params_charge i ps t (put_info i
       (params_result ps t (interface_of a d p (info_at s i))) s))"
proof -
  let ?x = "info_at s i"
  have hdr: "dfh_at (dfl_view (put_info i y s)) a d" for y using assms(1) by simp
  have peek: "dfh_parent_stack_peek (put_info i y s) = Ret p (put_info i y s)" for y
    by (rule run_peek) (use assms in simp_all)
  note params = run_set_parameter_properties [of "put_info i (interface_of a d p ?x) s" a d ps t i]
  show ?thesis
    using assms params
    by (simp add: set_interface_properties_def run_rules run_header_reads [OF assms(1)]
        run_header_reads [OF hdr] peek get_x_feature_guid_128_def get_instance_id_def
        get_group_id_def) (simp add: interface_of_def)
qed

end
