(* ===== verification/Dfl_Walk.thy ===== *)
theory Dfl_Walk
  imports Dfl_Params
begin

text \<open>
  The DFL walker, \<open>common/src/intel_fpga_api_cmn_dfl.c\<close>: the recursion over headers, parameter
  lists and branches, run once to count the interfaces and once to collect them, and the report
  functions.  The recursion follows addresses found in the hardware, so it need not end; the
  first argument of the walking functions is fuel, used up by every header and every parameter
  block.  \<open>DFL_WALKER_DEBUG_MODE\<close> and \<open>DFL_WALKER_REPORT\<close> are not defined in the build.

  This theory holds the operations; theory \<open>Dfl_Spec\<close> says what they compute.
\<close>

section \<open>The walk\<close>

definition PARAM_ID_BRANCH :: u32 where "PARAM_ID_BRANCH = 0xc"

text \<open>Where a branch parameter with this data word leads.\<close>

definition branch_target :: "u64 \<Rightarrow> u64 \<Rightarrow> u64" where
  "branch_target current_dfh_addr branch_dfl_64_data =
     (if branch_dfl_64_data AND 1 \<noteq> 0 then branch_dfl_64_data AND 0xFFFFFFFFFFFFFFF8
      else current_dfh_addr + (branch_dfl_64_data AND 0xFFFFFFFFFFFFFFF8))"

text \<open>\<open>s_scanned_interface_count++\<close> and \<open>s_interface_index++\<close>.\<close>

definition count_interface :: "('e, unit) cmn" where
  "count_interface =
     bnd (gets s_scanned_interface_count) (\<lambda>n.
     bnd (int_succ n) (\<lambda>n'.
     modify (\<lambda>s. s\<lparr>s_scanned_interface_count := n'\<rparr>)))"

definition next_interface_index :: "('e, int) cmn" where
  "next_interface_index =
     bnd (gets s_interface_index) (\<lambda>i.
     bnd (int_succ i) (\<lambda>i'.
     thn (modify (\<lambda>s. s\<lparr>s_interface_index := i'\<rparr>)) (ret i')))"

function deal_with_interface_at_current_level :: "nat \<Rightarrow> u64 \<Rightarrow> bool \<Rightarrow> ('e, unit) cmn"
and process_param_list_for_known_param_id :: "nat \<Rightarrow> u64 \<Rightarrow> u64 \<Rightarrow> bool \<Rightarrow> ('e, unit) cmn"
and process_param_loop :: "nat \<Rightarrow> u64 \<Rightarrow> u64 \<Rightarrow> u64 \<Rightarrow> bool \<Rightarrow> ('e, unit) cmn"
and handle_well_known_param_id :: "nat \<Rightarrow> u64 \<Rightarrow> u64 \<Rightarrow> u32 \<Rightarrow> bool \<Rightarrow> ('e, unit) cmn"
and handle_branch_param_id :: "nat \<Rightarrow> u64 \<Rightarrow> u64 \<Rightarrow> bool \<Rightarrow> ('e, unit) cmn"
where
  "deal_with_interface_at_current_level 0 current_dfh_addr collect_interfaces = halt Out_of_fuel"
| "deal_with_interface_at_current_level (Suc fuel) current_dfh_addr collect_interfaces =
     thn (if \<not> collect_interfaces then count_interface
          else bnd next_interface_index (\<lambda>i.
               set_interface_properties fuel (unat (uint_of_int i)) current_dfh_addr))
    (bnd (get_x_feature_csr_group_size_64_data current_dfh_addr) (\<lambda>csr_size_group_64_data.
     thn (if has_params csr_size_group_64_data then
            process_param_list_for_known_param_id fuel current_dfh_addr
              (get_first_param_header_addr current_dfh_addr) collect_interfaces
          else ret ())
    (bnd (get_x_feature_dfh_start_64_data current_dfh_addr) (\<lambda>dfh_start_64_data.
     if \<not> is_eol dfh_start_64_data then
       deal_with_interface_at_current_level fuel
         (get_next_dfh_addr dfh_start_64_data current_dfh_addr) collect_interfaces
     else dfh_parent_stack_pop))))"
| "process_param_list_for_known_param_id fuel current_dfh_addr current_param_block_addr
     collect_interfaces =
     bnd (common_dfl_read_64 current_param_block_addr 0) (\<lambda>param_header_64_data.
     process_param_loop fuel current_dfh_addr current_param_block_addr param_header_64_data
       collect_interfaces)"
| "process_param_loop 0 current_dfh_addr current_param_block_addr param_header_64_data
     collect_interfaces = halt Out_of_fuel"
| "process_param_loop (Suc fuel) current_dfh_addr current_param_block_addr param_header_64_data
     collect_interfaces =
     (if \<not> is_last_param_block param_header_64_data
         \<or> get_next_param_byte_offset param_header_64_data > 0 then
        thn (handle_well_known_param_id fuel current_dfh_addr current_param_block_addr
               (get_param_id param_header_64_data) collect_interfaces)
            (if \<not> is_last_param_block param_header_64_data then
               bnd (common_dfl_read_64
                      (current_param_block_addr + get_next_param_byte_offset param_header_64_data) 0)
                 (\<lambda>next_header.
               process_param_loop fuel current_dfh_addr
                 (current_param_block_addr + get_next_param_byte_offset param_header_64_data)
                 next_header collect_interfaces)
             else ret ())
      else ret ())"
| "handle_well_known_param_id fuel current_dfh_addr current_param_block_addr par_id
     collect_interfaces =
     (if par_id = PARAM_ID_BRANCH
      then handle_branch_param_id fuel current_dfh_addr current_param_block_addr collect_interfaces
      else ret ())"
| "handle_branch_param_id fuel current_dfh_addr current_param_block_addr collect_interfaces =
     bnd (gets s_interface_index) (\<lambda>i.
     thn (dfh_parent_stack_push i)
    (bnd (common_dfl_read_64 current_param_block_addr 8) (\<lambda>branch_dfl_64_data.
     deal_with_interface_at_current_level fuel
       (branch_target current_dfh_addr branch_dfl_64_data) collect_interfaces)))"
  by pat_completeness auto

termination
  by (relation "measure (\<lambda>x. case x of
        Inl (Inl (f, _)) \<Rightarrow> 5 * f
      | Inl (Inr (f, _)) \<Rightarrow> 5 * f + 1
      | Inr (Inl (f, _)) \<Rightarrow> 5 * f
      | Inr (Inr (Inl (f, _))) \<Rightarrow> 5 * f + 2
      | Inr (Inr (Inr (f, _))) \<Rightarrow> 5 * f + 1)") auto

section \<open>The two passes\<close>

definition scan_the_num_interfaces :: "nat \<Rightarrow> u64 \<Rightarrow> ('e, unit) cmn" where
  "scan_the_num_interfaces fuel first_dfh_addr =
     thn (dfh_parent_stack_push (-1))
         (deal_with_interface_at_current_level fuel first_dfh_addr False)"

definition dfl_collect_interfaces_info :: "nat \<Rightarrow> u64 \<Rightarrow> ('e, unit) cmn" where
  "dfl_collect_interfaces_info fuel first_dfh_addr =
     thn (dfh_parent_stack_push (-1))
    (bnd common_fpga_interface_info_vec_size (\<lambda>n.
     thn (common_fpga_interface_info_vec_resize n)
         (deal_with_interface_at_current_level fuel first_dfh_addr True)))"

text \<open>The address decoder is used by the report build only.\<close>

definition common_dfl_scan_multi_interfaces ::
    "nat \<Rightarrow> u64 \<Rightarrow> (u64 \<Rightarrow> u64) \<Rightarrow> ('e, unit) cmn" where
  "common_dfl_scan_multi_interfaces fuel first_dfh_addr base_addr_decoder =
     thn (modify (\<lambda>s. s\<lparr>s_scanned_interface_count := 0\<rparr>))
    (bnd (gets s_scanned_interface_count) (\<lambda>n.
     thn (common_fpga_interface_info_vec_resize (size_t_of_int n))
    (thn (scan_the_num_interfaces fuel first_dfh_addr)
    (bnd (gets s_scanned_interface_count) (\<lambda>n.
     thn (common_fpga_interface_info_vec_resize (size_t_of_int n))
    (thn (modify (\<lambda>s. s\<lparr>s_interface_index := -1\<rparr>))
    (thn (dfl_collect_interfaces_info fuel first_dfh_addr)
         (dfh_parent_stack_resize 0))))))))"

section \<open>The report\<close>

definition info_line :: "string \<Rightarrow> msg_arg list \<Rightarrow> ('e, unit) cmn" where
  "info_line fmt args = bnd (fpga_msg_printf FPGA_MSG_PRINTF_INFO fmt args) (\<lambda>_. ret ())"

text \<open>The loop over the data words of a parameter, from word \<open>j\<close> on, \<open>k\<close> of them.\<close>

fun print_param_data :: "nat \<Rightarrow> nat \<Rightarrow> nat \<Rightarrow> nat \<Rightarrow> ('e, unit) cmn" where
  "print_param_data 0 index i j = ret ()"
| "print_param_data (Suc k) index i j =
     bnd (param_at index i) (\<lambda>p.
     bnd (deref (data p)) (\<lambda>ws.
     thn (require Out_of_bounds (j < length ws))
    (thn (info_line ''      64-bit Param Data[%d]: 0x%016llX''
            [Arg_int (int j), Arg_word (ws ! j)])
         (print_param_data k index i (Suc j)))))"

fun print_params :: "nat \<Rightarrow> nat \<Rightarrow> nat \<Rightarrow> ('e, unit) cmn" where
  "print_params 0 index i = ret ()"
| "print_params (Suc k) index i =
     thn (info_line ''      ------ Parameter %d ------   '' [Arg_int (int i)])
    (bnd (param_at index i) (\<lambda>p.
     thn (info_line ''      Version: %d'' [Arg_word (ucast (version p))])
    (thn (info_line ''      Param ID: %d'' [Arg_word (ucast (param_id p))])
    (thn (info_line ''      Param Data Size: %d'' [Arg_word (data_size p)])
    (thn (print_param_data (unat (data_size p) div 8) index i 0)
         (print_params k index (Suc i)))))))"

definition common_dfl_print_interface :: "u32 \<Rightarrow> (u64 \<Rightarrow> u64) \<Rightarrow> ('e, unit) cmn" where
  "common_dfl_print_interface index base_addr_decoder =
     bnd common_fpga_interface_info_vec_size (\<lambda>n.
     if unat index < n then
       thn (info_line ''   ---------- Interface %d ----------'' [Arg_word (ucast index)])
      (bnd (common_fpga_interface_info_vec_at (unat index)) (\<lambda>x.
       thn (info_line ''   Base Address: 0x%llX'' [Arg_word (base_addr_decoder (base_address x))])
      (thn (info_line ''   128-bit GUID: 0x%016llX%016llX''
              [Arg_word (guid_h (guid x)), Arg_word (guid_l (guid x))])
      (thn (info_line ''   Instance ID: %d'' [Arg_word (ucast (instance_id x))])
      (thn (info_line ''   Group ID: %d'' [Arg_word (ucast (group_id x))])
           (print_params (num_of_parameters x) (unat index) 0))))))
     else
       bnd (fpga_msg_printf FPGA_MSG_PRINTF_ERROR
              ''Please enter a valid interface index, acceptable index < %d'' [Arg_size n])
         (\<lambda>_. ret ()))"

fun print_interfaces_loop :: "nat \<Rightarrow> nat \<Rightarrow> (u64 \<Rightarrow> u64) \<Rightarrow> ('e, unit) cmn" where
  "print_interfaces_loop 0 i base_addr_decoder = ret ()"
| "print_interfaces_loop (Suc k) i base_addr_decoder =
     thn (common_dfl_print_interface (of_nat i) base_addr_decoder)
         (print_interfaces_loop k (Suc i) base_addr_decoder)"

definition common_dfl_print_all_interfaces :: "(u64 \<Rightarrow> u64) \<Rightarrow> ('e, unit) cmn" where
  "common_dfl_print_all_interfaces base_addr_decoder =
     bnd common_fpga_interface_info_vec_size (\<lambda>num_intf.
     print_interfaces_loop num_intf 0 base_addr_decoder)"

end
