(* ===== verification/Dfl_Spec.thy ===== *)
theory Dfl_Spec
  imports Dfl_Walk
begin

text \<open>
  What the DFL walker computes.  A Device Feature List is a finite tree: a level is a chain of
  headers, a header may have a list of parameter blocks, and a branch block leads to a further
  level.  \<open>dfl_at V a x\<close> says that the words of the view \<open>V\<close> from address \<open>a\<close> on encode the
  tree \<open>x\<close>; \<open>rows\<close> is the table of interfaces that the tree stands for, in the order and with the
  parent numbers of the library.  The lemmas show that the first pass counts the nodes of the tree
  and that the second pass fills exactly so many entries with the rows, for every tree whose
  branches nest at most six deep, which is what the parent stack has room for.
\<close>

section \<open>Trees\<close>

datatype dfl_level =
    Last_dfh dfh dfl_params
  | Next_dfh dfh dfl_params dfl_level
and dfl_params =
    No_params
  | Null_block u64
  | Last_block u64 "u64 list" dfl_branch
  | Block u64 "u64 list" dfl_branch dfl_params
and dfl_branch =
    No_branch
  | Branch u64 dfl_level

lemma params_induct [case_names No_params Null_block Last_block Block]:
  assumes "P No_params" and "\<And>h. P (Null_block h)" and "\<And>h ws br. P (Last_block h ws br)"
    and "\<And>h ws br ps. P ps \<Longrightarrow> P (Block h ws br ps)"
  shows "P ps"
  by (rule dfl_params.induct [where ?P1.0 = "\<lambda>_. True" and ?P2.0 = P and ?P3.0 = "\<lambda>_. True"]) (use assms in simp_all)

primrec blocks :: "dfl_params \<Rightarrow> FPGA_INTERFACE_PARAMETER list" where
  "blocks No_params = []"
| "blocks (Null_block h) = []"
| "blocks (Last_block h ws br) = [param_of h ws]"
| "blocks (Block h ws br ps) = param_of h ws # blocks ps"

primrec null_ended :: "dfl_params \<Rightarrow> bool" where
  "null_ended No_params = False"
| "null_ended (Null_block h) = True"
| "null_ended (Last_block h ws br) = False"
| "null_ended (Block h ws br ps) = null_ended ps"

section \<open>Encoding in memory\<close>

definition is_branch_block :: "u64 \<Rightarrow> bool" where
  "is_branch_block h \<longleftrightarrow> get_param_id h = PARAM_ID_BRANCH"

primrec dfl_at :: "(u64 \<Rightarrow> u64 option) \<Rightarrow> u64 \<Rightarrow> dfl_level \<Rightarrow> bool"
and params_at :: "(u64 \<Rightarrow> u64 option) \<Rightarrow> u64 \<Rightarrow> u64 \<Rightarrow> dfl_params \<Rightarrow> bool"
and branch_at :: "(u64 \<Rightarrow> u64 option) \<Rightarrow> u64 \<Rightarrow> u64 \<Rightarrow> u64 \<Rightarrow> dfl_branch \<Rightarrow> bool"
where
  "dfl_at V a (Last_dfh d ps) \<longleftrightarrow>
     dfh_at V a d \<and> is_eol (dfh_word d)
     \<and> (if has_params (dfh_csr_group d) then params_at V a (a + 0x28) ps else ps = No_params)"
| "dfl_at V a (Next_dfh d ps x) \<longleftrightarrow>
     dfh_at V a d \<and> \<not> is_eol (dfh_word d)
     \<and> (if has_params (dfh_csr_group d) then params_at V a (a + 0x28) ps else ps = No_params)
     \<and> dfl_at V (get_next_dfh_addr (dfh_word d) a) x"
| "params_at V a p No_params \<longleftrightarrow> False"
| "params_at V a p (Null_block h) \<longleftrightarrow>
     V p = Some h \<and> is_last_param_block h \<and> get_next_param_byte_offset h = 0"
| "params_at V a p (Last_block h ws br) \<longleftrightarrow>
     V p = Some h \<and> is_last_param_block h \<and> get_next_param_byte_offset h > 0
     \<and> data_at V (p + 8) (param_data_size h) ws \<and> branch_at V a p h br"
| "params_at V a p (Block h ws br ps) \<longleftrightarrow>
     V p = Some h \<and> \<not> is_last_param_block h \<and> 8 \<le> get_next_param_byte_offset h
     \<and> data_at V (p + 8) (param_data_size h) ws \<and> branch_at V a p h br
     \<and> params_at V a (p + get_next_param_byte_offset h) ps"
| "branch_at V a p h No_branch \<longleftrightarrow> \<not> is_branch_block h"
| "branch_at V a p h (Branch b x) \<longleftrightarrow>
     is_branch_block h \<and> V (p + 8) = Some b \<and> dfl_at V (branch_target a b) x"

section \<open>Measures\<close>

primrec size_level :: "dfl_level \<Rightarrow> nat" and size_params :: "dfl_params \<Rightarrow> nat"
and size_branch :: "dfl_branch \<Rightarrow> nat" where
  "size_level (Last_dfh d ps) = Suc (size_params ps)"
| "size_level (Next_dfh d ps x) = Suc (size_params ps + size_level x)"
| "size_params No_params = 0"
| "size_params (Null_block h) = 0"
| "size_params (Last_block h ws br) = size_branch br"
| "size_params (Block h ws br ps) = size_branch br + size_params ps"
| "size_branch No_branch = 0"
| "size_branch (Branch b x) = size_level x"

text \<open>How deep branches nest.\<close>

primrec depth_level :: "dfl_level \<Rightarrow> nat" and depth_params :: "dfl_params \<Rightarrow> nat"
and depth_branch :: "dfl_branch \<Rightarrow> nat" where
  "depth_level (Last_dfh d ps) = depth_params ps"
| "depth_level (Next_dfh d ps x) = max (depth_params ps) (depth_level x)"
| "depth_params No_params = 0"
| "depth_params (Null_block h) = 0"
| "depth_params (Last_block h ws br) = depth_branch br"
| "depth_params (Block h ws br ps) = max (depth_branch br) (depth_params ps)"
| "depth_branch No_branch = 0"
| "depth_branch (Branch b x) = Suc (depth_level x)"

text \<open>Enough fuel for a walk.\<close>

primrec fuel_level :: "dfl_level \<Rightarrow> nat" and fuel_params :: "dfl_params \<Rightarrow> nat"
and fuel_branch :: "dfl_branch \<Rightarrow> nat" where
  "fuel_level (Last_dfh d ps) = Suc (fuel_params ps)"
| "fuel_level (Next_dfh d ps x) = Suc (max (fuel_params ps) (fuel_level x))"
| "fuel_params No_params = 1"
| "fuel_params (Null_block h) = 1"
| "fuel_params (Last_block h ws br) = Suc (Suc (fuel_branch br))"
| "fuel_params (Block h ws br ps) = Suc (max (fuel_branch br) (fuel_params ps))"
| "fuel_branch No_branch = 0"
| "fuel_branch (Branch b x) = fuel_level x"

lemma fuel_params_blocks: "length (blocks ps) < fuel_params ps"
  by (induction ps rule: params_induct) simp_all

section \<open>The table of interfaces\<close>

definition row :: "u64 \<Rightarrow> dfh \<Rightarrow> dfl_params \<Rightarrow> int \<Rightarrow> FPGA_INTERFACE_INFO" where
  "row a d ps parent =
     params_result (blocks ps) (null_ended ps) (interface_of a d parent zero_info)"

text \<open>The library's numbering: \<open>parent\<close> is the value on top of the parent stack, \<open>cur\<close> the index of
  the entry collected last, which a branch pushes.\<close>

primrec rows_level :: "u64 \<Rightarrow> int \<Rightarrow> int \<Rightarrow> dfl_level \<Rightarrow> FPGA_INTERFACE_INFO list"
and rows_params :: "u64 \<Rightarrow> int \<Rightarrow> dfl_params \<Rightarrow> FPGA_INTERFACE_INFO list"
and rows_branch :: "u64 \<Rightarrow> int \<Rightarrow> dfl_branch \<Rightarrow> FPGA_INTERFACE_INFO list" where
  "rows_level a parent cur (Last_dfh d ps) = row a d ps parent # rows_params a (cur + 1) ps"
| "rows_level a parent cur (Next_dfh d ps x) =
     row a d ps parent # rows_params a (cur + 1) ps
     @ rows_level (get_next_dfh_addr (dfh_word d) a) parent (cur + 1 + int (size_params ps)) x"
| "rows_params a cur No_params = []"
| "rows_params a cur (Null_block h) = []"
| "rows_params a cur (Last_block h ws br) = rows_branch a cur br"
| "rows_params a cur (Block h ws br ps) =
     rows_branch a cur br @ rows_params a (cur + int (size_branch br)) ps"
| "rows_branch a cur No_branch = []"
| "rows_branch a cur (Branch b x) = rows_level (branch_target a b) cur cur x"

definition rows :: "u64 \<Rightarrow> dfl_level \<Rightarrow> FPGA_INTERFACE_INFO list" where
  "rows a x = rows_level a (-1) (-1) x"

lemma length_rows:
  "length (rows_level a p c x) = size_level x"
  "length (rows_params a c ps) = size_params ps"
  "length (rows_branch a c br) = size_branch br"
  by (induction x and ps and br arbitrary: a p c and a c and a c) simp_all

lemma size_level_pos: "0 < size_level x"
  by (cases x) simp_all

section \<open>Blocks of a list as the collecting pass sees them\<close>

lemma params_plist:
  "params_at V a p ps \<Longrightarrow> plist_at V p (blocks ps) (null_ended ps)"
proof (induction ps arbitrary: p rule: params_induct)
  case (Block h ws br ps)
  then show ?case by (auto intro: plist_at.intros)
qed (auto intro: plist_at.intros)

lemma node_params_at:
  "(if has_params (dfh_csr_group d) then params_at V a (a + 0x28) ps else ps = No_params) \<Longrightarrow>
   dfh_params_at V a d (blocks ps) (null_ended ps)"
  by (auto simp: dfh_params_at_def params_plist split: if_splits)

section \<open>A pass over a tree\<close>

lemma wp_csr_group:
  "dfh_at (dfl_view s) a d \<Longrightarrow>
   wp (get_x_feature_csr_group_size_64_data a) Q s = Q (dfh_csr_group d) s"
  by (simp add: wp_def run_header_reads)

lemma wp_dfh_start:
  "dfh_at (dfl_view s) a d \<Longrightarrow> wp (get_x_feature_dfh_start_64_data a) Q s = Q (dfh_word d) s"
  by (simp add: wp_def run_header_reads)

lemma wp_read_word: "dfl_view s a = Some w \<Longrightarrow> wp (common_dfl_read_64 a 0) Q s = Q w s"
  by (simp add: wp_def common_dfl_read_64_view_0)

abbreviation (input) pstack where "pstack \<equiv> dfh_parent_stack"

text \<open>What a level does with its header before it looks at the parameters.\<close>

definition visit :: "bool \<Rightarrow> nat \<Rightarrow> u64 \<Rightarrow> ('e, unit) cmn" where
  "visit collect_interfaces fuel a =
     (if \<not> collect_interfaces then count_interface
      else bnd next_interface_index (\<lambda>i.
           set_interface_properties fuel (unat (uint_of_int i)) a))"

definition same_stack :: "DFH_PARENT_STACK \<Rightarrow> DFH_PARENT_STACK \<Rightarrow> bool" where
  "same_stack st st' \<longleftrightarrow>
     stack_inv st' \<and> stack_list st' = stack_list st \<and> stack_room st' = stack_room st
     \<and> stack_size st' = stack_size st"

definition less_stack :: "DFH_PARENT_STACK \<Rightarrow> DFH_PARENT_STACK \<Rightarrow> bool" where
  "less_stack st st' \<longleftrightarrow>
     stack_inv st' \<and> stack_list st' = tl (stack_list st) \<and> stack_room st' = Suc (stack_room st)
     \<and> stack_size st' = stack_size st"

text \<open>
  The contract between the walk and its two passes.  \<open>visited xs s t\<close>: from \<open>s\<close> to \<open>t\<close> the pass has
  dealt with the interfaces \<open>xs\<close>; \<open>budget k s\<close>: it can deal with \<open>k\<close> more.  The walk promises in
  turn that it visits every node of the tree once, in order, with the parent that is on top of the
  stack, and that it leaves the stack one entry shorter.
\<close>

locale dfl_pass =
  fixes collect :: bool
    and visited :: "FPGA_INTERFACE_INFO list \<Rightarrow> 'e cmn_state_scheme \<Rightarrow> 'e cmn_state_scheme \<Rightarrow> bool"
    and budget :: "nat \<Rightarrow> 'e cmn_state_scheme \<Rightarrow> bool"
  assumes visit_law: "budget (Suc k) s \<Longrightarrow> dfh_at (dfl_view s) a d \<Longrightarrow>
      dfh_params_at (dfl_view s) a d (blocks ps) (null_ended ps) \<Longrightarrow> stack_inv (pstack s) \<Longrightarrow>
      stack_list (pstack s) = p # st \<Longrightarrow> length (blocks ps) < fuel \<Longrightarrow>
      wp (visit collect fuel a) (\<lambda>_ t. visited [row a d ps p] s t \<and> pstack t = pstack s) s"
    and visited_budget: "visited xs s t \<Longrightarrow> budget (length xs + k) s \<Longrightarrow> budget k t"
    and visited_nil: "budget k s \<Longrightarrow> visited [] s s"
    and visited_append: "visited xs s t \<Longrightarrow> visited ys t u \<Longrightarrow> visited (xs @ ys) s u"
    and visited_frame: "visited xs s t \<Longrightarrow> env t = env s \<and> mem t = mem s"
    and visited_stack: "visited xs (s\<lparr>dfh_parent_stack := a1\<rparr>) (t\<lparr>dfh_parent_stack := a2\<rparr>) \<longleftrightarrow> visited xs s t"
    and budget_stack: "budget k (s\<lparr>dfh_parent_stack := a1\<rparr>) \<longleftrightarrow> budget k s"
    and visited_index: "visited xs s t \<Longrightarrow> length ys = length zs \<Longrightarrow>
      (s_interface_index t = s_interface_index s + int (length xs) \<Longrightarrow> ys = zs) \<Longrightarrow>
      visited ys t u \<Longrightarrow> visited zs t u"
begin

lemma visited_view: "visited xs s t \<Longrightarrow> dfl_view t = dfl_view s"
  using visited_frame by (blast intro: dfl_view_cong)

lemma visited_stack': "visited xs s (t\<lparr>dfh_parent_stack := a2\<rparr>) \<longleftrightarrow> visited xs s t"
  "visited xs (s\<lparr>dfh_parent_stack := a2\<rparr>) t \<longleftrightarrow> visited xs s t"
proof -
  have "s\<lparr>dfh_parent_stack := pstack s\<rparr> = s" for s :: "'e cmn_state_scheme" by (cases s) simp
  then show "visited xs s (t\<lparr>dfh_parent_stack := a2\<rparr>) \<longleftrightarrow> visited xs s t"
    and "visited xs (s\<lparr>dfh_parent_stack := a2\<rparr>) t \<longleftrightarrow> visited xs s t"
    by (metis visited_stack)+
qed

text \<open>The header of a level and its parameters, before the walk goes on or ends the level.\<close>

lemma node:
  assumes bud: "budget (Suc (size_params ps) + k) s" and d: "dfh_at (dfl_view s) a d"
    and at: "if has_params (dfh_csr_group d) then params_at (dfl_view s) a (a + 0x28) ps
             else ps = No_params"
    and st: "stack_inv (pstack s)" "stack_list (pstack s) = p # st"
    and fuel: "fuel_params ps \<le> fuel"
    and IH: "\<And>h t. params_at (dfl_view t) a (a + 0x28) ps \<Longrightarrow> dfl_view t (a + 0x28) = Some h \<Longrightarrow>
        budget (size_params ps + k) t \<Longrightarrow> pstack t = pstack s \<Longrightarrow>
        wp (process_param_loop fuel a (a + 0x28) h collect)
          (\<lambda>_ u. visited (rows_params a (s_interface_index t) ps) t u
             \<and> same_stack (pstack t) (pstack u)) t"
    and rest: "\<And>t. visited (row a d ps p # rows_params a (s_interface_index s + 1) ps) s t \<Longrightarrow>
        budget k t \<Longrightarrow> same_stack (pstack s) (pstack t) \<Longrightarrow> dfh_at (dfl_view t) a d \<Longrightarrow>
        dfl_view t = dfl_view s \<Longrightarrow> wp m Q t"
  shows "wp (thn (visit collect fuel a)
     (bnd (get_x_feature_csr_group_size_64_data a) (\<lambda>csr.
      thn (if has_params csr then
             process_param_list_for_known_param_id fuel a (get_first_param_header_addr a) collect
           else ret ()) m))) Q s"
proof -
  have len: "length (blocks ps) < fuel" using fuel_params_blocks [of ps] fuel by linarith
  have fin: "wp m Q u"
    if v: "visited [row a d ps p] s t" and v2: "visited (rows_params a (s_interface_index t) ps) t u"
      and b: "budget (size_params ps + k) t" and ss: "same_stack (pstack t) (pstack u)"
      and eq: "pstack t = pstack s" for t u
  proof (rule rest)
    have "visited (rows_params a (s_interface_index s + 1) ps) t u"
      by (rule visited_index [OF v _ _ v2]) (simp_all add: length_rows)
    with v show "visited (row a d ps p # rows_params a (s_interface_index s + 1) ps) s u"
      using visited_append by fastforce
    show "budget k u" by (rule visited_budget [OF v2]) (simp add: length_rows b)
    show "same_stack (pstack s) (pstack u)" using ss eq by simp
    show "dfl_view u = dfl_view s" using visited_view v v2 by metis
    then show "dfh_at (dfl_view u) a d" using d by simp
  qed
  have step: "wp (bnd (get_x_feature_csr_group_size_64_data a) (\<lambda>csr.
      thn (if has_params csr then
             process_param_list_for_known_param_id fuel a (get_first_param_header_addr a) collect
           else ret ()) m)) Q t"
    if v: "visited [row a d ps p] s t \<and> pstack t = pstack s" for t
  proof -
    have view: "dfl_view t = dfl_view s" using v visited_view by blast
    with d have dt: "dfh_at (dfl_view t) a d" by simp
    have b: "budget (size_params ps + k) t"
      using v visited_budget [of "[row a d ps p]" s t "size_params ps + k"] bud by simp
    show ?thesis
    proof (cases "has_params (dfh_csr_group d)")
      case True
      with at view have pt: "params_at (dfl_view t) a (a + 0x28) ps" by simp
      from plist_at_header [OF params_plist [OF this]]
      obtain h where h: "dfl_view t (a + 0x28) = Some h" by blast
      show ?thesis
        using True v
        by (auto simp: wp_rules wp_csr_group [OF dt] get_first_param_header_addr_def
            wp_read_word [OF h] simp del: process_param_loop.simps
            intro!: wp_mono [OF IH [OF pt h b]] intro: fin b)
    next
      case False
      with at have "ps = No_params" by simp
      with False v fin [of t t] b st visited_nil [OF b] show ?thesis
        by (simp add: wp_rules wp_csr_group [OF dt] same_stack_def)
    qed
  qed
  have "dfh_params_at (dfl_view s) a d (blocks ps) (null_ended ps)"
    using at by (rule node_params_at)
  from wp_mono [OF visit_law [OF _ d this st len, of "size_params ps + k"] step] bud
  show ?thesis unfolding wp_thn by simp
qed

lemma deal_visit:
  "deal_with_interface_at_current_level (Suc f) a collect =
     thn (visit collect f a)
    (bnd (get_x_feature_csr_group_size_64_data a) (\<lambda>csr.
     thn (if has_params csr then
            process_param_list_for_known_param_id f a (get_first_param_header_addr a) collect
          else ret ())
    (bnd (get_x_feature_dfh_start_64_data a) (\<lambda>w.
     if \<not> is_eol w then
       deal_with_interface_at_current_level f (get_next_dfh_addr w a) collect
     else dfh_parent_stack_pop))))"
  by (simp only: deal_with_interface_at_current_level.simps visit_def)

lemma pop_less:
  assumes "same_stack (pstack s) (pstack t)" and "stack_list (pstack s) = p # st"
    and "visited xs s t"
  shows "wp dfh_parent_stack_pop (\<lambda>_ u. visited xs s u \<and> less_stack (pstack s) (pstack u)) t"
proof -
  from assms have t: "stack_inv (pstack t)" "stack_list (pstack t) = p # st"
    by (simp_all add: same_stack_def)
  have "stack_inv (popped (pstack t)) \<and> stack_list (popped (pstack t)) = st
      \<and> stack_room (popped (pstack t)) = Suc (stack_room (pstack t))
      \<and> stack_size (popped (pstack t)) = stack_size (pstack t)"
    using popped_inv [OF t] by blast
  with assms show ?thesis
    unfolding wp_def run_pop [OF t(1)] popped_def [symmetric]
    by (simp add: visited_stack' less_stack_def same_stack_def)
qed

abbreviation level_done where
  "level_done a p x s t \<equiv>
     visited (rows_level a p (s_interface_index s) x) s t \<and> less_stack (pstack s) (pstack t)"

abbreviation params_done where
  "params_done a ps s t \<equiv>
     visited (rows_params a (s_interface_index s) ps) s t \<and> same_stack (pstack s) (pstack t)"

abbreviation branch_done where
  "branch_done a br s t \<equiv>
     visited (rows_branch a (s_interface_index s) br) s t \<and> same_stack (pstack s) (pstack t)"

text \<open>How the parts of a walk add up.\<close>

lemma level_next:
  assumes v: "visited (row a d ps p # rows_params a (s_interface_index s + 1) ps) s t"
    and same: "same_stack (pstack s) (pstack t)"
    and u: "level_done (get_next_dfh_addr (dfh_word d) a) p x t u"
  shows "level_done a p (Next_dfh d ps x) s u"
proof -
  have "visited (rows_level (get_next_dfh_addr (dfh_word d) a) p
      (s_interface_index s + 1 + int (size_params ps)) x) t u"
    by (rule visited_index [OF v _ _ conjunct1 [OF u]]) (simp_all add: length_rows algebra_simps)
  from visited_append [OF v this] u same show ?thesis
    by (simp add: less_stack_def same_stack_def)
qed

lemma params_next:
  assumes t: "branch_done a br s t" and u: "params_done a ps t u"
  shows "params_done a (Block h ws br ps) s u"
proof -
  have "visited (rows_params a (s_interface_index s + int (size_branch br)) ps) t u"
    by (rule visited_index [OF conjunct1 [OF t] _ _ conjunct1 [OF u]]) (simp_all add: length_rows)
  from visited_append [OF conjunct1 [OF t] this] u t show ?thesis
    by (simp add: same_stack_def)
qed

lemma branch_entered:
  assumes inv: "stack_inv (pstack s)" and room: "0 < stack_room (pstack s)"
    and u: "level_done (branch_target a b) (s_interface_index s) x
      (s\<lparr>dfh_parent_stack := pushed (s_interface_index s) (pstack s)\<rparr>) u"
  shows "branch_done a (Branch b x) s u"
  using u pushed_inv [OF inv room] room
  by (simp add: visited_stack' less_stack_def same_stack_def)

text \<open>The cases of a walk, from the walks of their parts.\<close>

lemma walk_last:
  assumes "dfl_at (dfl_view s) a (Last_dfh d ps)" and "budget (size_level (Last_dfh d ps) + k) s"
    and "stack_inv (pstack s)" and "stack_list (pstack s) = p # st" and "fuel_params ps \<le> f"
    and IH: "\<And>h t. params_at (dfl_view t) a (a + 0x28) ps \<Longrightarrow> dfl_view t (a + 0x28) = Some h \<Longrightarrow>
        budget (size_params ps + k) t \<Longrightarrow> pstack t = pstack s \<Longrightarrow>
        wp (process_param_loop f a (a + 0x28) h collect) (\<lambda>_. params_done a ps t) t"
  shows "wp (deal_with_interface_at_current_level (Suc f) a collect)
     (\<lambda>_. level_done a p (Last_dfh d ps) s) s"
  unfolding deal_visit
proof (rule node [where k = k and d = d and ps = ps and p = p and st = st])
  fix t
  assume "visited (row a d ps p # rows_params a (s_interface_index s + 1) ps) s t"
    and "same_stack (pstack s) (pstack t)" and "dfh_at (dfl_view t) a d"
  with assms show "wp (bnd (get_x_feature_dfh_start_64_data a) (\<lambda>w.
      if \<not> is_eol w then deal_with_interface_at_current_level f (get_next_dfh_addr w a) collect
      else dfh_parent_stack_pop)) (\<lambda>_. level_done a p (Last_dfh d ps) s) t"
    by (simp add: wp_bnd wp_dfh_start pop_less)
qed (use assms in simp_all)

lemma walk_next:
  assumes "dfl_at (dfl_view s) a (Next_dfh d ps x)" and "budget (size_level (Next_dfh d ps x) + k) s"
    and "stack_inv (pstack s)" and "stack_list (pstack s) = p # st" and "fuel_params ps \<le> f"
    and params: "\<And>h t. params_at (dfl_view t) a (a + 0x28) ps \<Longrightarrow> dfl_view t (a + 0x28) = Some h \<Longrightarrow>
        budget (size_params ps + (size_level x + k)) t \<Longrightarrow> pstack t = pstack s \<Longrightarrow>
        wp (process_param_loop f a (a + 0x28) h collect) (\<lambda>_. params_done a ps t) t"
    and level: "\<And>t. dfl_view t = dfl_view s \<Longrightarrow> budget (size_level x + k) t \<Longrightarrow>
        same_stack (pstack s) (pstack t) \<Longrightarrow>
        wp (deal_with_interface_at_current_level f (get_next_dfh_addr (dfh_word d) a) collect)
          (\<lambda>_. level_done (get_next_dfh_addr (dfh_word d) a) p x t) t"
  shows "wp (deal_with_interface_at_current_level (Suc f) a collect)
     (\<lambda>_. level_done a p (Next_dfh d ps x) s) s"
  unfolding deal_visit
proof (rule node [where k = "size_level x + k" and d = d and ps = ps and p = p and st = st])
  fix t
  assume v: "visited (row a d ps p # rows_params a (s_interface_index s + 1) ps) s t"
    and b: "budget (size_level x + k) t" and same: "same_stack (pstack s) (pstack t)"
    and d: "dfh_at (dfl_view t) a d" and view: "dfl_view t = dfl_view s"
  have "wp (deal_with_interface_at_current_level f (get_next_dfh_addr (dfh_word d) a) collect)
      (\<lambda>_. level_done a p (Next_dfh d ps x) s) t"
    by (rule wp_mono [OF level [OF view b same]]) (rule level_next [OF v same])
  with assms(1) d show "wp (bnd (get_x_feature_dfh_start_64_data a) (\<lambda>w.
      if \<not> is_eol w then deal_with_interface_at_current_level f (get_next_dfh_addr w a) collect
      else dfh_parent_stack_pop)) (\<lambda>_. level_done a p (Next_dfh d ps x) s) t"
    by (simp add: wp_bnd wp_dfh_start del: rows_level.simps)
qed (use assms in \<open>simp_all add: ac_simps\<close>)

lemma walk_block:
  assumes at: "params_at (dfl_view s) a q (Block h ws br ps)"
    and bud: "budget (size_params (Block h ws br ps) + k) s"
    and branch: "wp (handle_well_known_param_id f a q (get_param_id h) collect) (\<lambda>_. branch_done a br s) s"
    and params: "\<And>g t. dfl_view t = dfl_view s \<Longrightarrow>
        dfl_view t (q + get_next_param_byte_offset h) = Some g \<Longrightarrow>
        budget (size_params ps + k) t \<Longrightarrow> same_stack (pstack s) (pstack t) \<Longrightarrow>
        wp (process_param_loop f a (q + get_next_param_byte_offset h) g collect) (\<lambda>_. params_done a ps t) t"
  shows "wp (process_param_loop (Suc f) a q h collect) (\<lambda>_. params_done a (Block h ws br ps) s) s"
proof -
  let ?q' = "q + get_next_param_byte_offset h"
  have last: "\<not> is_last_param_block h" and pt: "params_at (dfl_view s) a ?q' ps" using at by simp_all
  from plist_at_header [OF params_plist [OF pt]] obtain g where g: "dfl_view s ?q' = Some g" by blast
  have "wp (thn (handle_well_known_param_id f a q (get_param_id h) collect)
      (bnd (common_dfl_read_64 ?q' 0) (\<lambda>g. process_param_loop f a ?q' g collect)))
      (\<lambda>_. params_done a (Block h ws br ps) s) s"
  proof (rule wp_thn_then [OF branch])
    fix t
    assume t: "branch_done a br s t"
    then have view: "dfl_view t = dfl_view s" using visited_view by blast
    have b: "budget (size_params ps + k) t"
      by (rule visited_budget [OF conjunct1 [OF t]]) (use bud in \<open>simp add: length_rows ac_simps\<close>)
    have "wp (process_param_loop f a ?q' g collect) (\<lambda>_. params_done a (Block h ws br ps) s) t"
      by (rule wp_mono [OF params]) (use view g b t in simp, use view g in simp, rule b, use t in simp,
        rule params_next [OF t])
    then show "wp (bnd (common_dfl_read_64 ?q' 0) (\<lambda>g. process_param_loop f a ?q' g collect))
        (\<lambda>_. params_done a (Block h ws br ps) s) t"
      using g view by (simp add: wp_bnd wp_read_word del: rows_params.simps process_param_loop.simps)
  qed
  with last show ?thesis by (simp del: handle_well_known_param_id.simps rows_params.simps)
qed

lemma walk_branch:
  assumes at: "branch_at (dfl_view s) a q h (Branch b x)" and inv: "stack_inv (pstack s)"
    and room: "0 < stack_room (pstack s)"
    and level: "wp (deal_with_interface_at_current_level fuel (branch_target a b) collect)
        (\<lambda>_. level_done (branch_target a b) (s_interface_index s) x
          (s\<lparr>dfh_parent_stack := pushed (s_interface_index s) (pstack s)\<rparr>))
        (s\<lparr>dfh_parent_stack := pushed (s_interface_index s) (pstack s)\<rparr>)"
  shows "wp (handle_well_known_param_id fuel a q (get_param_id h) collect)
     (\<lambda>_. branch_done a (Branch b x) s) s"
proof -
  let ?i = "s_interface_index s"
  define s1 where "s1 = s\<lparr>dfh_parent_stack := pushed ?i (pstack s)\<rparr>"
  have "dfl_view s1 = dfl_view s" unfolding s1_def by (rule dfl_view_cong) simp_all
  then have "common_dfl_read_64 q 8 s1 = Ret b s1"
    using at common_dfl_read_64_view [of s1 q 8 b] by simp
  then have "wp (common_dfl_read_64 q 8) Q s1 = Q b s1" for Q :: "u64 \<Rightarrow> 'e cmn_state_scheme \<Rightarrow> bool"
    by (rule wp_Ret)
  moreover have "wp (dfh_parent_stack_push ?i) Q s = Q () s1" for Q :: "unit \<Rightarrow> 'e cmn_state_scheme \<Rightarrow> bool"
    by (simp add: wp_def run_push [OF inv room] s1_def)
  moreover have "get_param_id h = PARAM_ID_BRANCH" using at by (simp add: is_branch_block_def)
  moreover have "wp (deal_with_interface_at_current_level fuel (branch_target a b) collect)
      (\<lambda>_. branch_done a (Branch b x) s) s1"
    by (rule wp_mono [OF level [folded s1_def]]) (rule branch_entered [OF inv room, folded s1_def])
  ultimately show ?thesis
    by (simp add: wp_rules del: rows_branch.simps deal_with_interface_at_current_level.simps)
qed

lemma walk:
  "dfl_at (dfl_view s) a x \<Longrightarrow> budget (size_level x + k) s \<Longrightarrow> stack_inv (pstack s) \<Longrightarrow>
   stack_list (pstack s) = p # st \<Longrightarrow> depth_level x \<le> stack_room (pstack s) \<Longrightarrow>
   fuel_level x \<le> fuel \<Longrightarrow>
   wp (deal_with_interface_at_current_level fuel a collect) (\<lambda>_. level_done a p x s) s"
  "params_at (dfl_view s) a q ps \<Longrightarrow> dfl_view s q = Some h \<Longrightarrow> budget (size_params ps + k) s \<Longrightarrow>
   stack_inv (pstack s) \<Longrightarrow> depth_params ps \<le> stack_room (pstack s) \<Longrightarrow>
   fuel_params ps \<le> fuel \<Longrightarrow>
   wp (process_param_loop fuel a q h collect) (\<lambda>_. params_done a ps s) s"
  "branch_at (dfl_view s) a q h br \<Longrightarrow> budget (size_branch br + k) s \<Longrightarrow>
   stack_inv (pstack s) \<Longrightarrow> depth_branch br \<le> stack_room (pstack s) \<Longrightarrow>
   fuel_branch br \<le> fuel \<Longrightarrow>
   wp (handle_well_known_param_id fuel a q (get_param_id h) collect) (\<lambda>_. branch_done a br s) s"
proof (induction x and ps and br arbitrary: s a k p st fuel and s a q h k fuel and s a q h k fuel)
  case (Last_dfh d ps)
  then obtain f where f: "fuel = Suc f" by (cases fuel) auto
  show ?case
    unfolding f
  proof (rule walk_last [OF Last_dfh.prems(1-4)])
    show "wp (process_param_loop f a (a + 0x28) h collect) (\<lambda>_. params_done a ps t) t"
      if "params_at (dfl_view t) a (a + 0x28) ps" "dfl_view t (a + 0x28) = Some h"
        "budget (size_params ps + k) t" "pstack t = pstack s" for h t
      by (rule Last_dfh.IH [OF that(1-3)]) (use that Last_dfh.prems f in simp_all)
  qed (use Last_dfh.prems f in simp)
next
  case (Next_dfh d ps x)
  then obtain f where f: "fuel = Suc f" by (cases fuel) auto
  show ?case
    unfolding f
  proof (rule walk_next [OF Next_dfh.prems(1-4)])
    show "wp (process_param_loop f a (a + 0x28) h collect) (\<lambda>_. params_done a ps t) t"
      if "params_at (dfl_view t) a (a + 0x28) ps" "dfl_view t (a + 0x28) = Some h"
        "budget (size_params ps + (size_level x + k)) t" "pstack t = pstack s" for h t
      by (rule Next_dfh.IH(1) [OF that(1-3)]) (use that Next_dfh.prems f in simp_all)
    show "wp (deal_with_interface_at_current_level f (get_next_dfh_addr (dfh_word d) a) collect)
        (\<lambda>_. level_done (get_next_dfh_addr (dfh_word d) a) p x t) t"
      if "dfl_view t = dfl_view s" "budget (size_level x + k) t" "same_stack (pstack s) (pstack t)" for t
      by (rule Next_dfh.IH(2) [OF _ that(2)]) (use that Next_dfh.prems f in \<open>simp_all add: same_stack_def\<close>)
  qed (use Next_dfh.prems f in simp_all)
next
  case (Null_block h')
  then obtain f where f: "fuel = Suc f" by (cases fuel) auto
  with Null_block visited_nil [OF Null_block.prems(3)] show ?case
    by (simp add: wp_rules same_stack_def)
next
  case (Last_block h' ws br)
  then obtain f where f: "fuel = Suc f" by (cases fuel) auto
  have "wp (handle_well_known_param_id f a q (get_param_id h') collect) (\<lambda>_. branch_done a br s) s"
    by (rule Last_block.IH [where k = k]) (use Last_block.prems f in simp_all)
  with Last_block.prems f show ?case
    by (simp add: wp_thn wp_ret_eta del: handle_well_known_param_id.simps)
next
  case (Block h' ws br ps)
  then obtain f where f: "fuel = Suc f" by (cases fuel) auto
  have h: "h = h'" using Block.prems by simp
  show ?case
    unfolding f h
  proof (rule walk_block [OF Block.prems(1,3)])
    show "wp (handle_well_known_param_id f a q (get_param_id h') collect) (\<lambda>_. branch_done a br s) s"
      by (rule Block.IH(1) [where k = "size_params ps + k"])
        (use Block.prems f in \<open>simp_all add: ac_simps\<close>)
    show "wp (process_param_loop f a (q + get_next_param_byte_offset h') g collect)
        (\<lambda>_. params_done a ps t) t"
      if "dfl_view t = dfl_view s" "dfl_view t (q + get_next_param_byte_offset h') = Some g"
        "budget (size_params ps + k) t" "same_stack (pstack s) (pstack t)" for g t
      by (rule Block.IH(2) [OF _ that(2,3)]) (use that Block.prems f in \<open>simp_all add: same_stack_def\<close>)
  qed
next
  case No_branch
  with visited_nil [OF No_branch.prems(2)] show ?case
    by (simp add: is_branch_block_def wp_rules same_stack_def)
next
  case (Branch b x)
  let ?i = "s_interface_index s"
  let ?s1 = "s\<lparr>dfh_parent_stack := pushed ?i (pstack s)\<rparr>"
  have room: "0 < stack_room (pstack s)" using Branch.prems by simp
  note st = pushed_inv [OF Branch.prems(3) room, of ?i]
  have view: "dfl_view ?s1 = dfl_view s" by (rule dfl_view_cong) simp_all
  have "wp (deal_with_interface_at_current_level fuel (branch_target a b) collect)
      (\<lambda>_. level_done (branch_target a b) ?i x ?s1) ?s1"
    using Branch.IH [of ?s1 "branch_target a b" k ?i "stack_list (pstack s)" fuel] Branch.prems view st
    by (simp add: budget_stack)
  then show ?case by (rule walk_branch [OF Branch.prems(1,3) room])
qed (simp_all)

end

end
