(* ===== verification/Dfl_Scan.thy ===== *)
theory Dfl_Scan
  imports Dfl_Spec
begin

text \<open>
  The two passes of the walker as instances of \<open>dfl_pass\<close>, and the whole scan,
  \<open>common_dfl_scan_multi_interfaces\<close>: what it does on every Device Feature List whose branches
  nest at most six deep, and how it fails on the others.
\<close>

section \<open>The counting pass\<close>

definition counted :: "FPGA_INTERFACE_INFO list \<Rightarrow> 'e cmn_state_scheme \<Rightarrow> 'e cmn_state_scheme \<Rightarrow> bool" where
  "counted xs s t \<longleftrightarrow>
     (\<exists>st. t = s\<lparr>s_scanned_interface_count := s_scanned_interface_count s + int (length xs),
                dfh_parent_stack := st\<rparr>)"

definition count_budget :: "nat \<Rightarrow> 'e cmn_state_scheme \<Rightarrow> bool" where
  "count_budget k s \<longleftrightarrow> s_scanned_interface_count s + int k \<le> INT_MAX"

lemma counted_fields:
  "counted xs s t \<Longrightarrow> s_scanned_interface_count t = s_scanned_interface_count s + int (length xs)"
  "counted xs s t \<Longrightarrow> s_interface_index t = s_interface_index s"
  "counted xs s t \<Longrightarrow> env t = env s \<and> mem t = mem s"
  by (auto simp: counted_def)

interpretation count_pass: dfl_pass False counted count_budget
proof unfold_locales
  fix k s a d ps p st fuel
  assume "count_budget (Suc k) s"
  then show "wp (visit False fuel a)
      (\<lambda>_ t. counted [row a d ps p] s t \<and> dfh_parent_stack t = dfh_parent_stack s) s"
    by (cases s) (auto simp: visit_def count_interface_def wp_rules count_budget_def counted_def)
next
  fix xs s t and k :: nat
  assume "counted xs s t" and "count_budget (length xs + k) s"
  then show "count_budget k t" by (simp add: count_budget_def counted_fields)
next
  fix s :: "'a cmn_state_scheme"
  show "counted [] s s" by (cases s) (simp add: counted_def)
next
  fix xs ys and s t u :: "'a cmn_state_scheme"
  assume "counted xs s t" and "counted ys t u"
  then show "counted (xs @ ys) s u"
    by (cases s; cases t; cases u) (simp add: counted_def)
next
  fix xs and s t :: "'a cmn_state_scheme" and a1 a2
  show "counted xs (s\<lparr>dfh_parent_stack := a1\<rparr>) (t\<lparr>dfh_parent_stack := a2\<rparr>) \<longleftrightarrow> counted xs s t"
    by (cases s; cases t) (simp add: counted_def)
next
  fix ys zs :: "FPGA_INTERFACE_INFO list" and t u :: "'a cmn_state_scheme"
  assume "length ys = length zs" and "counted ys t u"
  then show "counted zs t u" by (simp add: counted_def)
qed (simp_all add: count_budget_def counted_fields)

section \<open>The collecting pass\<close>

text \<open>The entries from the one after the current index on are replaced by the rows.\<close>

definition overwrite :: "nat \<Rightarrow> 'a list \<Rightarrow> 'a list \<Rightarrow> 'a list" where
  "overwrite n xs v = take n v @ xs @ drop (n + length xs) v"

definition next_index :: "'e cmn_state_scheme \<Rightarrow> nat" where
  "next_index s = nat (s_interface_index s + 1)"

definition collected :: "FPGA_INTERFACE_INFO list \<Rightarrow> 'e cmn_state_scheme \<Rightarrow> 'e cmn_state_scheme \<Rightarrow> bool" where
  "collected xs s t \<longleftrightarrow>
     (\<exists>v st a. vec s = Some v \<and> - 1 \<le> s_interface_index s \<and> next_index s + length xs \<le> length v
       \<and> t = s\<lparr>g_common_fpga_interface_info_vec := Some (overwrite (next_index s) xs v),
               s_interface_index := s_interface_index s + int (length xs),
               live := live s + sum_list (map blocks_of_info xs),
               alloc_no := a, dfh_parent_stack := st\<rparr>)"

definition collect_budget :: "nat \<Rightarrow> 'e cmn_state_scheme \<Rightarrow> bool" where
  "collect_budget k s \<longleftrightarrow>
     allocs_ok s \<and> - 1 \<le> s_interface_index s \<and> s_interface_index s + int k \<le> INT_MAX
     \<and> (\<exists>v. vec s = Some v \<and> next_index s + k \<le> length v
          \<and> (\<forall>j < k. v ! (next_index s + j) = zero_info))"

lemma overwrite_simps:
  "n \<le> length v \<Longrightarrow> overwrite n [] v = v"
  "n + length xs \<le> length v \<Longrightarrow> length (overwrite n xs v) = length v"
  "n + length xs + length ys \<le> length v \<Longrightarrow>
     overwrite (n + length xs) ys (overwrite n xs v) = overwrite n (xs @ ys) v"
  by (simp_all add: overwrite_def ac_simps)

lemma overwrite_nth:
  "n + length xs + j < length v \<Longrightarrow> overwrite n xs v ! (n + length xs + j) = v ! (n + length xs + j)"
  by (simp add: overwrite_def nth_append)

lemma overwrite_one: "n < length v \<Longrightarrow> overwrite n [x] v = v[n := x]"
  by (simp add: overwrite_def upd_conv_take_nth_drop)

lemma blocks_of_row:
  "blocks_of_info (row a d ps p) = (if blocks ps = [] then 0 else 1 + int (length (blocks ps)))"
proof -
  have data: "data q \<noteq> None" if "q \<in> set (blocks ps)" for q
    using that by (induction ps rule: params_induct) (auto simp: param_of_def)
  have sum: "sum_list (map blocks_of_param qs) = int (length qs)"
    if "\<forall>q\<in>set qs. data q \<noteq> None" for qs
    using that by (induction qs) (simp_all add: blocks_of_param_def)
  show ?thesis
    by (simp add: row_def params_result_def blocks_of_info_def param_array_def sum data
        interface_of_def)
qed

lemma visit_collect:
  assumes bud: "collect_budget (Suc k) s" and d: "dfh_at (dfl_view s) a d"
    and ps: "dfh_params_at (dfl_view s) a d (blocks ps) (null_ended ps)"
    and st: "stack_inv (dfh_parent_stack s)" "stack_list (dfh_parent_stack s) = p # st"
    and fuel: "length (blocks ps) < fuel"
  shows "wp (visit True fuel a)
      (\<lambda>_ t. collected [row a d ps p] s t \<and> dfh_parent_stack t = dfh_parent_stack s) s"
proof -
  let ?i = "s_interface_index s + 1"
  define s1 where "s1 = s\<lparr>s_interface_index := ?i\<rparr>"
  from bud obtain v where v: "vec s = Some v" "next_index s < length v" "v ! next_index s = zero_info"
    and i: "- 1 \<le> s_interface_index s" "?i \<le> INT_MAX" and ok: "allocs_ok s"
    by (fastforce simp: collect_budget_def)
  have idx: "unat (uint_of_int ?i) = next_index s" using i by (simp add: next_index_def)
  have view: "dfl_view s1 = dfl_view s" unfolding s1_def by (rule dfl_view_cong) simp_all
  have s1: "has_info s1 (next_index s)" "info_at s1 (next_index s) = zero_info" "allocs_ok s1"
    using v ok by (simp_all add: s1_def has_info_def info_at_def allocs_ok_def)
  have "set_interface_properties fuel (next_index s) a s1 =
      Ret () (params_charge (next_index s) (blocks ps) (null_ended ps)
        (put_info (next_index s) (row a d ps p) s1))"
    unfolding row_def
    using run_set_interface_properties [of s1 a d "blocks ps" "null_ended ps" "next_index s" fuel p st]
      d ps st fuel s1 view by (simp add: s1_def)
  then have "visit True fuel a s =
      Ret () (params_charge (next_index s) (blocks ps) (null_ended ps)
        (put_info (next_index s) (row a d ps p) s1))"
    using i by (simp add: visit_def next_interface_index_def run_rules idx flip: s1_def)
  then have "wp (visit True fuel a) Q s =
      Q () (params_charge (next_index s) (blocks ps) (null_ended ps)
        (put_info (next_index s) (row a d ps p) s1))" for Q
    by (simp add: wp_def)
  then show ?thesis
    using v i
    by (cases s) (auto simp: collected_def params_charge_def put_info_def charge_def s1_def
        overwrite_one blocks_of_row)
qed

lemma collected_fields:
  assumes "collected xs s t"
  shows "s_interface_index t = s_interface_index s + int (length xs)"
    and "env t = env s" and "mem t = mem s" and "next_index t = next_index s + length xs"
  using assms by (auto simp: collected_def next_index_def)

lemma collected_budget:
  assumes c: "collected xs s t" and b: "collect_budget (length xs + k) s"
  shows "collect_budget k t"
proof -
  from b obtain v where v: "vec s = Some v" "next_index s + (length xs + k) \<le> length v"
    "\<forall>j < length xs + k. v ! (next_index s + j) = zero_info"
    by (auto simp: collect_budget_def)
  with c have vt: "vec t = Some (overwrite (next_index s) xs v)" by (auto simp: collected_def)
  have "overwrite (next_index s) xs v ! (next_index t + j) = zero_info" if "j < k" for j
  proof -
    have "v ! (next_index s + (length xs + j)) = zero_info" using v(3) that by simp
    then show ?thesis
      using overwrite_nth [of "next_index s" xs j v] v(2) that
      by (simp add: collected_fields(4) [OF c] ac_simps)
  qed
  with b v vt show ?thesis
    by (auto simp: collect_budget_def collected_fields [OF c] overwrite_simps allocs_ok_def)
qed

lemma collected_append:
  assumes c: "collected xs s t" and d: "collected ys t u"
  shows "collected (xs @ ys) s u"
proof -
  from c obtain v where v: "vec s = Some v" "next_index s + length xs \<le> length v"
    "- 1 \<le> s_interface_index s"
    "vec t = Some (overwrite (next_index s) xs v)"
    by (auto simp: collected_def)
  from d v(4) have "next_index t + length ys \<le> length (overwrite (next_index s) xs v)"
    by (auto simp: collected_def)
  then have le: "next_index s + length xs + length ys \<le> length v"
    by (simp add: collected_fields(4) [OF c] overwrite_simps v(2))
  from d v(4) obtain st a where
    "u = t\<lparr>g_common_fpga_interface_info_vec := Some (overwrite (next_index s) (xs @ ys) v),
           s_interface_index := s_interface_index t + int (length ys),
           live := live t + sum_list (map blocks_of_info ys),
           alloc_no := a, dfh_parent_stack := st\<rparr>"
    by (auto simp: collected_def collected_fields(4) [OF c] overwrite_simps(3) [OF le])
  moreover from c obtain st' a' where
    "t = s\<lparr>g_common_fpga_interface_info_vec := Some (overwrite (next_index s) xs v),
           s_interface_index := s_interface_index s + int (length xs),
           live := live s + sum_list (map blocks_of_info xs),
           alloc_no := a', dfh_parent_stack := st'\<rparr>"
    using v(1) by (auto simp: collected_def)
  ultimately show ?thesis
    using v le by (cases s) (auto simp: collected_def)
qed

interpretation collect_pass: dfl_pass True collected collect_budget
proof unfold_locales
  fix k and s :: "'a cmn_state_scheme" and a d ps p st fuel
  assume "collect_budget (Suc k) s" "dfh_at (dfl_view s) a d"
    "dfh_params_at (dfl_view s) a d (blocks ps) (null_ended ps)" "stack_inv (dfh_parent_stack s)"
    "stack_list (dfh_parent_stack s) = p # st" "length (blocks ps) < fuel"
  then show "wp (visit True fuel a)
      (\<lambda>_ t. collected [row a d ps p] s t \<and> dfh_parent_stack t = dfh_parent_stack s) s"
    by (rule visit_collect)
next
  fix k and s :: "'a cmn_state_scheme"
  assume "collect_budget k s"
  then show "collected [] s s"
    by (cases s) (auto simp: collected_def collect_budget_def overwrite_simps)
next
  fix xs and s t :: "'a cmn_state_scheme" and a1 a2
  show "collected xs (s\<lparr>dfh_parent_stack := a1\<rparr>) (t\<lparr>dfh_parent_stack := a2\<rparr>) \<longleftrightarrow> collected xs s t"
    by (cases s; cases t) (auto simp: collected_def next_index_def)
next
  fix k and s :: "'a cmn_state_scheme" and a1
  show "collect_budget k (s\<lparr>dfh_parent_stack := a1\<rparr>) \<longleftrightarrow> collect_budget k s"
    by (simp add: collect_budget_def allocs_ok_def next_index_def)
next
  fix xs ys zs and s t u :: "'a cmn_state_scheme"
  assume "collected xs s t" and "collected ys t u"
    and "s_interface_index t = s_interface_index s + int (length xs) \<Longrightarrow> ys = zs"
  then show "collected zs t u" using collected_fields by blast
qed (blast intro: collected_budget collected_append | simp add: collected_fields)+

section \<open>The whole scan\<close>

lemma info_ok_row: "info_ok (row a d ps p)"
  by (simp add: row_def params_result_def info_ok_def interface_of_def)

lemma rows_ok:
  "list_all info_ok (rows_level a p c x)"
  "list_all info_ok (rows_params a c ps)"
  "list_all info_ok (rows_branch a c br)"
  by (induction x and ps and br arbitrary: a p c and a c and a c) (simp_all add: info_ok_row)

text \<open>What a scan never changes.\<close>

definition same_rest :: "'e cmn_state_scheme \<Rightarrow> 'e cmn_state_scheme \<Rightarrow> bool" where
  "same_rest s t \<longleftrightarrow> env t = env s \<and> mem t = mem s \<and> out t = out s
     \<and> g_common_fpga_platform_printf t = g_common_fpga_platform_printf s
     \<and> g_common_fpga_platform_runtime_exception_handler t
         = g_common_fpga_platform_runtime_exception_handler s
     \<and> g_common_show_dbg_msg t = g_common_show_dbg_msg s
     \<and> cmn_state.more t = cmn_state.more s"

text \<open>The allocated stack between and after the passes: eight slots and no entry.\<close>

definition empty_stack :: "DFH_PARENT_STACK \<Rightarrow> bool" where
  "empty_stack st \<longleftrightarrow>
     stack_inv st \<and> stack_list st = [] \<and> stack_room st = 7 \<and> stack_size st = 8"

lemma empty_stack_top: "empty_stack st \<Longrightarrow> \<exists>xs. st = \<lparr>stack_head = Some xs, stack_top = 0, stack_size = 8\<rparr>"
  by (cases st) (auto simp: empty_stack_def stack_inv_def stack_room_def split: option.splits)

lemma wp_scan_the_num:
  assumes st: "dfh_parent_stack s = zero_stack" and ok: "allocs_ok s"
    and x: "dfl_at (dfl_view s) a x" "depth_level x \<le> 6" "fuel_level x \<le> fuel"
    and cnt: "s_scanned_interface_count s + int (size_level x) \<le> INT_MAX"
  shows "wp (scan_the_num_interfaces fuel a)
     (\<lambda>_ t. \<exists>al st'. empty_stack st'
        \<and> t = s\<lparr>s_scanned_interface_count := s_scanned_interface_count s + int (size_level x),
                live := live s + 1, alloc_no := al, dfh_parent_stack := st'\<rparr>) s"
proof -
  define s1 where "s1 = s\<lparr>alloc_no := Suc (alloc_no s), live := live s + 1,
      dfh_parent_stack := first_stack (-1)\<rparr>"
  have view: "dfl_view s1 = dfl_view s" unfolding s1_def by (rule dfl_view_cong) simp_all
  have "wp (deal_with_interface_at_current_level fuel a False)
      (\<lambda>_ t. counted (rows_level a (-1) (s_interface_index s1) x) s1 t
         \<and> less_stack (dfh_parent_stack s1) (dfh_parent_stack t)) s1"
    by (rule count_pass.walk(1) [where k = 0 and st = "[]"])
      (use x view cnt in \<open>simp_all add: s1_def count_budget_def\<close>)
  then have "wp (deal_with_interface_at_current_level fuel a False)
      (\<lambda>_ t. \<exists>al st'. empty_stack st'
         \<and> t = s\<lparr>s_scanned_interface_count := s_scanned_interface_count s + int (size_level x),
                 live := live s + 1, alloc_no := al, dfh_parent_stack := st'\<rparr>) s1"
    by (rule wp_mono) (cases s, auto simp: counted_def length_rows s1_def less_stack_def
        empty_stack_def)
  with st ok show ?thesis
    by (simp add: scan_the_num_interfaces_def wp_thn wp_push_first allocs_ok_def s1_def)
qed

lemma vec_blocks_zero:
  "vec_abs s = replicate n zero_info \<Longrightarrow> vec s \<noteq> None \<Longrightarrow> vec_blocks s = 1"
  by (simp add: vec_blocks_abs sum_list_replicate)

text \<open>A resize to the present size changes nothing.\<close>

lemma resized_self:
  assumes "vec_inv s" and "0 < vec_size s"
  shows "resized (vec_size s) s = s"
proof -
  from assms obtain xs where xs: "vec s = Some xs" "length xs = vec_reserved s"
    "vec_size s \<le> vec_reserved s"
    "drop (vec_size s) xs = replicate (vec_reserved s - vec_size s) zero_info"
    by (cases "vec s") (auto simp: vec_inv_def)
  have "take (vec_size s) xs @ replicate (vec_reserved s - vec_size s) zero_info = xs"
    by (metis xs(4) append_take_drop_id)
  with assms(2) xs show ?thesis
    by (cases s) (simp add: resized_def list_resize_def reserved_after_def vec_abs_def max_def)
qed

lemma wp_resize_self:
  assumes "vec_inv s" and "0 < vec_size s"
  shows "wp (common_fpga_interface_info_vec_resize (vec_size s)) Q s = Q () s"
proof -
  have "vec_size s \<le> vec_reserved s" using assms by (auto simp: vec_inv_def split: option.splits)
  then show ?thesis by (subst wp_resize [OF assms(1)]) (simp_all add: resized_self [OF assms])
qed

lemma wp_resize_ok:
  "vec_inv s \<Longrightarrow> allocs_ok s \<Longrightarrow>
   wp (common_fpga_interface_info_vec_resize n) Q s = Q () (resized n s)"
  by (rule wp_resize) (simp_all add: allocs_ok_def)

lemma wp_resize_0:
  "vec_inv s \<Longrightarrow> wp (common_fpga_interface_info_vec_resize 0) Q s = Q () (resized 0 s)"
  by (rule wp_resize) simp_all

text \<open>A vector of zeroed entries that the pass has filled.\<close>

lemma collected_all:
  assumes inv: "vec_inv s" and abs: "vec_abs s = replicate (size_level x) zero_info"
    and idx: "s_interface_index s = - 1" and t: "collected (rows a x) s t"
  shows "vec_inv t \<and> vec_abs t = rows a x \<and> same_rest s t
     \<and> live t - vec_blocks t = live s - vec_blocks s"
proof -
  have len: "length (rows a x) = size_level x" by (simp add: rows_def length_rows)
  have size: "vec_size s = size_level x" using length_vec_abs [OF inv] abs by simp
  from t idx obtain v al st where v: "vec s = Some v"
    and teq: "t = s\<lparr>g_common_fpga_interface_info_vec := Some (rows a x @ drop (size_level x) v),
        s_interface_index := int (size_level x) - 1,
        live := live s + sum_list (map blocks_of_info (rows a x)),
        alloc_no := al, dfh_parent_stack := st\<rparr>"
    by (auto simp: collected_def overwrite_def len next_index_def)
  have abs_t: "vec_abs t = rows a x" by (simp add: teq vec_abs_def size len)
  have "vec_inv t"
    using inv v len rows_ok(1) [of a "-1" "-1" x] size_level_pos [of x]
    by (auto simp: teq vec_inv_def size rows_def list_all_replicate_zero)
  moreover have "live t - vec_blocks t = live s - vec_blocks s"
    using vec_blocks_zero [OF abs] v by (simp add: vec_blocks_abs [of t] abs_t) (simp add: teq)
  ultimately show ?thesis using abs_t by (simp add: teq same_rest_def)
qed

text \<open>Such a vector can be filled.\<close>

lemma zeroed_budget:
  assumes inv: "vec_inv s" and abs: "vec_abs s = replicate (size_level x) zero_info"
    and ok: "allocs_ok s" and cnt: "int (size_level x) \<le> INT_MAX" and idx: "s_interface_index s = - 1"
  shows "collect_budget (size_level x) s"
proof -
  have size: "vec_size s = size_level x" using length_vec_abs [OF inv] abs by simp
  from inv size size_level_pos [of x] obtain v where v: "vec s = Some v" "size_level x \<le> length v"
    by (cases "vec s") (auto simp: vec_inv_def)
  have "v ! j = zero_info" if "j < size_level x" for j
    using abs that v by (metis size vec_abs_def option.case(2) nth_take nth_replicate)
  with v ok cnt idx show ?thesis by (simp add: collect_budget_def next_index_def)
qed

lemma wp_collect:
  assumes inv: "vec_inv s" and abs: "vec_abs s = replicate (size_level x) zero_info"
    and st: "empty_stack (dfh_parent_stack s)" and ok: "allocs_ok s"
    and x: "dfl_at (dfl_view s) a x" "depth_level x \<le> 6" "fuel_level x \<le> fuel"
    and cnt: "int (size_level x) \<le> INT_MAX" and idx: "s_interface_index s = - 1"
  shows "wp (dfl_collect_interfaces_info fuel a)
     (\<lambda>_ t. vec_inv t \<and> vec_abs t = rows a x \<and> same_rest s t
        \<and> live t - vec_blocks t = live s - vec_blocks s
        \<and> empty_stack (dfh_parent_stack t)) s" (is "wp _ ?Q s")
proof -
  define s1 where "s1 = s\<lparr>dfh_parent_stack := pushed (-1) (dfh_parent_stack s)\<rparr>"
  have "dfh_parent_stack_push (-1) s = Ret () s1"
    unfolding s1_def by (rule run_push) (use st in \<open>simp_all add: empty_stack_def\<close>)
  then have push: "wp (dfh_parent_stack_push (-1)) Q s = Q () s1" for Q by (rule wp_Ret)
  have inv1: "vec_inv s1" "vec_size s1 = size_level x"
    using inv vec_cong(1) [of s1 s] length_vec_abs [OF inv] abs by (simp_all add: s1_def)
  have view: "dfl_view s1 = dfl_view s" unfolding s1_def by (rule dfl_view_cong) simp_all
  have stk: "stack_inv (dfh_parent_stack s1)" "stack_list (dfh_parent_stack s1) = [-1]"
    "stack_room (dfh_parent_stack s1) = 6" "stack_size (dfh_parent_stack s1) = 8"
    using st pushed_inv [of "dfh_parent_stack s" "-1"] by (simp_all add: empty_stack_def s1_def)
  have "wp (deal_with_interface_at_current_level fuel a True)
      (\<lambda>_ t. collected (rows_level a (-1) (s_interface_index s1) x) s1 t
         \<and> less_stack (dfh_parent_stack s1) (dfh_parent_stack t)) s1"
    by (rule collect_pass.walk(1) [where k = 0 and st = "[]"])
      (use x view stk zeroed_budget [OF inv abs ok cnt idx] in
        \<open>simp_all add: s1_def collect_pass.budget_stack\<close>)
  then have "wp (deal_with_interface_at_current_level fuel a True) ?Q s1"
  proof (rule wp_mono)
    fix t
    assume t: "collected (rows_level a (-1) (s_interface_index s1) x) s1 t
         \<and> less_stack (dfh_parent_stack s1) (dfh_parent_stack t)"
    then have "collected (rows a x) s t"
      using idx by (simp add: s1_def rows_def collect_pass.visited_stack')
    with collected_all [OF inv abs idx] t stk show "?Q () t"
      by (simp add: empty_stack_def less_stack_def)
  qed
  moreover have "0 < vec_size s1" using inv1 size_level_pos [of x] by simp
  ultimately show ?thesis
    using wp_resize_self [OF inv1(1)]
    by (simp add: dfl_collect_interfaces_info_def wp_thn wp_bnd wp_vec_size push)
qed

lemma wp_release_stack:
  assumes "empty_stack (dfh_parent_stack s)"
  shows "wp (dfh_parent_stack_resize 0) Q s =
     Q () (s\<lparr>live := live s - 1, dfh_parent_stack := zero_stack\<rparr>)"
proof -
  from empty_stack_top [OF assms] obtain xs where
    "dfh_parent_stack s = \<lparr>stack_head = Some xs, stack_top = 0, stack_size = 8\<rparr>" by blast
  then show ?thesis
    by (simp add: dfh_parent_stack_resize_def wp_rules zero_stack_def)
qed

text \<open>What a scan of the tree \<open>x\<close> at address \<open>a\<close> achieves.\<close>

definition scanned :: "u64 \<Rightarrow> dfl_level \<Rightarrow> 'e cmn_state_scheme \<Rightarrow> 'e cmn_state_scheme \<Rightarrow> bool" where
  "scanned a x s t \<longleftrightarrow>
     vec_inv t \<and> vec_abs t = rows a x \<and> same_rest s t
     \<and> live t - vec_blocks t = live s - vec_blocks s
     \<and> dfh_parent_stack t = zero_stack"

text \<open>When a scan is safe: the vector is well formed, the stack released, memory is granted.\<close>

definition scan_ready :: "'e cmn_state_scheme \<Rightarrow> bool" where
  "scan_ready s \<longleftrightarrow> vec_inv s \<and> dfh_parent_stack s = zero_stack \<and> allocs_ok s"

definition tree_fits :: "dfl_level \<Rightarrow> bool" where
  "tree_fits x \<longleftrightarrow> depth_level x \<le> 6 \<and> int (size_level x) \<le> INT_MAX"

text \<open>The second half of a scan: a table of zeroed entries is made and filled.\<close>

lemma wp_second_pass:
  assumes t: "vec t = None" "vec_size t = 0" "vec_reserved t = 0" "empty_stack (dfh_parent_stack t)"
    and ok: "allocs_ok t" and x: "dfl_at (dfl_view t) a x" "tree_fits x" "fuel_level x \<le> fuel"
  shows "wp (thn (common_fpga_interface_info_vec_resize (size_level x))
    (thn (modify (\<lambda>s. s\<lparr>s_interface_index := -1\<rparr>))
    (thn (dfl_collect_interfaces_info fuel a) (dfh_parent_stack_resize 0))))
    (\<lambda>_ w. vec_inv w \<and> vec_abs w = rows a x \<and> same_rest t w
       \<and> live w - vec_blocks w = live t - 1 \<and> dfh_parent_stack w = zero_stack) t" (is "wp _ ?Q t")
proof -
  let ?n = "size_level x"
  have n: "0 < ?n" "int ?n \<le> INT_MAX" "depth_level x \<le> 6"
    using x(2) size_level_pos [of x] by (simp_all add: tree_fits_def)
  have inv: "vec_inv t" by (simp add: vec_inv_def t)
  define u where "u = (resized ?n t)\<lparr>s_interface_index := -1\<rparr>"
  have vu: "vec_inv u" "vec_abs u = replicate ?n zero_info" "vec u \<noteq> None"
    using resized_inv [OF inv, of ?n] vec_cong [of u "resized ?n t"] n resized_abs [OF inv, of ?n] t
    by (simp_all add: u_def vec_abs_def [of t] list_resize_def resized_vec)
  have "wp (dfl_collect_interfaces_info fuel a)
     (\<lambda>_ w. vec_inv w \<and> vec_abs w = rows a x \<and> same_rest u w
        \<and> live w - vec_blocks w = live u - vec_blocks u \<and> empty_stack (dfh_parent_stack w)) u"
  proof (rule wp_collect)
    have "dfl_view u = dfl_view t" by (rule dfl_view_cong) (simp_all add: u_def)
    then show "dfl_at (dfl_view u) a x" using x by simp
  qed (use vu n t ok x in \<open>simp_all add: u_def allocs_ok_def\<close>)
  then have "wp (thn (dfl_collect_interfaces_info fuel a) (dfh_parent_stack_resize 0)) ?Q u"
  proof (rule wp_thn_then)
    fix w
    assume w: "vec_inv w \<and> vec_abs w = rows a x \<and> same_rest u w
        \<and> live w - vec_blocks w = live u - vec_blocks u \<and> empty_stack (dfh_parent_stack w)"
    have "same_rest t u" by (simp add: u_def same_rest_def resized_def)
    moreover have "live u = live t + 1" using t n by (simp add: u_def resized_def vec_abs_def)
    ultimately show "wp (dfh_parent_stack_resize 0) ?Q w"
      using w vec_blocks_zero [OF vu(2,3)]
        vec_cong [of "w\<lparr>live := live w - 1, dfh_parent_stack := zero_stack\<rparr>" w]
      by (simp add: wp_release_stack same_rest_def)
  qed
  then show ?thesis using inv ok by (simp add: wp_thn wp_modify wp_resize_ok u_def)
qed

lemma wp_scan:
  assumes ready: "scan_ready s" and x: "dfl_at (dfl_view s) a x" "tree_fits x"
    and fuel: "fuel_level x \<le> fuel"
  shows "wp (common_dfl_scan_multi_interfaces fuel a dec) (\<lambda>_. scanned a x s) s"
proof -
  let ?n = "size_level x"
  let ?s0 = "s\<lparr>s_scanned_interface_count := 0\<rparr>"
  have inv: "vec_inv ?s0" and bl: "vec_blocks ?s0 = vec_blocks s"
    using ready vec_cong [of ?s0 s] by (simp_all add: scan_ready_def)
  define s1 where "s1 = resized 0 ?s0"
  have s1: "vec s1 = None" "vec_size s1 = 0" "vec_reserved s1 = 0" "s_scanned_interface_count s1 = 0"
      "dfh_parent_stack s1 = zero_stack" "allocs_ok s1" "same_rest s s1"
    using ready
    by (simp_all add: s1_def resized_vec reserved_after_def same_rest_def scan_ready_def allocs_ok_def)
      (simp_all add: resized_def)
  have live1: "live s1 = live s - vec_blocks s"
    using resized_live [OF inv, of 0] s1(1) bl by (simp add: s1_def vec_blocks_abs [of "resized 0 ?s0"])
  have view1: "dfl_view s1 = dfl_view s"
    by (rule dfl_view_cong) (use s1(7) in \<open>simp_all add: same_rest_def\<close>)
  have "wp (thn (scan_the_num_interfaces fuel a) (bnd (gets s_scanned_interface_count) (\<lambda>n.
     thn (common_fpga_interface_info_vec_resize (size_t_of_int n))
    (thn (modify (\<lambda>s. s\<lparr>s_interface_index := -1\<rparr>))
    (thn (dfl_collect_interfaces_info fuel a)
         (dfh_parent_stack_resize 0)))))) (\<lambda>_. scanned a x s) s1"
  proof (rule wp_thn_then [OF wp_scan_the_num [OF s1(5,6)]])
    fix t
    assume t: "\<exists>al st'. empty_stack st'
        \<and> t = s1\<lparr>s_scanned_interface_count := s_scanned_interface_count s1 + int ?n,
                live := live s1 + 1, alloc_no := al, dfh_parent_stack := st'\<rparr>"
    then have f: "vec t = None" "vec_size t = 0" "vec_reserved t = 0" "empty_stack (dfh_parent_stack t)"
      "allocs_ok t" "live t = live s1 + 1" "s_scanned_interface_count t = int ?n" "same_rest s t"
      using s1 by (auto simp: allocs_ok_def same_rest_def)
    have "dfl_view t = dfl_view s1" by (rule dfl_view_cong) (use t in auto)
    then have "dfl_at (dfl_view t) a x" using x(1) view1 by simp
    from wp_second_pass [OF f(1-5) this x(2) fuel] f(7)
    show "wp (bnd (gets s_scanned_interface_count) (\<lambda>n.
       thn (common_fpga_interface_info_vec_resize (size_t_of_int n))
      (thn (modify (\<lambda>s. s\<lparr>s_interface_index := -1\<rparr>))
      (thn (dfl_collect_interfaces_info fuel a)
           (dfh_parent_stack_resize 0))))) (\<lambda>_. scanned a x s) t"
      using x(2) f(6,8) live1
      by (simp add: wp_bnd wp_gets tree_fits_def) (erule wp_mono, auto simp: scanned_def same_rest_def)
  qed (use x view1 fuel s1(4) in \<open>simp_all add: tree_fits_def\<close>)
  then show ?thesis
    using inv by (simp add: common_dfl_scan_multi_interfaces_def s1_def wp_modify wp_thn wp_bnd wp_gets wp_resize_0)
qed

end
