(* ===== verification/Dfl_Limits.thy ===== *)
theory Dfl_Limits
  imports Dfl_Scan
begin

text \<open>
  The limits of the walker.  The parent numbers: the documented rule (the parent of an interface
  is the interface whose header holds the branch) against the library's (the entry collected
  last when the branch is met); the two agree exactly on the trees in which no parameter list has
  two branches.  The depth: one branch level more than six makes the parent stack write behind
  its array.  And lists that do not end: a header that points to itself keeps the first pass
  going for ever.
\<close>

section \<open>Parent numbers\<close>

primrec doc_level :: "u64 \<Rightarrow> int \<Rightarrow> int \<Rightarrow> dfl_level \<Rightarrow> FPGA_INTERFACE_INFO list"
and doc_params :: "u64 \<Rightarrow> int \<Rightarrow> int \<Rightarrow> dfl_params \<Rightarrow> FPGA_INTERFACE_INFO list"
and doc_branch :: "u64 \<Rightarrow> int \<Rightarrow> int \<Rightarrow> dfl_branch \<Rightarrow> FPGA_INTERFACE_INFO list" where
  "doc_level a parent cur (Last_dfh d ps) =
     row a d ps parent # doc_params a (cur + 1) (cur + 1) ps"
| "doc_level a parent cur (Next_dfh d ps x) =
     row a d ps parent # doc_params a (cur + 1) (cur + 1) ps
     @ doc_level (get_next_dfh_addr (dfh_word d) a) parent (cur + 1 + int (size_params ps)) x"
| "doc_params a own cur No_params = []"
| "doc_params a own cur (Null_block h) = []"
| "doc_params a own cur (Last_block h ws br) = doc_branch a own cur br"
| "doc_params a own cur (Block h ws br ps) =
     doc_branch a own cur br @ doc_params a own (cur + int (size_branch br)) ps"
| "doc_branch a own cur No_branch = []"
| "doc_branch a own cur (Branch b x) = doc_level (branch_target a b) own cur x"

definition documented_rows :: "u64 \<Rightarrow> dfl_level \<Rightarrow> FPGA_INTERFACE_INFO list" where
  "documented_rows a x = doc_level a (-1) (-1) x"

lemma length_doc:
  "length (doc_level a p c x) = size_level x"
  "length (doc_params a own c ps) = size_params ps"
  "length (doc_branch a own c br) = size_branch br"
  by (induction x and ps and br arbitrary: a p c and a own c and a own c) simp_all

primrec branches :: "dfl_params \<Rightarrow> nat" where
  "branches No_params = 0"
| "branches (Null_block h) = 0"
| "branches (Last_block h ws br) = (if br = No_branch then 0 else 1)"
| "branches (Block h ws br ps) = (if br = No_branch then 0 else 1) + branches ps"

primrec one_branch :: "dfl_level \<Rightarrow> bool" and one_branch_params :: "dfl_params \<Rightarrow> bool"
and one_branch_branch :: "dfl_branch \<Rightarrow> bool" where
  "one_branch (Last_dfh d ps) \<longleftrightarrow> branches ps \<le> 1 \<and> one_branch_params ps"
| "one_branch (Next_dfh d ps x) \<longleftrightarrow> branches ps \<le> 1 \<and> one_branch_params ps \<and> one_branch x"
| "one_branch_params No_params \<longleftrightarrow> True"
| "one_branch_params (Null_block h) \<longleftrightarrow> True"
| "one_branch_params (Last_block h ws br) \<longleftrightarrow> one_branch_branch br"
| "one_branch_params (Block h ws br ps) \<longleftrightarrow> one_branch_branch br \<and> one_branch_params ps"
| "one_branch_branch No_branch \<longleftrightarrow> True"
| "one_branch_branch (Branch b x) \<longleftrightarrow> one_branch x"

lemma dfh_parent_row: "dfh_parent (row a d ps p) = p"
  by (simp add: row_def params_result_def interface_of_def)

lemma first_parent:
  "dfh_parent (hd (rows_level a p c x)) = p" "dfh_parent (hd (doc_level a p c x)) = p"
  by (cases x; simp add: dfh_parent_row)+

lemma size_level_nonempty: "rows_level a p c x \<noteq> []"
  using length_rows(1) [of a p c x] size_level_pos [of x] by force

text \<open>Once a branch has been followed, every later branch of the list gets another parent.\<close>

lemma rows_other_parent:
  "own \<noteq> c \<Longrightarrow> own < c \<Longrightarrow> rows_params a c ps = doc_params a own c ps \<longleftrightarrow> branches ps = 0"
proof (induction ps arbitrary: c rule: params_induct)
  case (Last_block h ws br)
  then show ?case
    by (cases br) (auto dest: arg_cong [of _ _ "\<lambda>xs. dfh_parent (hd xs)"] simp: first_parent)
next
  case (Block h ws br ps)
  show ?case
  proof (cases br)
    case No_branch
    with Block show ?thesis by simp
  next
    case (Branch b x)
    have "rows_level (branch_target a b) c c x \<noteq> doc_level (branch_target a b) own c x"
      using Block.prems by (metis first_parent)
    with Branch show ?thesis by (simp add: append_eq_append_conv length_rows length_doc)
  qed
qed simp_all

lemma rows_doc:
  "rows_level a p c x = doc_level a p c x \<longleftrightarrow> one_branch x"
  "rows_params a c ps = doc_params a c c ps \<longleftrightarrow> branches ps \<le> 1 \<and> one_branch_params ps"
  "rows_branch a c br = doc_branch a c c br \<longleftrightarrow> one_branch_branch br"
proof (induction x and ps and br arbitrary: a p c and a c and a c)
  case (Block h ws br ps)
  show ?case
  proof (cases br)
    case No_branch
    with Block.IH(2) show ?thesis by simp
  next
    case (Branch b x)
    have "one_branch_params qs" if "branches qs = 0" for qs
      using that by (induction qs rule: params_induct) (auto split: if_splits)
    moreover have "rows_params a (c + int (size_branch br)) ps
        = doc_params a c (c + int (size_branch br)) ps \<longleftrightarrow> branches ps = 0"
      using rows_other_parent [of c "c + int (size_branch br)"] size_level_pos [of x] Branch by simp
    ultimately show ?thesis
      using Block.IH(1) [of a c] Branch
      by (auto simp: append_eq_append_conv length_rows length_doc)
  qed
qed (simp_all add: append_eq_append_conv length_rows length_doc)

section \<open>Trees that nest too deep\<close>

definition overflows :: "('a, 'e cmn_state_scheme) prog \<Rightarrow> 'e cmn_state_scheme \<Rightarrow> bool" where
  "overflows m s \<longleftrightarrow> (\<exists>t. m s = Stop (Undefined_behaviour Out_of_bounds) t)"

lemma overflows_bnd: "overflows m s \<Longrightarrow> overflows (bnd m k) s"
  by (auto simp: overflows_def run_rules)

lemma overflows_thn: "overflows m s \<Longrightarrow> overflows (thn m k) s"
  by (simp add: thn_def overflows_bnd)

lemma overflows_later: "wp m (\<lambda>x t. overflows (k x) t) s \<Longrightarrow> overflows (bnd m k) s"
  by (auto simp: wp_def overflows_def run_rules split: outcome.splits)

lemma overflows_thn_later: "wp m (\<lambda>_ t. overflows k t) s \<Longrightarrow> overflows (thn m k) s"
  by (simp add: thn_def overflows_later)

lemma node_split:
  "thn m (bnd c (\<lambda>x. thn (if b x then f x else ret ()) k))
     = thn (thn m (bnd c (\<lambda>x. thn (if b x then f x else ret ()) (ret ())))) k"
  by (auto simp: fun_eq_iff run_rules split: outcome.split)

context dfl_pass
begin

lemma deep_params_case:
  assumes bud: "budget (Suc (size_params ps) + k) s" and d: "dfh_at (dfl_view s) a d"
    and at: "if has_params (dfh_csr_group d) then params_at (dfl_view s) a (a + 0x28) ps
             else ps = No_params"
    and st: "stack_inv (pstack s)" "stack_list (pstack s) = p # st"
    and fuel: "fuel_params ps \<le> fuel" and deep: "stack_room (pstack s) < depth_params ps"
    and IH: "\<And>h t. params_at (dfl_view t) a (a + 0x28) ps \<Longrightarrow> dfl_view t (a + 0x28) = Some h \<Longrightarrow>
        budget (size_params ps + k) t \<Longrightarrow> pstack t = pstack s \<Longrightarrow>
        overflows (process_param_loop fuel a (a + 0x28) h collect) t"
  shows "overflows (thn (visit collect fuel a)
     (bnd (get_x_feature_csr_group_size_64_data a) (\<lambda>csr.
      thn (if has_params csr then
             process_param_list_for_known_param_id fuel a (get_first_param_header_addr a) collect
           else ret ()) m))) s"
proof (rule overflows_thn_later)
  have has: "has_params (dfh_csr_group d)" using at deep by (auto split: if_splits)
  have len: "length (blocks ps) < fuel" using fuel_params_blocks [of ps] fuel by linarith
  have "dfh_params_at (dfl_view s) a d (blocks ps) (null_ended ps)"
    using at by (rule node_params_at)
  then have "wp (visit collect fuel a)
      (\<lambda>_ t. visited [row a d ps p] s t \<and> pstack t = pstack s) s"
    by (intro visit_law [of "size_params ps + k"]) (use bud d st len in simp_all)
  then show "wp (visit collect fuel a) (\<lambda>_ t. overflows
     (bnd (get_x_feature_csr_group_size_64_data a) (\<lambda>csr.
      thn (if has_params csr then
             process_param_list_for_known_param_id fuel a (get_first_param_header_addr a) collect
           else ret ()) m)) t) s"
  proof (rule wp_mono)
    fix t
    assume v: "visited [row a d ps p] s t \<and> pstack t = pstack s"
    have view: "dfl_view t = dfl_view s" using v visited_view by blast
    have b: "budget (size_params ps + k) t"
      using v visited_budget [of "[row a d ps p]" s t "size_params ps + k"] bud by simp
    from at has view have pt: "params_at (dfl_view t) a (a + 0x28) ps" by simp
    from plist_at_header [OF params_plist [OF this]]
    obtain h where h: "dfl_view t (a + 0x28) = Some h" by blast
    have over: "overflows (process_param_list_for_known_param_id fuel a
        (get_first_param_header_addr a) collect) t"
      using IH [OF pt h b] v
      by (auto simp: get_first_param_header_addr_def wp_read_word [OF h]
          simp del: process_param_loop.simps intro!: overflows_later)
    show "overflows (bnd (get_x_feature_csr_group_size_64_data a) (\<lambda>csr.
      thn (if has_params csr then
             process_param_list_for_known_param_id fuel a (get_first_param_header_addr a) collect
           else ret ()) m)) t"
      by (rule overflows_later)
        (use d view has over in \<open>simp add: wp_csr_group overflows_thn
           del: process_param_list_for_known_param_id.simps\<close>)
  qed
qed

text \<open>The cases: the walk fails in a part, or the parts before it succeed.\<close>

lemma deep_next_case:
  fixes s :: "'e cmn_state_scheme"
  assumes "dfl_at (dfl_view s) a (Next_dfh d ps x)" and "budget (size_level (Next_dfh d ps x) + k) s"
    and "stack_inv (pstack s)" and "stack_list (pstack s) = p # st" and "fuel_params ps \<le> f"
    and ok: "depth_params ps \<le> stack_room (pstack s)"
    and level: "\<And>t. dfl_view t = dfl_view s \<Longrightarrow> budget (size_level x + k) t \<Longrightarrow>
        same_stack (pstack s) (pstack t) \<Longrightarrow>
        overflows (deal_with_interface_at_current_level f (get_next_dfh_addr (dfh_word d) a) collect) t"
  shows "overflows (deal_with_interface_at_current_level (Suc f) a collect) s"
  unfolding deal_visit
proof (subst node_split, rule overflows_thn_later,
    rule node [where k = "size_level x + k" and d = d and ps = ps and p = p and st = st])
  fix h t
  assume "params_at (dfl_view t) a (a + 0x28) ps" and "dfl_view t (a + 0x28) = Some h"
    and "budget (size_params ps + (size_level x + k)) t" and "pstack t = pstack s"
  then show "wp (process_param_loop f a (a + 0x28) h collect) (\<lambda>_. params_done a ps t) t"
    by (intro walk(2) [where k = "size_level x + k"]) (use assms in simp_all)
next
  fix t
  assume b: "budget (size_level x + k) t" and same: "same_stack (pstack s) (pstack t)"
    and d: "dfh_at (dfl_view t) a d" and view: "dfl_view t = dfl_view s"
  have "overflows (bnd (get_x_feature_dfh_start_64_data a) (\<lambda>w.
      if \<not> is_eol w then deal_with_interface_at_current_level f (get_next_dfh_addr w a) collect
      else dfh_parent_stack_pop)) t"
    by (rule overflows_later) (use level [OF view b same] d assms(1) in \<open>simp add: wp_dfh_start\<close>)
  then show "wp (ret ()) (\<lambda>_. overflows (bnd (get_x_feature_dfh_start_64_data a) (\<lambda>w.
      if \<not> is_eol w then deal_with_interface_at_current_level f (get_next_dfh_addr w a) collect
      else dfh_parent_stack_pop))) t"
    by (simp add: wp_ret)
qed (use assms in \<open>simp_all add: ac_simps\<close>)

lemma deep_block_case:
  fixes s :: "'e cmn_state_scheme"
  assumes at: "params_at (dfl_view s) a q (Block h ws br ps)"
    and bud: "budget (size_params (Block h ws br ps) + k) s" and inv: "stack_inv (pstack s)"
    and fuel: "fuel_branch br \<le> f" and ok: "depth_branch br \<le> stack_room (pstack s)"
    and params: "\<And>g t. dfl_view t = dfl_view s \<Longrightarrow>
        dfl_view t (q + get_next_param_byte_offset h) = Some g \<Longrightarrow>
        budget (size_params ps + k) t \<Longrightarrow> same_stack (pstack s) (pstack t) \<Longrightarrow>
        overflows (process_param_loop f a (q + get_next_param_byte_offset h) g collect) t"
  shows "overflows (process_param_loop (Suc f) a q h collect) s"
proof -
  let ?q' = "q + get_next_param_byte_offset h"
  have pt: "params_at (dfl_view s) a ?q' ps" using at by simp
  from plist_at_header [OF params_plist [OF pt]] obtain g where g: "dfl_view s ?q' = Some g" by blast
  have "wp (handle_well_known_param_id f a q (get_param_id h) collect) (\<lambda>_. branch_done a br s) s"
    by (rule walk(3) [where k = "size_params ps + k"])
      (use at bud inv fuel ok in \<open>simp_all add: ac_simps\<close>)
  then have "overflows (thn (handle_well_known_param_id f a q (get_param_id h) collect)
      (bnd (common_dfl_read_64 ?q' 0) (\<lambda>g. process_param_loop f a ?q' g collect))) s"
  proof (rule overflows_thn_later [OF wp_mono])
    fix t
    assume t: "branch_done a br s t"
    then have view: "dfl_view t = dfl_view s" using visited_view by blast
    have "budget (size_params ps + k) t"
      by (rule visited_budget [OF conjunct1 [OF t]]) (use bud in \<open>simp add: length_rows ac_simps\<close>)
    then have "overflows (process_param_loop f a ?q' g collect) t"
      by (intro params) (use view g t in simp_all)
    with g view show "overflows (bnd (common_dfl_read_64 ?q' 0)
        (\<lambda>g. process_param_loop f a ?q' g collect)) t"
      by (intro overflows_later) (simp add: wp_read_word del: process_param_loop.simps)
  qed
  with at show ?thesis by (simp del: handle_well_known_param_id.simps)
qed

lemma deep_branch_case:
  fixes s :: "'e cmn_state_scheme"
  assumes at: "branch_at (dfl_view s) a q h (Branch b x)" and inv: "stack_inv (pstack s)"
    and level: "0 < stack_room (pstack s) \<Longrightarrow>
        overflows (deal_with_interface_at_current_level fuel (branch_target a b) collect)
          (s\<lparr>dfh_parent_stack := pushed (s_interface_index s) (pstack s)\<rparr>)"
  shows "overflows (handle_well_known_param_id fuel a q (get_param_id h) collect) s"
proof -
  let ?i = "s_interface_index s"
  have id: "get_param_id h = PARAM_ID_BRANCH" using at by (simp add: is_branch_block_def)
  show ?thesis
  proof (cases "stack_room (pstack s) = 0")
    case True
    have "overflows (dfh_parent_stack_push ?i) s"
      using run_push_overflow [OF inv True] by (simp add: overflows_def)
    with id show ?thesis
      by (simp add: overflows_thn overflows_later wp_gets
          del: deal_with_interface_at_current_level.simps)
  next
    case False
    then have room: "0 < stack_room (pstack s)" by simp
    let ?s1 = "s\<lparr>dfh_parent_stack := pushed ?i (pstack s)\<rparr>"
    have "dfl_view ?s1 = dfl_view s" by (rule dfl_view_cong) simp_all
    then have "common_dfl_read_64 q 8 ?s1 = Ret b ?s1"
      using at common_dfl_read_64_view [of ?s1 q 8 b] by simp
    then have read: "wp (common_dfl_read_64 q 8) Q ?s1 = Q b ?s1" for Q :: "u64 \<Rightarrow> 'e cmn_state_scheme \<Rightarrow> bool"
      by (rule wp_Ret)
    have push: "wp (dfh_parent_stack_push ?i) Q s = Q () ?s1" for Q :: "unit \<Rightarrow> 'e cmn_state_scheme \<Rightarrow> bool"
      using run_push [OF inv room] by (rule wp_Ret)
    have "overflows (bnd (common_dfl_read_64 q 8) (\<lambda>w.
        deal_with_interface_at_current_level fuel (branch_target a w) collect)) ?s1"
      by (rule overflows_later)
        (use level [OF room] in \<open>simp add: read del: deal_with_interface_at_current_level.simps\<close>)
    with id show ?thesis
      by (simp add: overflows_later overflows_thn_later wp_gets push
          del: deal_with_interface_at_current_level.simps)
  qed
qed

text \<open>A walk whose tree nests deeper than the stack has room for ends in the write behind the
  array, whatever else is in the tree.\<close>

lemma too_deep:
  "dfl_at (dfl_view s) a x \<Longrightarrow> budget (size_level x + k) s \<Longrightarrow> stack_inv (pstack s) \<Longrightarrow>
   stack_list (pstack s) = p # st \<Longrightarrow> stack_room (pstack s) < depth_level x \<Longrightarrow>
   fuel_level x \<le> fuel \<Longrightarrow>
   overflows (deal_with_interface_at_current_level fuel a collect) s"
  "params_at (dfl_view s) a q ps \<Longrightarrow> dfl_view s q = Some h \<Longrightarrow> budget (size_params ps + k) s \<Longrightarrow>
   stack_inv (pstack s) \<Longrightarrow> stack_room (pstack s) < depth_params ps \<Longrightarrow>
   fuel_params ps \<le> fuel \<Longrightarrow>
   overflows (process_param_loop fuel a q h collect) s"
  "branch_at (dfl_view s) a q h br \<Longrightarrow> budget (size_branch br + k) s \<Longrightarrow>
   stack_inv (pstack s) \<Longrightarrow> stack_room (pstack s) < depth_branch br \<Longrightarrow>
   fuel_branch br \<le> fuel \<Longrightarrow>
   overflows (handle_well_known_param_id fuel a q (get_param_id h) collect) s"
proof (induction x and ps and br arbitrary: s a k p st fuel and s a q h k fuel and s a q h k fuel)
  case (Last_dfh d ps)
  then obtain f where f: "fuel = Suc f" by (cases fuel) auto
  show ?case
    unfolding f deal_visit
    by (rule deep_params_case [where d = d and ps = ps and p = p and st = st and k = k])
      (use Last_dfh.prems f in \<open>simp_all add: Last_dfh.IH [where k = k]\<close>)
next
  case (Next_dfh d ps x)
  then obtain f where f: "fuel = Suc f" by (cases fuel) auto
  show ?case
  proof (cases "stack_room (pstack s) < depth_params ps")
    case True
    show ?thesis
      unfolding f deal_visit
      by (rule deep_params_case [where d = d and ps = ps and p = p and st = st and k = "size_level x + k"])
        (use Next_dfh.prems f True in
          \<open>simp_all add: ac_simps Next_dfh.IH(1) [where k = "size_level x + k"]\<close>)
  next
    case False
    show ?thesis
      unfolding f
      by (rule deep_next_case [OF Next_dfh.prems(1-4)])
        (use Next_dfh.prems f False in
          \<open>auto simp: same_stack_def intro!: Next_dfh.IH(2) [where k = k and st = st]\<close>)
  qed
next
  case (Last_block h' ws br)
  then obtain f where f: "fuel = Suc f" by (cases fuel) auto
  have "overflows (handle_well_known_param_id f a q (get_param_id h') collect) s"
    by (rule Last_block.IH [where k = k]) (use Last_block.prems f in simp_all)
  with Last_block.prems f show ?case
    by (auto simp del: handle_well_known_param_id.simps intro: overflows_thn)
next
  case (Block h' ws br ps)
  then obtain f where f: "fuel = Suc f" by (cases fuel) auto
  have h: "h = h'" using Block.prems by simp
  show ?case
  proof (cases "stack_room (pstack s) < depth_branch br")
    case True
    have "overflows (handle_well_known_param_id f a q (get_param_id h') collect) s"
      by (rule Block.IH(1) [where k = "size_params ps + k"])
        (use Block.prems f True in \<open>simp_all add: ac_simps\<close>)
    with Block.prems f show ?thesis
      by (auto simp del: handle_well_known_param_id.simps intro: overflows_thn)
  next
    case False
    show ?thesis
      unfolding f h
      by (rule deep_block_case [OF Block.prems(1,3,4)])
        (use Block.prems f False in
          \<open>auto simp: same_stack_def intro!: Block.IH(2) [where k = k]\<close>)
  qed
next
  case (Branch b x)
  show ?case
  proof (rule deep_branch_case [OF Branch.prems(1,3)])
    let ?s1 = "s\<lparr>dfh_parent_stack := pushed (s_interface_index s) (pstack s)\<rparr>"
    assume room: "0 < stack_room (pstack s)"
    have "dfl_view ?s1 = dfl_view s" by (rule dfl_view_cong) simp_all
    with room pushed_inv [OF Branch.prems(3) room, of "s_interface_index s"] Branch.prems
    show "overflows (deal_with_interface_at_current_level fuel (branch_target a b) collect) ?s1"
      by (intro Branch.IH [where k = k and st = "stack_list (pstack s)"])
        (auto simp: budget_stack)
  qed
qed simp_all

end

text \<open>The start of a scan, up to the first header.\<close>

definition scan_start :: "'e cmn_state_scheme \<Rightarrow> 'e cmn_state_scheme" where
  "scan_start s =
     (let t = resized 0 (s\<lparr>s_scanned_interface_count := 0\<rparr>) in
      t\<lparr>alloc_no := Suc (alloc_no t), live := live t + 1, dfh_parent_stack := first_stack (-1)\<rparr>)"

lemma scan_start_simps [simp]:
  "env (scan_start s) = env s" "mem (scan_start s) = mem s"
  "dfh_parent_stack (scan_start s) = first_stack (-1)"
  "s_scanned_interface_count (scan_start s) = 0"
  by (simp_all add: scan_start_def Let_def)

lemma dfl_view_scan_start [simp]: "dfl_view (scan_start s) = dfl_view s"
  by (rule dfl_view_cong) simp_all

lemma scan_prefix:
  assumes "scan_ready s"
  shows "common_dfl_scan_multi_interfaces fuel a dec s =
    thn (deal_with_interface_at_current_level fuel a False)
    (bnd (gets s_scanned_interface_count) (\<lambda>n.
     thn (common_fpga_interface_info_vec_resize (size_t_of_int n))
    (thn (modify (\<lambda>s. s\<lparr>s_interface_index := -1\<rparr>))
    (thn (dfl_collect_interfaces_info fuel a)
         (dfh_parent_stack_resize 0))))) (scan_start s)"
proof -
  let ?s0 = "s\<lparr>s_scanned_interface_count := 0\<rparr>" and ?s1 = "resized 0 (s\<lparr>s_scanned_interface_count := 0\<rparr>)"
  have "vec_inv ?s0" using assms vec_cong(1) [of ?s0 s] by (simp add: scan_ready_def)
  from wp_resize_0 [OF this, where Q = "\<lambda>_ t. t = ?s1"]
  have "common_fpga_interface_info_vec_resize 0 ?s0 = Ret () ?s1" by (simp add: wp_returns_unit)
  moreover have "dfh_parent_stack_push (-1) ?s1 = Ret () (scan_start s)"
    using wp_push_first [of ?s1 "-1" "\<lambda>_ t. t = scan_start s"] assms
    by (simp add: wp_returns_unit [symmetric] scan_ready_def allocs_ok_def scan_start_def Let_def)
  ultimately show ?thesis
    by (simp add: common_dfl_scan_multi_interfaces_def scan_the_num_interfaces_def run_rules)
qed

lemma scan_overflows:
  assumes "scan_ready s" and "dfl_at (dfl_view s) a x" and "6 < depth_level x"
    and "int (size_level x) \<le> INT_MAX" and "fuel_level x \<le> fuel"
  shows "overflows (common_dfl_scan_multi_interfaces fuel a dec) s"
proof -
  have "overflows (deal_with_interface_at_current_level fuel a False) (scan_start s)"
    by (rule count_pass.too_deep(1) [where k = 0 and p = "-1" and st = "[]"])
      (use assms in \<open>simp_all add: count_budget_def\<close>)
  then show ?thesis
    unfolding overflows_def scan_prefix [OF assms(1)] by (auto simp: run_thn)
qed

section \<open>Lists that do not end\<close>

text \<open>A header that is not the last of its level and whose offset to the next one is zero.\<close>

definition self_loop :: "(u64 \<Rightarrow> u64 option) \<Rightarrow> u64 \<Rightarrow> dfh \<Rightarrow> bool" where
  "self_loop V a d \<longleftrightarrow>
     dfh_at V a d \<and> \<not> is_eol (dfh_word d) \<and> \<not> has_params (dfh_csr_group d)
     \<and> get_next_dfh_byte_offset (dfh_word d) = 0"

lemma self_loop_count:
  assumes "self_loop (dfl_view s) a d"
    and "s_scanned_interface_count s \<le> INT_MAX"
  shows "\<exists>t. deal_with_interface_at_current_level fuel a False s
    = Stop (if s_scanned_interface_count s + int fuel \<le> INT_MAX then Out_of_fuel
        else Undefined_behaviour Signed_overflow) t"
  using assms
proof (induction fuel arbitrary: s)
  case 0
  then show ?case by (simp add: run_rules)
next
  case (Suc fuel)
  let ?s = "s\<lparr>s_scanned_interface_count := s_scanned_interface_count s + 1\<rparr>"
  have view: "dfl_view ?s = dfl_view s" by (rule dfl_view_cong) simp_all
  with Suc.prems have loop: "self_loop (dfl_view ?s) a d" by simp
  then have hdr: "dfh_at (dfl_view ?s) a d" by (simp add: self_loop_def)
  show ?case
  proof (cases "s_scanned_interface_count s < INT_MAX")
    case True
    with Suc.IH [OF loop] Suc.prems show ?thesis
      by (simp add: run_rules run_header_reads [OF hdr] count_interface_def self_loop_def
          get_next_dfh_addr_def add.assoc)
  next
    case False
    then show ?thesis using Suc.prems by (simp add: run_rules count_interface_def)
  qed
qed

lemma self_loop_scan:
  assumes "scan_ready s" and "self_loop (dfl_view s) a d"
  shows "\<exists>t. common_dfl_scan_multi_interfaces fuel a dec s
    = Stop (if int fuel \<le> INT_MAX then Out_of_fuel else Undefined_behaviour Signed_overflow) t"
proof -
  have "self_loop (dfl_view (scan_start s)) a d" using assms(2) by simp
  from self_loop_count [OF this, of fuel] show ?thesis
    by (auto simp: scan_prefix [OF assms(1)] run_thn)
qed

section \<open>The encoding is unambiguous\<close>

lemma dfh_at_unique: "dfh_at V a d \<Longrightarrow> dfh_at V a e \<Longrightarrow> d = e"
  by (simp add: dfh_at_def)

lemma data_at_unique: "data_at V a sz xs \<Longrightarrow> data_at V a sz ys \<Longrightarrow> xs = ys"
  by (auto simp: data_at_def intro!: nth_equalityI)

lemma dfl_at_unique:
  "dfl_at V a x \<Longrightarrow> dfl_at V a y \<Longrightarrow> x = y"
  "params_at V a p ps \<Longrightarrow> params_at V a p qs \<Longrightarrow> ps = qs"
  "branch_at V a p h br \<Longrightarrow> branch_at V a p h bs \<Longrightarrow> br = bs"
proof (induction x and ps and br arbitrary: a y and a p qs and a p h bs)
  case (Last_dfh d ps)
  then show ?case
    by (cases y) (auto dest: dfh_at_unique split: if_splits)
next
  case (Next_dfh d ps x)
  have d: "dfh_at V a d" using Next_dfh.prems by simp
  show ?case
  proof (cases y)
    case (Last_dfh e qs)
    then have "e = d" using Next_dfh.prems dfh_at_unique [of V a e d] by simp
    with Last_dfh Next_dfh.prems show ?thesis by simp
  next
    case y: (Next_dfh e qs z)
    then have "e = d" using Next_dfh.prems dfh_at_unique [of V a e d] by simp
    with y Next_dfh show ?thesis by (auto split: if_splits)
  qed
next
  case (Null_block h)
  then show ?case by (cases qs) auto
next
  case (Last_block h ws br)
  then show ?case by (cases qs) (auto dest: data_at_unique)
next
  case (Block h ws br ps)
  then show ?case by (cases qs) (auto dest: data_at_unique)
next
  case No_branch
  then show ?case by (cases bs) auto
next
  case (Branch b x)
  then show ?case by (cases bs) auto
qed simp_all

end
