(* ===== verification/Mmio.thy ===== *)
theory Mmio
  imports Dfl_Params
begin

text \<open>
  Register access through a handle, the inline functions of \<open>uio/inc/intel_fpga_api_uio.h\<close>,
  \<open>devmem/inc/intel_fpga_api_devmem.h\<close> and \<open>zephyr/inc/intel_fpga_api_zephyr.h\<close>.  They differ
  in how the base address of a handle is found (and, on Zephyr, in the 32-bit access), which is a
  parameter here.  A volatile access is one event on the bus, so that the order and the width of
  the accesses can be stated; the registers behave as memory.  The 64-bit access is native or made
  of two 32-bit accesses, by the same build switch as in \<open>Dfl_Read\<close>.

  The locale \<open>word_port\<close> is what the 512-bit transfers rely on.
\<close>

section \<open>Bus accesses\<close>

datatype bus_event = Bus_read nat u64 | Bus_write nat u64 u64

record mmio_state = cmn_state +
  bus :: "bus_event list"

type_synonym ('e, 'a) mmio = "('a, 'e mmio_state_scheme) prog"

definition bytes_le :: "nat \<Rightarrow> 'a::len word \<Rightarrow> u8 list" where
  "bytes_le n w = map (\<lambda>i. ucast (drop_bit (8 * i) w)) [0..<n]"

definition store_bytes :: "memory \<Rightarrow> u64 \<Rightarrow> u8 list \<Rightarrow> memory" where
  "store_bytes m a bs = (\<lambda>x. if unat (x - a) < length bs then Some (bs ! unat (x - a)) else m x)"

text \<open>The accesses are plain ones by a pointer to a volatile object of \<open>n\<close> bytes.\<close>

definition bus_read :: "nat \<Rightarrow> u64 \<Rightarrow> ('e, 'w::len word) mmio" where
  "bus_read n a =
     thn (require Misaligned_access (aligned n a))
    (bnd (gets mem) (\<lambda>m.
       case load_bytes m a n of
         None \<Rightarrow> halt (Undefined_behaviour Unmapped_address)
       | Some bs \<Rightarrow> thn (modify (\<lambda>s. s\<lparr>bus := bus s @ [Bus_read n a]\<rparr>)) (ret (le_word bs))))"

definition bus_write :: "nat \<Rightarrow> u64 \<Rightarrow> 'w::len word \<Rightarrow> ('e, unit) mmio" where
  "bus_write n a w =
     thn (require Misaligned_access (aligned n a))
    (bnd (gets mem) (\<lambda>m.
       case load_bytes m a n of
         None \<Rightarrow> halt (Undefined_behaviour Unmapped_address)
       | Some _ \<Rightarrow> modify (\<lambda>s. s\<lparr>mem := store_bytes m a (bytes_le n w),
                                 bus := bus s @ [Bus_write n a (ucast w)]\<rparr>)))"

section \<open>Accesses through a handle\<close>

text \<open>A handle is an \<open>int\<close> that is converted to the unsigned index type.\<close>

definition fpga_uio_get_base_address :: "int \<Rightarrow> ('e, u64) mmio" where
  "fpga_uio_get_base_address handle =
     bnd (common_fpga_interface_info_vec_at (size_t_of_int handle)) (\<lambda>x. ret (base_address x))"

definition fpga_devmem_get_base_address :: "int \<Rightarrow> ('e, u64) mmio" where
  "fpga_devmem_get_base_address handle =
     bnd (common_fpga_interface_info_vec_at (size_t_of_int handle)) (\<lambda>x. ret (base_address x))"

type_synonym 'e base_of = "int \<Rightarrow> ('e, u64) mmio"

definition fpga_read_8 :: "'e base_of \<Rightarrow> int \<Rightarrow> u32 \<Rightarrow> ('e, u8) mmio" where
  "fpga_read_8 get_base handle offset =
     bnd (get_base handle) (\<lambda>b. bus_read 1 (b + ucast offset))"

definition fpga_write_8 :: "'e base_of \<Rightarrow> int \<Rightarrow> u32 \<Rightarrow> u8 \<Rightarrow> ('e, unit) mmio" where
  "fpga_write_8 get_base handle offset val =
     bnd (get_base handle) (\<lambda>b. bus_write 1 (b + ucast offset) val)"

definition fpga_read_16 :: "'e base_of \<Rightarrow> int \<Rightarrow> u32 \<Rightarrow> ('e, u16) mmio" where
  "fpga_read_16 get_base handle offset =
     bnd (get_base handle) (\<lambda>b. bus_read 2 (b + ucast offset))"

definition fpga_write_16 :: "'e base_of \<Rightarrow> int \<Rightarrow> u32 \<Rightarrow> u16 \<Rightarrow> ('e, unit) mmio" where
  "fpga_write_16 get_base handle offset val =
     bnd (get_base handle) (\<lambda>b. bus_write 2 (b + ucast offset) val)"

definition fpga_read_32 :: "'e base_of \<Rightarrow> int \<Rightarrow> u32 \<Rightarrow> ('e, u32) mmio" where
  "fpga_read_32 get_base handle offset =
     bnd (get_base handle) (\<lambda>b. bus_read 4 (b + ucast offset))"

definition fpga_write_32 :: "'e base_of \<Rightarrow> int \<Rightarrow> u32 \<Rightarrow> u32 \<Rightarrow> ('e, unit) mmio" where
  "fpga_write_32 get_base handle offset val =
     bnd (get_base handle) (\<lambda>b. bus_write 4 (b + ucast offset) val)"

text \<open>The 64-bit access; \<open>rd32\<close> and \<open>wr32\<close> are the platform's 32-bit accesses.\<close>

definition fpga_read_64 ::
    "'e base_of \<Rightarrow> (int \<Rightarrow> u32 \<Rightarrow> ('e, u32) mmio) \<Rightarrow> int \<Rightarrow> u32 \<Rightarrow> ('e, u64) mmio" where
  "fpga_read_64 get_base rd32 handle offset =
     bnd (gets (\<lambda>s. env_read_mode (env s))) (\<lambda>mode.
     if mode \<noteq> Emulated_32 then bnd (get_base handle) (\<lambda>b. bus_read 8 (b + ucast offset))
     else
       bnd (rd32 handle offset) (\<lambda>lo.
       bnd (rd32 handle (offset + 4)) (\<lambda>hi.
       ret (ucast lo OR push_bit 32 (ucast hi)))))"

definition fpga_write_64 ::
    "'e base_of \<Rightarrow> (int \<Rightarrow> u32 \<Rightarrow> u32 \<Rightarrow> ('e, unit) mmio) \<Rightarrow> int \<Rightarrow> u32 \<Rightarrow> u64 \<Rightarrow> ('e, unit) mmio" where
  "fpga_write_64 get_base wr32 handle offset val =
     bnd (gets (\<lambda>s. env_read_mode (env s))) (\<lambda>mode.
     if mode \<noteq> Emulated_32 then bnd (get_base handle) (\<lambda>b. bus_write 8 (b + ucast offset) val)
     else
       thn (wr32 handle offset (ucast val))
           (wr32 handle (offset + 4) (ucast (drop_bit 32 val))))"

text \<open>The 512-bit transfers: eight 64-bit ones; the buffer of the caller is a list of bytes.  The
  first argument of the loops is the number of iterations left.\<close>

fun read_512_loop :: "nat \<Rightarrow> (u32 \<Rightarrow> (u64, 's) prog) \<Rightarrow> u32 \<Rightarrow> (u8 list, 's) prog" where
  "read_512_loop 0 rd64 offset = ret []"
| "read_512_loop (Suc k) rd64 offset =
     bnd (rd64 offset) (\<lambda>w.
     bnd (read_512_loop k rd64 (offset + 8)) (\<lambda>bs.
     ret (bytes_le 8 w @ bs)))"

definition fpga_read_512 :: "(u32 \<Rightarrow> (u64, 's) prog) \<Rightarrow> u32 \<Rightarrow> (u8 list, 's) prog" where
  "fpga_read_512 rd64 offset = read_512_loop 8 rd64 offset"

fun write_512_loop ::
    "nat \<Rightarrow> (u32 \<Rightarrow> u64 \<Rightarrow> (unit, 's) prog) \<Rightarrow> u32 \<Rightarrow> u8 list \<Rightarrow> (unit, 's) prog" where
  "write_512_loop 0 wr64 offset val = ret ()"
| "write_512_loop (Suc k) wr64 offset val =
     thn (require Out_of_bounds (8 \<le> length val))
    (thn (wr64 offset (le_word (take 8 val)))
         (write_512_loop k wr64 (offset + 8) (drop 8 val)))"

definition fpga_write_512 :: "(u32 \<Rightarrow> u64 \<Rightarrow> (unit, 's) prog) \<Rightarrow> u32 \<Rightarrow> u8 list \<Rightarrow> (unit, 's) prog" where
  "fpga_write_512 wr64 offset val = write_512_loop 8 wr64 offset val"

section \<open>Bytes and words\<close>

lemma length_bytes_le [simp]: "length (bytes_le n w) = n"
  by (simp add: bytes_le_def)

lemma le_word_bytes_le:
  fixes w :: "'a::len word"
  assumes "LENGTH('a) = 8 * n"
  shows "le_word (bytes_le n w) = w"
proof (rule bit_word_eqI)
  fix k assume k: "k < LENGTH('a)"
  then have "k div 8 < n" using assms by linarith
  moreover have "8 * (k div 8) + k mod 8 = k" by simp
  ultimately show "bit (le_word (bytes_le n w) :: 'a word) k = bit w k"
    using k by (simp add: bit_le_word bytes_le_def bit_simps)
qed

lemma bytes_le_le_word:
  assumes "length bs = n" and "LENGTH('a) = 8 * n"
  shows "bytes_le n (le_word bs :: 'a::len word) = bs"
proof (rule nth_equalityI)
  fix i assume "i < length (bytes_le n (le_word bs :: 'a word))"
  then have i: "i < n" by simp
  show "bytes_le n (le_word bs :: 'a word) ! i = bs ! i"
  proof (rule bit_word_eqI)
    fix k assume k: "k < LENGTH(8)"
    then have "(8 * i + k) div 8 = i" and "(8 * i + k) mod 8 = k" by simp_all
    moreover have "8 * i + k < LENGTH('a)" using i k assms(2) by simp
    ultimately show "bit (bytes_le n (le_word bs :: 'a word) ! i) k = bit (bs ! i) k"
      using i k assms(1) by (simp add: bytes_le_def bit_simps bit_le_word)
  qed
qed (simp add: assms)

lemma load_bytes_iff:
  "load_bytes m a n = Some bs \<longleftrightarrow>
     length bs = n \<and> (\<forall>i < n. m (a + of_nat i) = Some (bs ! i))"
proof (induction n arbitrary: a bs)
  case 0
  then show ?case by auto
next
  case (Suc n)
  have shift: "a + 1 + of_nat i = a + of_nat (Suc i)" for i by simp
  show ?case
  proof (cases bs)
    case Nil
    then show ?thesis by (auto split: option.splits)
  next
    case (Cons b cs)
    then have "load_bytes m a (Suc n) = Some bs \<longleftrightarrow>
        m a = Some b \<and> load_bytes m (a + 1) n = Some cs"
      by (auto split: option.splits)
    also have "\<dots> \<longleftrightarrow> length bs = Suc n \<and> (\<forall>i < Suc n. m (a + of_nat i) = Some (bs ! i))"
      unfolding Suc.IH shift using Cons by (auto simp: All_less_Suc2)
    finally show ?thesis .
  qed
qed

section \<open>Loads after stores\<close>

text \<open>Byte ranges inside a window that starts at \<open>b\<close>, by their distance from \<open>b\<close>; a window is at most
  the 4 GiB that an offset can reach.\<close>

lemma unat_diff_of_nat:
  assumes "x < 2 ^ 33" and "y < 2 ^ 33"
  shows "unat (of_nat x - of_nat y :: u64) = (if y \<le> x then x - y else 2 ^ 64 - (y - x))"
proof -
  have small: "unat (of_nat z :: u64) = z" if "z < 2 ^ 33" for z
    using that by (simp add: unat_of_nat)
  show ?thesis
  proof (cases "y \<le> x")
    case True
    then have "(of_nat x - of_nat y :: u64) = of_nat (x - y)" by (simp add: of_nat_diff)
    with True assms small show ?thesis by (metis less_imp_diff_less)
  next
    case False
    then have neg: "(of_nat x - of_nat y :: u64) = - of_nat (y - x)" by (simp add: of_nat_diff)
    have z: "unat (of_nat (y - x) :: u64) = y - x" using small [of "y - x"] assms by simp
    then have u: "uint (of_nat (y - x) :: u64) = int (y - x)" by (simp add: uint_nat)
    have "uint (- of_nat (y - x) :: u64) = (- int (y - x)) mod 2 ^ 64"
      by (simp only: uint_word_ariths u) simp
    also have "\<dots> = (2 ^ 64 + - int (y - x)) mod 2 ^ 64" by (rule mod_add_self1 [symmetric])
    also have "\<dots> = 2 ^ 64 + - int (y - x)"
      by (rule mod_pos_pos_trivial) (use False assms in simp_all)
    finally show ?thesis
      using False assms unfolding neg by (simp add: unat_eq_nat_uint nat_diff_distrib)
  qed
qed

lemma store_bytes_at:
  assumes "x < 2 ^ 33" and "y + length bs \<le> 2 ^ 32"
  shows "store_bytes m (b + of_nat y) bs (b + of_nat x) =
     (if y \<le> x \<and> x < y + length bs then Some (bs ! (x - y)) else m (b + of_nat x))"
proof -
  have "unat (b + of_nat x - (b + of_nat y)) = unat (of_nat x - of_nat y :: u64)" by simp
  also have "\<dots> = (if y \<le> x then x - y else 2 ^ 64 - (y - x))"
    by (rule unat_diff_of_nat) (use assms in simp_all)
  finally show ?thesis using assms by (auto simp: store_bytes_def)
qed

lemma load_store_same:
  assumes "y + length bs \<le> 2 ^ 32" and "n = length bs"
  shows "load_bytes (store_bytes m (b + of_nat y) bs) (b + of_nat y) n = Some bs"
proof -
  have "store_bytes m (b + of_nat y) bs (b + of_nat y + of_nat i) = Some (bs ! i)"
    if "i < n" for i
    using store_bytes_at [of "y + i" y bs m b] assms that by (simp add: add.assoc)
  then show ?thesis using assms by (simp add: load_bytes_iff)
qed

lemma load_store_other:
  assumes "y + length bs \<le> 2 ^ 32" and "x + n \<le> 2 ^ 32"
    and "x + n \<le> y \<or> y + length bs \<le> x"
  shows "load_bytes (store_bytes m (b + of_nat y) bs) (b + of_nat x) n
     = load_bytes m (b + of_nat x) n"
proof -
  have "store_bytes m (b + of_nat y) bs (b + of_nat x + of_nat i) = m (b + of_nat x + of_nat i)"
    if "i < n" for i
    using store_bytes_at [of "x + i" y bs m b] assms that by (auto simp: add.assoc)
  then have "load_bytes (store_bytes m (b + of_nat y) bs) (b + of_nat x) n = Some cs
      \<longleftrightarrow> load_bytes m (b + of_nat x) n = Some cs" for cs
    by (simp add: load_bytes_iff)
  then show ?thesis by (metis not_Some_eq)
qed

definition mapped :: "memory \<Rightarrow> u64 \<Rightarrow> nat \<Rightarrow> bool" where
  "mapped m b lim \<longleftrightarrow> (\<forall>i < lim. m (b + of_nat i) \<noteq> None)"

lemma mapped_store:
  assumes "mapped m b lim"
  shows "mapped (store_bytes m a bs) b lim"
  using assms by (auto simp: mapped_def store_bytes_def)

lemma mapped_load:
  assumes "mapped m b lim" and "x + n \<le> lim"
  obtains bs where "load_bytes m (b + of_nat x) n = Some bs" and "length bs = n"
proof -
  let ?bs = "map (\<lambda>i. the (m (b + of_nat x + of_nat i))) [0..<n]"
  have "m (b + of_nat x + of_nat i) = Some (?bs ! i)" if "i < n" for i
  proof -
    have "m (b + of_nat (x + i)) \<noteq> None"
      using assms(1) [unfolded mapped_def, rule_format, of "x + i"] assms(2) that by simp
    with that show ?thesis by (simp add: add.assoc)
  qed
  then have "load_bytes m (b + of_nat x) n = Some ?bs" by (simp add: load_bytes_iff)
  then show ?thesis using that by simp
qed

text \<open>Where registers are: mapped, and on a boundary of eight bytes, so that what is aligned in the space
  is aligned on the bus.\<close>

definition register_space :: "memory \<Rightarrow> u64 \<Rightarrow> nat \<Rightarrow> bool" where
  "register_space m b lim \<longleftrightarrow> mapped m b lim \<and> aligned 8 b"

lemma register_space_store: "register_space m b lim \<Longrightarrow> register_space (store_bytes m a bs) b lim"
  by (simp add: register_space_def mapped_store)

lemma aligned_offset:
  assumes "aligned 8 b" and "n dvd 8" and "n dvd x"
  shows "aligned n (b + of_nat x)"
proof -
  have "n dvd unat b" using assms(1,2) unfolding aligned_def by (rule dvd_trans [rotated])
  moreover have "n dvd 2 ^ 64" by (rule dvd_trans [OF assms(2)]) simp
  ultimately show ?thesis
    using assms(3) by (simp add: aligned_def unat_word_ariths unat_of_nat dvd_mod)
qed

lemma unaligned_offset:
  assumes "aligned 8 b" and "n dvd 8" and "\<not> n dvd x"
  shows "\<not> aligned n (b + of_nat x)"
proof -
  have "n dvd unat b" using assms(1,2) unfolding aligned_def by (rule dvd_trans [rotated])
  moreover have "n dvd 2 ^ 64" by (rule dvd_trans [OF assms(2)]) simp
  ultimately show ?thesis
    using assms(3) by (simp add: aligned_def unat_word_ariths unat_of_nat dvd_mod_iff dvd_add_right_iff)
qed

section \<open>A port of 64-bit words\<close>

text \<open>What the block transfers need: words at offsets, a write changes the word at its offset and no
  word that does not overlap it, a read returns the word and changes none.\<close>

locale word_port =
  fixes rd :: "u32 \<Rightarrow> (u64, 's) prog"
    and wr :: "u32 \<Rightarrow> u64 \<Rightarrow> (unit, 's) prog"
    and ok :: "'s \<Rightarrow> bool"
    and word_at :: "'s \<Rightarrow> u32 \<Rightarrow> u64"
    and lim :: nat
  assumes wr_law: "ok s \<Longrightarrow> unat a + 8 \<le> lim \<Longrightarrow> 8 dvd unat a \<Longrightarrow>
      wp (wr a w) (\<lambda>_ t. ok t \<and> word_at t a = w
        \<and> (\<forall>c. unat c + 8 \<le> lim \<longrightarrow> unat c + 8 \<le> unat a \<or> unat a + 8 \<le> unat c
             \<longrightarrow> word_at t c = word_at s c)) s"
    and rd_law: "ok s \<Longrightarrow> unat a + 8 \<le> lim \<Longrightarrow> 8 dvd unat a \<Longrightarrow>
      wp (rd a) (\<lambda>w t. ok t \<and> w = word_at s a \<and> (\<forall>c. word_at t c = word_at s c)) s"
    and lim_32: "lim \<le> 2 ^ 32"
begin

lemma unat_add_8: "unat (a :: u32) + 16 \<le> lim \<Longrightarrow> unat (a + 8) = unat a + 8"
  using lim_32 by (simp add: unat_word_ariths)

lemma write_loop:
  "ok s \<Longrightarrow> unat a + 8 * k \<le> lim \<Longrightarrow> 8 dvd unat a \<Longrightarrow> length bs = 8 * k \<Longrightarrow>
   wp (write_512_loop k wr a bs) (\<lambda>_ t. ok t
     \<and> (\<forall>j < k. word_at t (a + of_nat (8 * j)) = le_word (take 8 (drop (8 * j) bs)))
     \<and> (\<forall>c. unat c + 8 \<le> unat a \<longrightarrow> word_at t c = word_at s c)) s"
proof (induction k arbitrary: s a bs)
  case 0
  then show ?case by (simp add: wp_ret)
next
  case (Suc k)
  have wr: "wp (wr a (le_word (take 8 bs))) (\<lambda>_ t. ok t \<and> word_at t a = le_word (take 8 bs)
        \<and> (\<forall>c. unat c + 8 \<le> lim \<longrightarrow> unat c + 8 \<le> unat a \<or> unat a + 8 \<le> unat c
             \<longrightarrow> word_at t c = word_at s c)) s"
    by (rule wr_law) (use Suc.prems in simp_all)
  have "wp (write_512_loop k wr (a + 8) (drop 8 bs)) (\<lambda>_ u. ok u
     \<and> (\<forall>j < Suc k. word_at u (a + of_nat (8 * j)) = le_word (take 8 (drop (8 * j) bs)))
     \<and> (\<forall>c. unat c + 8 \<le> unat a \<longrightarrow> word_at u c = word_at s c)) t"
    if t: "ok t \<and> word_at t a = le_word (take 8 bs)
        \<and> (\<forall>c. unat c + 8 \<le> lim \<longrightarrow> unat c + 8 \<le> unat a \<or> unat a + 8 \<le> unat c
             \<longrightarrow> word_at t c = word_at s c)" for t
  proof (cases k)
    case 0
    with t Suc.prems show ?thesis by (simp add: wp_ret)
  next
    case (Suc k')
    then have a8: "unat (a + 8) = unat a + 8" using Suc.prems by (intro unat_add_8) simp
    have "wp (write_512_loop k wr (a + 8) (drop 8 bs)) (\<lambda>_ u. ok u
        \<and> (\<forall>j < k. word_at u (a + 8 + of_nat (8 * j)) = le_word (take 8 (drop (8 * j) (drop 8 bs))))
        \<and> (\<forall>c. unat c + 8 \<le> unat (a + 8) \<longrightarrow> word_at u c = word_at t c)) t"
      by (rule Suc.IH) (use t Suc.prems a8 in simp_all)
    then show ?thesis
    proof (rule wp_mono)
      fix u
      assume u: "ok u
        \<and> (\<forall>j < k. word_at u (a + 8 + of_nat (8 * j)) = le_word (take 8 (drop (8 * j) (drop 8 bs))))
        \<and> (\<forall>c. unat c + 8 \<le> unat (a + 8) \<longrightarrow> word_at u c = word_at t c)"
      have "word_at u (a + of_nat (8 * j)) = le_word (take 8 (drop (8 * j) bs))" if "j < Suc k" for j
      proof (cases j)
        case 0
        with u t a8 show ?thesis by simp
      next
        case (Suc i)
        with that u have "word_at u (a + 8 + of_nat (8 * i)) = le_word (take 8 (drop (8 * i) (drop 8 bs)))"
          by simp
        with Suc show ?thesis by (simp add: ac_simps)
      qed
      with u t a8 Suc.prems show "ok u
         \<and> (\<forall>j < Suc k. word_at u (a + of_nat (8 * j)) = le_word (take 8 (drop (8 * j) bs)))
         \<and> (\<forall>c. unat c + 8 \<le> unat a \<longrightarrow> word_at u c = word_at s c)"
        by auto
    qed
  qed
  with Suc.prems show ?case
    by (simp add: wp_thn wp_require wp_mono [OF wr] del: write_512_loop.simps(1))
qed

lemma read_loop:
  "ok s \<Longrightarrow> unat a + 8 * k \<le> lim \<Longrightarrow> 8 dvd unat a \<Longrightarrow>
   wp (read_512_loop k rd a) (\<lambda>bs t. ok t
     \<and> bs = concat (map (\<lambda>j. bytes_le 8 (word_at s (a + of_nat (8 * j)))) [0..<k])
     \<and> (\<forall>c. word_at t c = word_at s c)) s"
proof (induction k arbitrary: s a)
  case 0
  then show ?case by (simp add: wp_ret)
next
  case (Suc k)
  have rd: "wp (rd a) (\<lambda>w t. ok t \<and> w = word_at s a \<and> (\<forall>c. word_at t c = word_at s c)) s"
    by (rule rd_law) (use Suc.prems in simp_all)
  have split: "concat (map (\<lambda>j. bytes_le 8 (word_at s (a + of_nat (8 * j)))) [0..<Suc k])
      = bytes_le 8 (word_at s a)
        @ concat (map (\<lambda>j. bytes_le 8 (word_at s (a + 8 + of_nat (8 * j)))) [0..<k])"
    by (simp add: upt_conv_Cons map_Suc_upt [symmetric] comp_def
        add.assoc del: upt_Suc)
  have "wp (bnd (read_512_loop k rd (a + 8)) (\<lambda>bs. ret (bytes_le 8 w @ bs))) (\<lambda>bs u. ok u
     \<and> bs = concat (map (\<lambda>j. bytes_le 8 (word_at s (a + of_nat (8 * j)))) [0..<Suc k])
     \<and> (\<forall>c. word_at u c = word_at s c)) t"
    if t: "ok t \<and> w = word_at s a \<and> (\<forall>c. word_at t c = word_at s c)" for w t
  proof (cases k)
    case 0
    with t show ?thesis by (simp add: wp_bnd wp_ret)
  next
    case (Suc k')
    then have a8: "unat (a + 8) = unat a + 8" using Suc.prems by (intro unat_add_8) simp
    have "wp (read_512_loop k rd (a + 8)) (\<lambda>bs u. ok u
       \<and> bs = concat (map (\<lambda>j. bytes_le 8 (word_at t (a + 8 + of_nat (8 * j)))) [0..<k])
       \<and> (\<forall>c. word_at u c = word_at t c)) t"
      by (rule Suc.IH) (use t Suc.prems a8 in simp_all)
    with t show ?thesis
      unfolding split wp_bnd by (auto simp: wp_ret elim!: wp_mono)
  qed
  then show ?case by (simp add: wp_bnd [of "rd a"] wp_mono [OF rd])
qed

lemma concat_chunks: "concat (map (\<lambda>j. take 8 (drop (8 * j) bs)) [0..<k]) = take (8 * k) bs"
proof (induction k)
  case (Suc k)
  then show ?case using take_add [of "8 * k" 8 bs] by (simp add: add.commute)
qed simp

text \<open>A block written is the block read back.\<close>

lemma block_round_trip:
  assumes "ok s" and "unat a + 64 \<le> lim" and "8 dvd unat a" and "length bs = 64"
  shows "wp (thn (fpga_write_512 wr a bs) (fpga_read_512 rd a)) (\<lambda>r t. ok t \<and> r = bs) s"
  unfolding wp_thn fpga_write_512_def fpga_read_512_def
proof (rule wp_mono [OF write_loop [where s = s]])
  fix t
  assume t: "ok t
     \<and> (\<forall>j < 8. word_at t (a + of_nat (8 * j)) = le_word (take 8 (drop (8 * j) bs)))
     \<and> (\<forall>c. unat c + 8 \<le> unat a \<longrightarrow> word_at t c = word_at s c)"
  have chunk: "bytes_le 8 (word_at t (a + 8 * of_nat j)) = take 8 (drop (8 * j) bs)"
    if "j < 8" for j
  proof -
    have "length (take 8 (drop (8 * j) bs)) = 8" using assms(4) that by simp
    with t that show ?thesis by (simp add: bytes_le_le_word)
  qed
  have "concat (map (\<lambda>j. bytes_le 8 (word_at t (a + of_nat (8 * j)))) [0..<8])
      = concat (map (\<lambda>j. take 8 (drop (8 * j) bs)) [0..<8])"
    by (intro arg_cong [of _ _ concat] map_cong) (simp_all add: chunk)
  also have "\<dots> = bs"
    using assms(4) by (simp add: concat_chunks)
  finally show "wp (read_512_loop 8 rd a) (\<lambda>r t. ok t \<and> r = bs) t"
    using read_loop [of t a 8] t assms(2,3) by (auto elim!: wp_mono)
qed (use assms in simp_all)

end

section \<open>The handles as ports\<close>

text \<open>A handle opens a window: its base address is known and \<open>l\<close> bytes from there are registers.\<close>

definition window :: "'e base_of \<Rightarrow> int \<Rightarrow> u64 \<Rightarrow> u32 \<Rightarrow> 'e mmio_state_scheme \<Rightarrow> bool" where
  "window get_base h b l s \<longleftrightarrow>
     (\<forall>m ev. get_base h (s\<lparr>mem := m, bus := ev\<rparr>) = Ret b (s\<lparr>mem := m, bus := ev\<rparr>))
     \<and> register_space (mem s) b (unat l)"

definition port_word :: "u64 \<Rightarrow> 'e mmio_state_scheme \<Rightarrow> u32 \<Rightarrow> u64" where
  "port_word b s a = le_word (the (load_bytes (mem s) (b + ucast a) 8))"

definition write_events :: "read_mode \<Rightarrow> u64 \<Rightarrow> u64 \<Rightarrow> bus_event list" where
  "write_events mode a w =
     (if mode = Emulated_32
      then [Bus_write 4 a (take_bit 32 w), Bus_write 4 (a + 4) (drop_bit 32 w)]
      else [Bus_write 8 a w])"

definition read_events :: "read_mode \<Rightarrow> u64 \<Rightarrow> bus_event list" where
  "read_events mode a =
     (if mode = Emulated_32 then [Bus_read 4 a, Bus_read 4 (a + 4)] else [Bus_read 8 a])"

lemma window_base: "window g h b l s \<Longrightarrow> g h s = Ret b s"
  by (cases s) (fastforce simp: window_def)

lemma window_update:
  "window g h b l s \<Longrightarrow> register_space m b (unat l) \<Longrightarrow> window g h b l (s\<lparr>mem := m, bus := ev\<rparr>)"
  by (cases s) (simp add: window_def)

lemma offset_nat: "(ucast (a :: u32) :: u64) = of_nat (unat a)"
  by simp

lemma unat_u32: "unat (l :: u32) < 2 ^ 32"
proof -
  have "unat l < 2 ^ LENGTH(32)" by (rule unsigned_less)
  then show ?thesis by simp
qed

lemma ucast_add_4: "unat (a :: u32) + 8 \<le> unat (l :: u32) \<Longrightarrow> (ucast (a + 4) :: u64) = ucast a + 4"
proof -
  assume "unat a + 8 \<le> unat l"
  then have "unat a + 4 < 2 ^ 32" using unat_u32 [of l] by simp
  then have "unat (ucast (a + 4) :: u64) = unat (ucast a + 4 :: u64)"
    by (simp add: unat_word_ariths unsigned_ucast_eq take_bit_nat_eq_self)
  then show ?thesis by (rule word_unat_eq_iff [THEN iffD2])
qed

lemma second_half:
  assumes "unat (a :: u32) + 8 \<le> unat (l :: u32)" and "8 dvd unat a"
  shows "4 dvd unat a" and "unat (a + 4) + 4 \<le> unat l" and "4 dvd unat (a + 4)"
    and "(ucast (a + 4) :: u64) = ucast a + 4"
proof -
  show four: "4 dvd unat a" by (rule dvd_trans [OF _ assms(2)]) simp
  have "unat (a + 4) = unat a + 4"
    using assms(1) unat_u32 [of l] by (simp add: unat_word_ariths)
  then show "unat (a + 4) + 4 \<le> unat l" and "4 dvd unat (a + 4)" using assms(1) four by simp_all
  show "(ucast (a + 4) :: u64) = ucast a + 4" by (rule ucast_add_4 [OF assms(1)])
qed

lemma run_bus_write:
  assumes "register_space (mem s) b lim" and "x + n \<le> lim" and "n dvd x" and "n dvd 8"
  shows "bus_write n (b + of_nat x) w s =
     Ret () (s\<lparr>mem := store_bytes (mem s) (b + of_nat x) (bytes_le n w),
              bus := bus s @ [Bus_write n (b + of_nat x) (ucast w)]\<rparr>)"
proof -
  have "mapped (mem s) b lim" and al: "aligned n (b + of_nat x)"
    using assms by (simp_all add: register_space_def aligned_offset)
  from mapped_load [OF this(1) assms(2)] obtain bs where "load_bytes (mem s) (b + of_nat x) n = Some bs"
    by blast
  with al show ?thesis by (simp add: bus_write_def run_rules)
qed

lemma run_bus_read:
  assumes "register_space (mem s) b lim" and "x + n \<le> lim" and "n dvd x" and "n dvd 8"
  shows "bus_read n (b + of_nat x) s =
     Ret (le_word (the (load_bytes (mem s) (b + of_nat x) n)))
       (s\<lparr>bus := bus s @ [Bus_read n (b + of_nat x)]\<rparr>)"
proof -
  have "mapped (mem s) b lim" and al: "aligned n (b + of_nat x)"
    using assms by (simp_all add: register_space_def aligned_offset)
  from mapped_load [OF this(1) assms(2)] obtain bs where "load_bytes (mem s) (b + of_nat x) n = Some bs"
    by blast
  with al show ?thesis by (simp add: bus_read_def run_rules)
qed

lemma store_bytes_append:
  assumes "length bs + length cs \<le> 2 ^ 32"
  shows "store_bytes (store_bytes m a bs) (a + of_nat (length bs)) cs = store_bytes m a (bs @ cs)"
proof
  fix y :: u64
  let ?d = "unat (y - a)" and ?k = "length bs"
  have y: "y - (a + of_nat ?k) = (y - a) - of_nat ?k" by simp
  have k: "unat (of_nat ?k :: u64) = ?k" using assms by (simp add: unat_of_nat)
  show "store_bytes (store_bytes m a bs) (a + of_nat ?k) cs y = store_bytes m a (bs @ cs) y"
  proof (cases "?k \<le> ?d")
    case True
    then have "unat (y - (a + of_nat ?k)) = ?d - ?k"
      unfolding y by (subst unat_sub) (simp_all add: word_le_nat_alt k)
    with True show ?thesis by (auto simp: store_bytes_def nth_append)
  next
    case False
    have "y - a = of_nat ?d" by simp
    then have "unat (y - (a + of_nat ?k)) = 2 ^ 64 - (?k - ?d)"
      unfolding y using unat_diff_of_nat [of ?d ?k] False assms by simp
    moreover have "\<not> 2 ^ 64 - (?k - ?d) < length cs"
    proof -
      have "?k - ?d \<le> 2 ^ 32" and "length cs \<le> 2 ^ 32" using assms by simp_all
      then show ?thesis by simp
    qed
    ultimately have "\<not> unat (y - (a + of_nat ?k)) < length cs" by simp
    with False show ?thesis by (simp add: store_bytes_def nth_append)
  qed
qed

lemma bytes_le_halves:
  "bytes_le 8 (w :: u64) = bytes_le 4 (ucast w :: u32) @ bytes_le 4 (ucast (drop_bit 32 w) :: u32)"
proof (rule nth_equalityI)
  fix i assume "i < length (bytes_le 8 w)"
  then have i: "i < 8" by simp
  show "bytes_le 8 w ! i = (bytes_le 4 (ucast w :: u32) @ bytes_le 4 (ucast (drop_bit 32 w) :: u32)) ! i"
  proof (cases "i < 4")
    case True
    then show ?thesis
      by (intro bit_word_eqI) (simp add: nth_append bytes_le_def bit_simps)
  next
    case False
    then have "32 + (8 * (i - 4) + k) = 8 * i + k" for k by simp
    then have "bit w (32 + (8 * (i - 4) + k)) = bit w (8 * i + k)" for k by (simp only:)
    moreover have "i - 4 < 4" using i by simp
    moreover have "8 * (i - 4) + k < 32" if "k < 8" for k using i that by linarith
    ultimately show ?thesis
      using False i by (intro bit_word_eqI) (simp add: nth_append bytes_le_def bit_simps)
  qed
qed simp

lemma run_write_32:
  assumes "window g h b l s" and "unat a + 4 \<le> unat l" and "4 dvd unat a"
  shows "fpga_write_32 g h a w s =
     Ret () (s\<lparr>mem := store_bytes (mem s) (b + ucast a) (bytes_le 4 w),
              bus := bus s @ [Bus_write 4 (b + ucast a) (ucast w)]\<rparr>)"
  using assms run_bus_write [of s b "unat l" "unat a" 4 w]
  by (simp add: fpga_write_32_def run_rules window_base) (simp add: window_def)

lemma run_read_32:
  assumes "window g h b l s" and "unat a + 4 \<le> unat l" and "4 dvd unat a"
  shows "fpga_read_32 g h a s =
     Ret (le_word (the (load_bytes (mem s) (b + ucast a) 4)))
       (s\<lparr>bus := bus s @ [Bus_read 4 (b + ucast a)]\<rparr>)"
  using assms run_bus_read [of s b "unat l" "unat a" 4]
  by (simp add: fpga_read_32_def run_rules window_base) (simp add: window_def)

text \<open>Whichever way a 64-bit write is done, the memory is the same; the bus shows the difference.\<close>

lemma run_write_64:
  assumes w: "window g h b l s" and a: "unat a + 8 \<le> unat l" and d: "8 dvd unat a"
  shows "fpga_write_64 g (fpga_write_32 g) h a v s =
     Ret () (s\<lparr>mem := store_bytes (mem s) (b + ucast a) (bytes_le 8 v),
              bus := bus s @ write_events (env_read_mode (env s)) (b + ucast a) v\<rparr>)"
proof (cases "env_read_mode (env s) = Emulated_32")
  case False
  with w a d run_bus_write [of s b "unat l" "unat a" 8 v] show ?thesis
    by (simp add: fpga_write_64_def run_rules window_base write_events_def) (simp add: window_def)
next
  case True
  define s1 where "s1 = s\<lparr>mem := store_bytes (mem s) (b + ucast a) (bytes_le 4 (ucast v :: u32)),
      bus := bus s @ [Bus_write 4 (b + ucast a) (ucast (ucast v :: u32))]\<rparr>"
  have w1: "window g h b l s1"
    unfolding s1_def by (rule window_update [OF w]) (use w in \<open>simp add: window_def register_space_store\<close>)
  note a4 = second_half [OF a d]
  have one: "fpga_write_32 g h a (ucast v) s = Ret () s1"
    using run_write_32 [OF w, of a] a a4(1) by (simp add: s1_def)
  have "store_bytes (store_bytes (mem s) (b + ucast a) (bytes_le 4 (ucast v :: u32)))
      (b + ucast a + 4) (bytes_le 4 (ucast (drop_bit 32 v) :: u32))
      = store_bytes (mem s) (b + ucast a) (bytes_le 8 v)"
    using store_bytes_append [of "bytes_le 4 (ucast v :: u32)"
        "bytes_le 4 (ucast (drop_bit 32 v) :: u32)" "mem s" "b + ucast a"]
    by (simp add: bytes_le_halves)
  moreover have "(ucast (ucast v :: u32) :: u64) = take_bit 32 v"
    by (auto intro!: bit_word_eqI simp: bit_simps)
  moreover have "(ucast (ucast (drop_bit 32 v) :: u32) :: u64) = drop_bit 32 v"
  proof (rule bit_word_eqI)
    fix n
    show "bit (ucast (ucast (drop_bit 32 v) :: u32) :: u64) n = bit (drop_bit 32 v) n"
      using bit_imp_le_length [of v "32 + n"] by (auto simp: bit_simps)
  qed
  ultimately show ?thesis
    using True run_write_32 [OF w1 a4(2,3)]
    by (simp add: fpga_write_64_def run_rules one write_events_def a4(4) add.assoc)
      (simp add: s1_def)
qed

lemma run_read_64:
  assumes w: "window g h b l s" and a: "unat a + 8 \<le> unat l" and d: "8 dvd unat a"
  shows "fpga_read_64 g (fpga_read_32 g) h a s =
     Ret (port_word b s a) (s\<lparr>bus := bus s @ read_events (env_read_mode (env s)) (b + ucast a)\<rparr>)"
proof (cases "env_read_mode (env s) = Emulated_32")
  case False
  with w a d run_bus_read [of s b "unat l" "unat a" 8] show ?thesis
    by (simp add: fpga_read_64_def run_rules window_base read_events_def port_word_def)
      (simp add: window_def)
next
  case True
  define s1 where "s1 = s\<lparr>bus := bus s @ [Bus_read 4 (b + ucast a)]\<rparr>"
  have w1: "window g h b l s1"
    using window_update [OF w, of "mem s"] w by (simp add: s1_def window_def)
  note a4 = second_half [OF a d]
  have map: "mapped (mem s) b (unat l)" using w by (simp add: window_def register_space_def)
  from mapped_load [OF map a] obtain bs where bs: "load_bytes (mem s) (b + ucast a) 8 = Some bs"
    by auto
  then have "load64 (mem s) (b + ucast a) = Some (le_word bs)" by (simp add: load64_def)
  then obtain lo hi where h: "load32 (mem s) (b + ucast a) = Some lo"
    "load32 (mem s) (b + ucast a + 4) = Some hi" "le_word bs = join32 lo hi"
    by (auto simp: load64_halves split: option.splits)
  then show ?thesis
    using True run_read_32 [OF w, of a] a4(1) run_read_32 [OF w1 a4(2,3)] a bs
    by (auto simp: fpga_read_64_def run_rules read_events_def a4(4) add.assoc load32_def
        port_word_def join32_def s1_def)
qed

lemma port_write:
  assumes w: "window g h b l s" and a: "unat a + 8 \<le> unat l" and d: "8 dvd unat a"
  shows "wp (fpga_write_64 g (fpga_write_32 g) h a v) (\<lambda>_ t. window g h b l t
      \<and> port_word b t a = v
      \<and> (\<forall>c. unat c + 8 \<le> unat l \<longrightarrow> unat c + 8 \<le> unat a \<or> unat a + 8 \<le> unat c
             \<longrightarrow> port_word b t c = port_word b s c)) s"
proof -
  let ?m = "store_bytes (mem s) (b + ucast a) (bytes_le 8 v)"
  let ?t = "s\<lparr>mem := ?m, bus := bus s @ write_events (env_read_mode (env s)) (b + ucast a) v\<rparr>"
  have lim: "unat l \<le> 2 ^ 32" using unat_u32 [of l] by simp
  have "window g h b l ?t"
    by (rule window_update [OF w]) (use w in \<open>simp add: window_def register_space_store\<close>)
  moreover have "load_bytes ?m (b + ucast a) 8 = Some (bytes_le 8 v)"
    unfolding offset_nat by (rule load_store_same) (use a lim in simp_all)
  then have "port_word b ?t a = v" by (simp add: port_word_def le_word_bytes_le)
  moreover have "load_bytes ?m (b + ucast c) 8 = load_bytes (mem s) (b + ucast c) 8"
    if "unat c + 8 \<le> unat l" "unat c + 8 \<le> unat a \<or> unat a + 8 \<le> unat c" for c :: u32
    unfolding offset_nat by (rule load_store_other) (use that a lim in simp_all)
  ultimately show ?thesis
    by (simp add: wp_def run_write_64 [OF w a d] port_word_def)
qed

lemma port_read:
  assumes w: "window g h b l s" and a: "unat a + 8 \<le> unat l" and d: "8 dvd unat a"
  shows "wp (fpga_read_64 g (fpga_read_32 g) h a) (\<lambda>x t. window g h b l t
      \<and> x = port_word b s a \<and> (\<forall>c. port_word b t c = port_word b s c)) s"
  using window_update [OF w, of "mem s"] w
  by (simp add: wp_def run_read_64 [OF w a d] port_word_def window_def)

interpretation uio_port: word_port
  "fpga_read_64 fpga_uio_get_base_address (fpga_read_32 fpga_uio_get_base_address) h"
  "fpga_write_64 fpga_uio_get_base_address (fpga_write_32 fpga_uio_get_base_address) h"
  "window fpga_uio_get_base_address h b l" "port_word b" "unat l"
  for h b l
  by unfold_locales (use port_write port_read unat_u32 [of l] in \<open>blast | simp\<close>)+

interpretation devmem_port: word_port
  "fpga_read_64 fpga_devmem_get_base_address (fpga_read_32 fpga_devmem_get_base_address) h"
  "fpga_write_64 fpga_devmem_get_base_address (fpga_write_32 fpga_devmem_get_base_address) h"
  "window fpga_devmem_get_base_address h b l" "port_word b" "unat l"
  for h b l
  by unfold_locales (use port_write port_read unat_u32 [of l] in \<open>blast | simp\<close>)+

text \<open>When a handle of the table opens a window.\<close>

lemma window_of_entry:
  assumes "has_info s (size_t_of_int h)" and "register_space (mem s) b (unat l)"
    and "base_address (info_at s (size_t_of_int h)) = b"
  shows "window fpga_uio_get_base_address h b l s"
    and "window fpga_devmem_get_base_address h b l s"
  using assms
  by (auto simp: window_def fpga_uio_get_base_address_def fpga_devmem_get_base_address_def
      run_rules common_fpga_interface_info_vec_at_def has_info_def info_at_def split: option.splits)

end
