(* ===== verification/Inf_Contracts.thy ===== *)
theory Inf_Contracts
  imports Cmn_Inf
begin

text \<open>
  The contracts of the interface table, as its clients use it: a resizable table of entries, and
  the exclusive claim of an entry by opening it.  The provider of both is the vector of
  \<open>Cmn_Inf\<close>; the register interface and the interrupt interface are two independent claims
  on the same entry.
\<close>

section \<open>A resizable table\<close>

text \<open>\<open>entries\<close> is what the table stands for, \<open>blank\<close> the value of a fresh entry; \<open>granted s n\<close>
  says that the memory for \<open>n\<close> entries is available.\<close>

locale resizable_table =
  fixes resize :: "nat \<Rightarrow> (unit, 's) prog"
    and ok :: "'s \<Rightarrow> bool"
    and entries :: "'s \<Rightarrow> 'a list"
    and blank :: 'a
    and granted :: "'s \<Rightarrow> bool"
  assumes resize_law: "ok s \<Longrightarrow> granted s \<Longrightarrow>
      wp (resize n) (\<lambda>_ t. ok t \<and> granted t
        \<and> entries t = take n (entries s) @ replicate (n - length (entries s)) blank) s"
begin

lemma grow_keeps:
  assumes "ok s" and "granted s" and "length (entries s) \<le> n"
  shows "wp (resize n) (\<lambda>_ t. ok t \<and> granted t \<and> length (entries t) = n
     \<and> (\<forall>i < length (entries s). entries t ! i = entries s ! i)
     \<and> (\<forall>i. length (entries s) \<le> i \<longrightarrow> i < n \<longrightarrow> entries t ! i = blank)) s"
  by (rule wp_mono [OF resize_law [OF assms(1,2)]]) (use assms(3) in \<open>auto simp: nth_append\<close>)

text \<open>Dropping entries loses their contents: growing again gives blank ones.\<close>

lemma shrink_grow:
  assumes "ok s" and "granted s" and "m \<le> n" and "n \<le> length (entries s)"
  shows "wp (thn (resize m) (resize n))
     (\<lambda>_ t. ok t \<and> entries t = take m (entries s) @ replicate (n - m) blank) s"
  unfolding wp_thn
proof (rule wp_mono [OF resize_law [OF assms(1,2)]])
  fix t
  assume t: "ok t \<and> granted t
      \<and> entries t = take m (entries s) @ replicate (m - length (entries s)) blank"
  then show "wp (resize n)
      (\<lambda>_ t. ok t \<and> entries t = take m (entries s) @ replicate (n - m) blank) t"
    using assms(3,4) by (auto intro!: wp_mono [OF resize_law])
qed

end

interpretation info_table: resizable_table common_fpga_interface_info_vec_resize
  vec_inv vec_abs zero_info "\<lambda>s. \<forall>n b. env_alloc_ok (env s) n b"
proof unfold_locales
  fix s :: "'a cmn_state_scheme" and n
  assume inv: "vec_inv s" and ok: "\<forall>n b. env_alloc_ok (env s) n b"
  have "wp (common_fpga_interface_info_vec_resize n) Q s = Q () (resized n s)" for Q
    by (rule wp_resize [OF inv]) (use ok in simp)
  then show "wp (common_fpga_interface_info_vec_resize n)
     (\<lambda>_ t. vec_inv t \<and> (\<forall>n b. env_alloc_ok (env t) n b)
        \<and> vec_abs t = take n (vec_abs s) @ replicate (n - length (vec_abs s)) zero_info) s"
    using ok by (simp add: resized_inv [OF inv] resized_abs [OF inv] list_resize_def)
qed

section \<open>Exclusive claims\<close>

datatype claim_op = Claim u32 | Release u32

text \<open>The abstract machine: the set of entries that are claimed, out of \<open>n\<close>.  A claim answers with
  the handle or with the invalid handle; a release answers nothing, shown as 0.\<close>

fun claim_step :: "nat \<Rightarrow> claim_op \<Rightarrow> nat set \<Rightarrow> int \<times> nat set" where
  "claim_step n (Claim i) H =
     (if unat i < n \<and> unat i \<notin> H then (sint i, insert (unat i) H) else (INVALID_HANDLE, H))"
| "claim_step n (Release i) H = (0, H - {unat i})"

fun claim_run :: "nat \<Rightarrow> claim_op list \<Rightarrow> nat set \<Rightarrow> int list \<times> nat set" where
  "claim_run n [] H = ([], H)"
| "claim_run n (c # cs) H =
     (let (r, H') = claim_step n c H; (rs, H'') = claim_run n cs H' in (r # rs, H''))"

locale exclusive_claim =
  fixes claim :: "u32 \<Rightarrow> (int, 's) prog"
    and release :: "u32 \<Rightarrow> (unit, 's) prog"
    and ok :: "'s \<Rightarrow> bool"
    and num :: "'s \<Rightarrow> nat"
    and held :: "'s \<Rightarrow> nat set"
  assumes claim_free: "ok s \<Longrightarrow> unat i < num s \<Longrightarrow> unat i \<notin> held s \<Longrightarrow>
      wp (claim i) (\<lambda>h t. h = sint i \<and> ok t \<and> num t = num s
        \<and> held t = insert (unat i) (held s)) s"
    and claim_refused: "ok s \<Longrightarrow> \<not> unat i < num s \<or> unat i \<in> held s \<Longrightarrow>
      claim i s = Ret INVALID_HANDLE s"
    and release_law: "ok s \<Longrightarrow>
      wp (release i) (\<lambda>_ t. ok t \<and> num t = num s \<and> held t = held s - {unat i}) s"
begin

lemma second_claim_refused:
  assumes "ok s" and "unat i < num s" and "unat i \<notin> held s"
  shows "wp (thn (claim i) (claim i)) (\<lambda>h t. h = INVALID_HANDLE \<and> unat i \<in> held t) s"
  unfolding wp_thn
  by (rule wp_mono [OF claim_free [OF assms]]) (use claim_refused in \<open>simp add: wp_def\<close>)

lemma reclaim_after_release:
  assumes "ok s" and "unat i < num s"
  shows "wp (thn (release i) (claim i)) (\<lambda>h t. h = sint i \<and> held t = insert (unat i) (held s)) s"
  unfolding wp_thn
proof (rule wp_mono [OF release_law [OF assms(1)]])
  fix t
  assume t: "ok t \<and> num t = num s \<and> held t = held s - {unat i}"
  then have "wp (claim i) (\<lambda>h u. h = sint i \<and> ok u \<and> num u = num t
      \<and> held u = insert (unat i) (held t)) t"
    using assms(2) by (intro claim_free) simp_all
  with t show "wp (claim i) (\<lambda>h u. h = sint i \<and> held u = insert (unat i) (held s)) t"
    by (auto elim!: wp_mono)
qed

fun perform :: "claim_op list \<Rightarrow> (int list, 's) prog" where
  "perform [] = ret []"
| "perform (Claim i # cs) = bnd (claim i) (\<lambda>h. bnd (perform cs) (\<lambda>rs. ret (h # rs)))"
| "perform (Release i # cs) = thn (release i) (bnd (perform cs) (\<lambda>rs. ret (0 # rs)))"

text \<open>Any sequence of claims and releases answers and ends like the abstract machine.\<close>

lemma perform_refines:
  "ok s \<Longrightarrow> wp (perform cs) (\<lambda>rs t. ok t \<and> num t = num s
     \<and> (rs, held t) = claim_run (num s) cs (held s)) s"
proof (induction cs arbitrary: s)
  case Nil
  then show ?case by (simp add: wp_ret)
next
  case (Cons c cs)
  have rest: "wp (bnd (perform cs) (\<lambda>rs. ret (r # rs)))
      (\<lambda>rs t. ok t \<and> num t = num s \<and> (rs, held t) = claim_run (num s) (c # cs) (held s)) t"
    if "ok t" "num t = num s" "(r, held t) = claim_step (num s) c (held s)" for t r
    unfolding wp_bnd
    by (rule wp_mono [OF Cons.IH [OF that(1)]])
      (use that in \<open>auto simp: wp_ret Let_def split: prod.split\<close>)
  show ?case
  proof (cases c)
    case c: (Claim i)
    show ?thesis
    proof (cases "unat i < num s \<and> unat i \<notin> held s")
      case True
      with c rest show ?thesis
        by (auto simp: wp_bnd [of "claim i"] intro!: wp_mono [OF claim_free [OF Cons.prems]])
    next
      case False
      then have "claim i s = Ret INVALID_HANDLE s" using claim_refused Cons.prems by blast
      moreover have "(INVALID_HANDLE, held s) = claim_step (num s) c (held s)" using False c by auto
      ultimately show ?thesis
        using c rest [OF Cons.prems refl] by (simp add: wp_bnd [of "claim i"] wp_def [of "claim i"])
    qed
  next
    case c: (Release i)
    with rest show ?thesis
      by (auto simp: wp_thn intro!: wp_mono [OF release_law [OF Cons.prems]])
  qed
qed

end

section \<open>The two claims of an interface\<close>

definition mmio_held :: "'e cmn_state_scheme \<Rightarrow> nat set" where
  "mmio_held s = {i. i < vec_size s \<and> is_mmio_opened (vec_abs s ! i)}"

definition interrupt_held :: "'e cmn_state_scheme \<Rightarrow> nat set" where
  "interrupt_held s = {i. i < vec_size s \<and> is_interrupt_opened (vec_abs s ! i)}"

text \<open>An update of one entry in range that keeps its parameters keeps the vector well formed.\<close>

lemma vec_upd_abs:
  assumes inv: "vec_inv s" and i: "i < vec_size s"
    and keep: "\<And>x. parameters (f x) = parameters x" "\<And>x. num_of_parameters (f x) = num_of_parameters x"
  shows "wp (vec_upd i f) (\<lambda>_ t. vec_inv t \<and> vec_abs t = (vec_abs s)[i := f (vec_abs s ! i)]
      \<and> vec_size t = vec_size s \<and> vec_blocks t = vec_blocks s
      \<and> t = s\<lparr>g_common_fpga_interface_info_vec := vec t\<rparr>) s"
proof -
  from inv i obtain xs where xs: "vec s = Some xs" "i < length xs" "xs ! i = vec_abs s ! i"
    by (rule vec_inv_Some)
  from inv xs(1) have len: "length xs = vec_reserved s" "vec_size s \<le> vec_reserved s"
    "0 < vec_reserved s" "list_all info_ok xs"
    "drop (vec_size s) xs = replicate (vec_reserved s - vec_size s) zero_info"
    by (simp_all add: vec_inv_def)
  let ?t = "s\<lparr>g_common_fpga_interface_info_vec := Some (xs[i := f (xs ! i)])\<rparr>"
  have ok: "info_ok (f (xs ! i))"
    using keep vec_inv_nth_ok [OF inv xs(1,2)] by (simp add: info_ok_def split: option.splits)
  have "vec_inv ?t"
    using len i ok by (auto simp: vec_inv_def list_all_length nth_list_update)
  moreover have abs: "vec_abs ?t = (vec_abs s)[i := f (vec_abs s ! i)]"
    using xs i by (simp add: vec_abs_def take_update_swap)
  moreover have "vec_blocks ?t = vec_blocks s"
  proof -
    have "blocks_of_info (f (vec_abs s ! i)) = blocks_of_info (vec_abs s ! i)"
      by (simp add: blocks_of_info_def keep)
    moreover have "i < length (vec_abs s)" using inv i by (simp add: length_vec_abs)
    ultimately have "sum_list (map blocks_of_info (vec_abs ?t))
        = sum_list (map blocks_of_info (vec_abs s))"
      unfolding abs by (simp add: sum_list_list_update)
    then show ?thesis
      unfolding vec_blocks_abs [of ?t] vec_blocks_abs [of s] using xs(1) by simp
  qed
  ultimately show ?thesis using xs by (cases s) (simp add: wp_vec_upd)
qed

interpretation mmio_claim: exclusive_claim fpga_open fpga_close vec_inv vec_size mmio_held
proof unfold_locales
  fix s :: "'a cmn_state_scheme" and i :: u32
  assume inv: "vec_inv s" and i: "unat i < vec_size s" and free: "unat i \<notin> mmio_held s"
  let ?f = "\<lambda>x. x\<lparr>is_mmio_opened := True\<rparr>"
  from inv i obtain xs where "vec s = Some xs" "unat i < length xs" "xs ! unat i = vec_abs s ! unat i"
    by (rule vec_inv_Some)
  with i free inv show "wp (fpga_open i) (\<lambda>h t. h = sint i \<and> vec_inv t \<and> vec_size t = vec_size s
      \<and> mmio_held t = insert (unat i) (mmio_held s)) s"
    by (auto simp: fpga_open_def wp_bnd wp_vec_size wp_vec_at wp_thn wp_ret mmio_held_def
        nth_list_update length_vec_abs intro!: wp_mono [OF vec_upd_abs [OF inv i]])
next
  fix s :: "'a cmn_state_scheme" and i :: u32
  assume inv: "vec_inv s" and no: "\<not> unat i < vec_size s \<or> unat i \<in> mmio_held s"
  show "fpga_open i s = Ret INVALID_HANDLE s"
  proof (cases "unat i < vec_size s")
    case True
    with inv obtain xs where "vec s = Some xs" "unat i < length xs"
      "xs ! unat i = vec_abs s ! unat i" by (rule vec_inv_Some)
    with True no show ?thesis
      by (simp add: fpga_open_def run_rules common_fpga_interface_info_vec_size_def
          common_fpga_interface_info_vec_at_def mmio_held_def)
  qed (simp add: fpga_open_def run_rules common_fpga_interface_info_vec_size_def)
next
  fix s :: "'a cmn_state_scheme" and i :: u32
  assume inv: "vec_inv s"
  show "wp (fpga_close i) (\<lambda>_ t. vec_inv t \<and> vec_size t = vec_size s
      \<and> mmio_held t = mmio_held s - {unat i}) s"
  proof (cases "unat i < vec_size s")
    case True
    from vec_upd_abs [OF inv True, of "\<lambda>x. x\<lparr>is_mmio_opened := False\<rparr>"] True inv show ?thesis
      by (auto simp: fpga_close_def wp_bnd wp_vec_size mmio_held_def nth_list_update
          length_vec_abs elim!: wp_mono split: if_splits)
  qed (auto simp: fpga_close_def wp_bnd wp_vec_size wp_ret inv mmio_held_def)
qed

interpretation interrupt_claim: exclusive_claim fpga_interrupt_open fpga_interrupt_close
  vec_inv vec_size interrupt_held
proof unfold_locales
  fix s :: "'a cmn_state_scheme" and i :: u32
  assume inv: "vec_inv s" and i: "unat i < vec_size s" and free: "unat i \<notin> interrupt_held s"
  from inv i obtain xs where "vec s = Some xs" "unat i < length xs" "xs ! unat i = vec_abs s ! unat i"
    by (rule vec_inv_Some)
  with i free inv show "wp (fpga_interrupt_open i) (\<lambda>h t. h = sint i \<and> vec_inv t
      \<and> vec_size t = vec_size s \<and> interrupt_held t = insert (unat i) (interrupt_held s)) s"
    by (auto simp: fpga_interrupt_open_def wp_bnd wp_vec_size wp_vec_at wp_thn wp_ret
        interrupt_held_def nth_list_update length_vec_abs intro!: wp_mono [OF vec_upd_abs [OF inv i]])
next
  fix s :: "'a cmn_state_scheme" and i :: u32
  assume inv: "vec_inv s" and no: "\<not> unat i < vec_size s \<or> unat i \<in> interrupt_held s"
  show "fpga_interrupt_open i s = Ret INVALID_HANDLE s"
  proof (cases "unat i < vec_size s")
    case True
    with inv obtain xs where "vec s = Some xs" "unat i < length xs"
      "xs ! unat i = vec_abs s ! unat i" by (rule vec_inv_Some)
    with True no show ?thesis
      by (simp add: fpga_interrupt_open_def run_rules common_fpga_interface_info_vec_size_def
          common_fpga_interface_info_vec_at_def interrupt_held_def)
  qed (simp add: fpga_interrupt_open_def run_rules common_fpga_interface_info_vec_size_def)
next
  fix s :: "'a cmn_state_scheme" and i :: u32
  assume inv: "vec_inv s"
  show "wp (fpga_interrupt_close i) (\<lambda>_ t. vec_inv t \<and> vec_size t = vec_size s
      \<and> interrupt_held t = interrupt_held s - {unat i}) s"
  proof (cases "unat i < vec_size s")
    case True
    from vec_upd_abs [OF inv True, of "\<lambda>x. x\<lparr>is_interrupt_opened := False\<rparr>"] True inv
    show ?thesis
      by (auto simp: fpga_interrupt_close_def wp_bnd wp_vec_size interrupt_held_def
          nth_list_update length_vec_abs elim!: wp_mono split: if_splits)
  qed (auto simp: fpga_interrupt_close_def wp_bnd wp_vec_size wp_ret inv interrupt_held_def)
qed

end
