(* ===== verification/Platform_Os.thy ===== *)
theory Platform_Os
  imports Dfl_Limits Mmio Inf_Contracts
begin

text \<open>
  What the platform layers take from the C library and the operating system.  Calls of the
  operating system are recorded in order in \<open>os_calls\<close>; their results are given by \<open>os_env\<close> as a
  function of the calls made before, so a theorem for every \<open>os_env\<close> covers every behaviour.
  The string functions of the C library that the argument parsers use (\<open>getopt_long\<close>,
  \<open>strtol\<close>, \<open>strtoul\<close>, \<open>strrchr\<close>, the digit tests) are defined.

  The integer argument parser has the same text in all three platforms
  (\<open>uio_parse_integer_arg\<close>, \<open>devmem_parse_integer_arg\<close>, \<open>parse_integer_arg\<close>); it is defined
  here once.
\<close>

section \<open>Calls of the operating system\<close>

datatype os_call =
    Open string bool
  | Mmap u64 int u64
  | Munmap u64 u64
  | Close int
  | Sem_init
  | Sem_getvalue
  | Sem_post
  | Rwlock_init
  | Rwlock_wrlock
  | Rwlock_unlock
  | Thread_create
  | Thread_join nat
  | Irq_connect int u64 u64
  | Irq_enable int
  | Irq_disable int
  | Syscon_read nat u32
  | Syscon_write nat u32 u32
  | Malloc u64
  | Free u64
  | Getcwd nat
  | Fopen string string
  | Fscanf u64 string
  | Fprintf u64 string "msg_arg list"
  | Fclose u64

record os_env =
  os_result :: "os_call list \<Rightarrow> os_call \<Rightarrow> int"
  os_pointer :: "os_call list \<Rightarrow> os_call \<Rightarrow> u64"
  os_word :: "os_call list \<Rightarrow> os_call \<Rightarrow> u32"
  os_errno :: "os_call list \<Rightarrow> os_call \<Rightarrow> int"
  os_file_hex :: "os_call list \<Rightarrow> os_call \<Rightarrow> u64"
  os_cwd :: "os_call list \<Rightarrow> string option"

record os_state = mmio_state +
  os :: os_env
  os_calls :: "os_call list"
  errno :: int

type_synonym ('e, 'a) osp = "('a, 'e os_state_scheme) prog"

definition MAP_FAILED :: u64 where "MAP_FAILED = -1"
definition ERANGE :: int where "ERANGE = 34"
definition LONG_MAX :: int where "LONG_MAX = 2 ^ 63 - 1"

definition record_call :: "os_call \<Rightarrow> ('e, unit) osp" where
  "record_call c = modify (\<lambda>s. s\<lparr>os_calls := os_calls s @ [c]\<rparr>)"

text \<open>A call with an \<open>int\<close> result; a negative one sets \<open>errno\<close>.\<close>

definition syscall :: "os_call \<Rightarrow> ('e, int) osp" where
  "syscall c =
     bnd (gets (\<lambda>s. os_result (os s) (os_calls s) c)) (\<lambda>r.
     bnd (gets (\<lambda>s. os_errno (os s) (os_calls s) c)) (\<lambda>en.
     thn (record_call c)
    (thn (if r < 0 then modify (\<lambda>s. s\<lparr>errno := en\<rparr>) else ret ())
         (ret r))))"

text \<open>A call with a pointer result, \<open>MAP_FAILED\<close> being the failure.\<close>

definition syscall_ptr :: "os_call \<Rightarrow> ('e, u64) osp" where
  "syscall_ptr c =
     bnd (gets (\<lambda>s. os_pointer (os s) (os_calls s) c)) (\<lambda>p.
     bnd (gets (\<lambda>s. os_errno (os s) (os_calls s) c)) (\<lambda>en.
     thn (record_call c)
    (thn (if p = MAP_FAILED then modify (\<lambda>s. s\<lparr>errno := en\<rparr>) else ret ())
         (ret p))))"

text \<open>A call that opens a file, null being the failure.\<close>

definition syscall_file :: "os_call \<Rightarrow> ('e, u64) osp" where
  "syscall_file c =
     bnd (gets (\<lambda>s. os_pointer (os s) (os_calls s) c)) (\<lambda>p.
     bnd (gets (\<lambda>s. os_errno (os s) (os_calls s) c)) (\<lambda>en.
     thn (record_call c)
    (thn (if p = 0 then modify (\<lambda>s. s\<lparr>errno := en\<rparr>) else ret ())
         (ret p))))"

text \<open>A call whose result is ignored.\<close>

definition syscall_ignored :: "os_call \<Rightarrow> ('e, unit) osp" where
  "syscall_ignored c = bnd (syscall c) (\<lambda>_. ret ())"

definition error_line :: "string \<Rightarrow> msg_arg list \<Rightarrow> ('e, unit) cmn" where
  "error_line fmt args = bnd (fpga_msg_printf FPGA_MSG_PRINTF_ERROR fmt args) (\<lambda>_. ret ())"

definition debug_line :: "string \<Rightarrow> msg_arg list \<Rightarrow> ('e, unit) cmn" where
  "debug_line fmt args = bnd (fpga_msg_printf FPGA_MSG_PRINTF_DEBUG fmt args) (\<lambda>_. ret ())"

section \<open>Characters and numbers\<close>

definition code_of :: "char \<Rightarrow> nat" where
  "code_of c = of_char c"

definition isdigit :: "char \<Rightarrow> bool" where
  "isdigit c \<longleftrightarrow> 48 \<le> code_of c \<and> code_of c \<le> 57"

definition isxdigit :: "char \<Rightarrow> bool" where
  "isxdigit c \<longleftrightarrow> isdigit c \<or> 65 \<le> code_of c \<and> code_of c \<le> 70
     \<or> 97 \<le> code_of c \<and> code_of c \<le> 102"

definition isspace :: "char \<Rightarrow> bool" where
  "isspace c \<longleftrightarrow> code_of c = 32 \<or> 9 \<le> code_of c \<and> code_of c \<le> 13"

text \<open>The value of a digit; 36 and more for no digit.\<close>

definition digit_value :: "char \<Rightarrow> nat" where
  "digit_value c =
     (if isdigit c then code_of c - 48
      else if 65 \<le> code_of c \<and> code_of c \<le> 90 then code_of c - 55
      else if 97 \<le> code_of c \<and> code_of c \<le> 122 then code_of c - 87
      else 36)"

text \<open>The longest prefix of digits of a base: its value and the rest of the string.\<close>

fun digits :: "nat \<Rightarrow> nat \<Rightarrow> string \<Rightarrow> nat \<times> string" where
  "digits base acc [] = (acc, [])"
| "digits base acc (c # cs) =
     (if digit_value c < base then digits base (base * acc + digit_value c) cs
      else (acc, c # cs))"

definition has_0x :: "string \<Rightarrow> bool" where
  "has_0x cs \<longleftrightarrow> 2 \<le> length cs \<and> cs ! 0 = CHR ''0'' \<and> (cs ! 1 = CHR ''x'' \<or> cs ! 1 = CHR ''X'')"

text \<open>\<open>strtol(cs, NULL, 0)\<close> of a string that starts with a digit or is empty: the value, and whether
  it is out of range, when the value is \<open>LONG_MAX\<close> and \<open>errno\<close> is set.\<close>

definition strtol_0 :: "string \<Rightarrow> int \<times> bool" where
  "strtol_0 cs =
     (let v = (if has_0x cs \<and> drop 2 cs \<noteq> [] \<and> isxdigit (hd (drop 2 cs))
               then fst (digits 16 0 (drop 2 cs))
               else if cs \<noteq> [] \<and> hd cs = CHR ''0'' then fst (digits 8 0 cs)
               else fst (digits 10 0 cs))
      in if int v > LONG_MAX then (LONG_MAX, True) else (int v, False))"

text \<open>\<open>strtoul(cs, &endptr, 10)\<close>: white space, a sign, digits; the value modulo the width or its
  maximum, and the rest at \<open>endptr\<close> (the whole string when there is no digit).\<close>

definition strtoul_10 :: "string \<Rightarrow> u64 \<times> string" where
  "strtoul_10 cs =
     (let t = dropWhile isspace cs;
          neg = (t \<noteq> [] \<and> hd t = CHR ''-'');
          u = (if t \<noteq> [] \<and> (hd t = CHR ''-'' \<or> hd t = CHR ''+'') then tl t else t)
      in if u = [] \<or> \<not> isdigit (hd u) then (0, cs)
         else (let (v, rest) = digits 10 0 u in
               (if v \<ge> 2 ^ 64 then -1 else if neg then - of_nat v else of_nat v, rest)))"

text \<open>\<open>strrchr\<close>: the suffix from the last occurrence.\<close>

fun strrchr :: "string \<Rightarrow> char \<Rightarrow> string option" where
  "strrchr [] d = None"
| "strrchr (c # cs) d =
     (case strrchr cs d of Some t \<Rightarrow> Some t | None \<Rightarrow> if c = d then Some (c # cs) else None)"

text \<open>\<open>%d\<close>.\<close>

definition digit_char :: "nat \<Rightarrow> char" where
  "digit_char n = char_of (48 + n)"

fun dec_rev :: "nat \<Rightarrow> string" where
  "dec_rev n = (if n < 10 then [digit_char n] else digit_char (n mod 10) # dec_rev (n div 10))"

definition show_nat :: "nat \<Rightarrow> string" where
  "show_nat n = rev (dec_rev n)"

definition show_int :: "int \<Rightarrow> string" where
  "show_int i = (if i < 0 then CHR ''-'' # show_nat (nat (- i)) else show_nat (nat i))"

section \<open>The integer argument parser\<close>

definition parse_integer_arg :: "string \<Rightarrow> string \<Rightarrow> ('e, int) osp" where
  "parse_integer_arg name optarg =
     (let is_all_digit = (if has_0x optarg then list_all isxdigit (drop 2 optarg)
                          else list_all isdigit optarg)
      in if is_all_digit then
           (let (v, range) = strtol_0 optarg in
            thn (if range then modify (\<lambda>s. s\<lparr>errno := ERANGE\<rparr>) else ret ())
           (bnd (gets errno) (\<lambda>e.
            if e = ERANGE then
              thn (error_line ''%s value is too big. %s is provided; maximum accepted is %ld''
                     [Arg_str name, Arg_str optarg, Arg_int LONG_MAX])
                  (ret 0)
            else ret v)))
         else
           thn (error_line
                  ''Invalid argument value type is provided. A integer value is expected. %s is provided.''
                  [Arg_str optarg])
               (ret 0))"

section \<open>Options\<close>

text \<open>An entry of the table of long options: name, whether an argument is required, whether it sets a
  flag, and the character.\<close>

datatype long_option = Long_option string bool bool char

fun opt_name :: "long_option \<Rightarrow> string" where "opt_name (Long_option n r f c) = n"

datatype opt_event =
    Opt_arg char string
  | Opt_char char
  | Opt_flag char
  | Opt_error

text \<open>A cluster of short options, such as \<open>-dp path\<close>; the arguments after it may be used up.\<close>

fun short_cluster ::
    "(char \<times> bool) list \<Rightarrow> string \<Rightarrow> string list \<Rightarrow> opt_event list \<times> string list" where
  "short_cluster shorts [] args = ([], args)"
| "short_cluster shorts (c # cs) args =
     (case map_of shorts c of
        None \<Rightarrow> (let (evs, rest) = short_cluster shorts cs args in (Opt_error # evs, rest))
      | Some False \<Rightarrow> (let (evs, rest) = short_cluster shorts cs args in (Opt_char c # evs, rest))
      | Some True \<Rightarrow>
          if cs \<noteq> [] then ([Opt_arg c cs], args)
          else (case args of [] \<Rightarrow> ([Opt_error], []) | a # as \<Rightarrow> ([Opt_arg c a], as)))"

definition is_prefix :: "string \<Rightarrow> string \<Rightarrow> bool" where
  "is_prefix xs ys \<longleftrightarrow> take (length xs) ys = xs"

definition find_long :: "long_option list \<Rightarrow> string \<Rightarrow> long_option option" where
  "find_long longs name =
     (case filter (\<lambda>l. opt_name l = name) longs of
        l # _ \<Rightarrow> Some l
      | [] \<Rightarrow> (case filter (\<lambda>l. is_prefix name (opt_name l)) longs of
                 [l] \<Rightarrow> Some l
               | _ \<Rightarrow> None))"

definition long_one ::
    "long_option list \<Rightarrow> string \<Rightarrow> string list \<Rightarrow> opt_event list \<times> string list" where
  "long_one longs text args =
     (let name = takeWhile (\<lambda>c. c \<noteq> CHR ''='') text;
          val = (let r = drop (length name) text in if r = [] then None else Some (tl r))
      in case find_long longs name of
           None \<Rightarrow> ([Opt_error], args)
         | Some (Long_option n required flag c) \<Rightarrow>
             if required then
               (case val of
                  Some v \<Rightarrow> ([Opt_arg c v], args)
                | None \<Rightarrow> (case args of [] \<Rightarrow> ([Opt_error], []) | a # as \<Rightarrow> ([Opt_arg c a], as)))
             else if val \<noteq> None then ([Opt_error], args)
             else if flag then ([Opt_flag c], args) else ([Opt_char c], args))"

lemma short_cluster_length: "length (snd (short_cluster shorts cs args)) \<le> length args"
  by (induction cs) (auto split: option.split bool.split list.split prod.split simp: Let_def)

lemma long_one_length: "length (snd (long_one longs text args)) \<le> length args"
  by (auto simp: long_one_def Let_def split: option.split long_option.split list.split)

text \<open>The options that repeated calls of \<open>getopt_long\<close> report, over the arguments after the program
  name: other arguments are passed over, \<open>--\<close> ends the options.\<close>

function getopt_long ::
    "(char \<times> bool) list \<Rightarrow> long_option list \<Rightarrow> string list \<Rightarrow> opt_event list" where
  "getopt_long shorts longs [] = []"
| "getopt_long shorts longs (a # as) =
     (if a = ''--'' then []
      else if is_prefix ''--'' a then
        fst (long_one longs (drop 2 a) as) @ getopt_long shorts longs (snd (long_one longs (drop 2 a) as))
      else if is_prefix ''-'' a \<and> a \<noteq> ''-'' then
        fst (short_cluster shorts (drop 1 a) as)
        @ getopt_long shorts longs (snd (short_cluster shorts (drop 1 a) as))
      else getopt_long shorts longs as)"
  by pat_completeness auto

termination
  by (relation "measure (\<lambda>(_, _, as). length as)")
    (auto intro: le_imp_less_Suc short_cluster_length long_one_length)

section \<open>Rules\<close>

text \<open>Every message of the platforms is of a valid type; only \<open>out\<close> changes.\<close>

lemma run_lines [run_rules]:
  "can_print s \<Longrightarrow> info_line fmt args s =
     Ret () (s\<lparr>out := out s @ msg_events s FPGA_MSG_PRINTF_INFO fmt args\<rparr>)"
  "can_print s \<Longrightarrow> error_line fmt args s =
     Ret () (s\<lparr>out := out s @ msg_events s FPGA_MSG_PRINTF_ERROR fmt args\<rparr>)"
  "can_print s \<Longrightarrow> debug_line fmt args s =
     Ret () (s\<lparr>out := out s @ msg_events s FPGA_MSG_PRINTF_DEBUG fmt args\<rparr>)"
  by (simp_all add: info_line_def error_line_def debug_line_def run_rules run_msg valid_msg_type_def)

lemma can_print_simps [simp]:
  "can_print (s\<lparr>out := o1\<rparr>) = can_print s"
  "can_print (s\<lparr>g_common_fpga_interface_info_vec := v\<rparr>) = can_print s"
  "can_print (s\<lparr>live := l\<rparr>) = can_print s" "can_print (s\<lparr>alloc_no := n\<rparr>) = can_print s"
  by (simp_all add: can_print_def)

lemma can_print_os [simp]:
  fixes s :: "'e os_state_scheme"
  shows "can_print (s\<lparr>errno := e\<rparr>) = can_print s" "can_print (s\<lparr>os_calls := c\<rparr>) = can_print s"
  by (simp_all add: can_print_def)

lemma run_syscall [run_rules]:
  "syscall c s =
     (let r = os_result (os s) (os_calls s) c in
      Ret r (s\<lparr>os_calls := os_calls s @ [c],
               errno := (if r < 0 then os_errno (os s) (os_calls s) c else errno s)\<rparr>))"
  by (cases s) (simp add: syscall_def run_rules record_call_def Let_def)

lemma run_syscall_ptr [run_rules]:
  "syscall_ptr c s =
     (let p = os_pointer (os s) (os_calls s) c in
      Ret p (s\<lparr>os_calls := os_calls s @ [c],
               errno := (if p = MAP_FAILED then os_errno (os s) (os_calls s) c else errno s)\<rparr>))"
  by (cases s) (simp add: syscall_ptr_def run_rules record_call_def Let_def)

lemma run_syscall_file [run_rules]:
  "syscall_file c s =
     (let p = os_pointer (os s) (os_calls s) c in
      Ret p (s\<lparr>os_calls := os_calls s @ [c],
               errno := (if p = 0 then os_errno (os s) (os_calls s) c else errno s)\<rparr>))"
  by (cases s) (simp add: syscall_file_def run_rules record_call_def Let_def)

lemma run_syscall_ignored [run_rules]:
  "syscall_ignored c s =
     Ret () (s\<lparr>os_calls := os_calls s @ [c],
               errno := (if os_result (os s) (os_calls s) c < 0
                         then os_errno (os s) (os_calls s) c else errno s)\<rparr>)"
  by (simp add: syscall_ignored_def run_rules Let_def)

lemma wp_lines [wp_rules]:
  "can_print s \<Longrightarrow> wp (info_line fmt args) Q s =
     Q () (s\<lparr>out := out s @ msg_events s FPGA_MSG_PRINTF_INFO fmt args\<rparr>)"
  "can_print s \<Longrightarrow> wp (error_line fmt args) Q s =
     Q () (s\<lparr>out := out s @ msg_events s FPGA_MSG_PRINTF_ERROR fmt args\<rparr>)"
  "can_print s \<Longrightarrow> wp (debug_line fmt args) Q s =
     Q () (s\<lparr>out := out s @ msg_events s FPGA_MSG_PRINTF_DEBUG fmt args\<rparr>)"
  by (simp_all add: wp_def run_lines)

text \<open>The state after a call.\<close>

definition called :: "os_call \<Rightarrow> bool \<Rightarrow> 'e os_state_scheme \<Rightarrow> 'e os_state_scheme" where
  "called c failed s =
     s\<lparr>os_calls := os_calls s @ [c],
       errno := (if failed then os_errno (os s) (os_calls s) c else errno s)\<rparr>"

lemma wp_syscall [wp_rules]:
  "wp (syscall c) Q s =
     Q (os_result (os s) (os_calls s) c) (called c (os_result (os s) (os_calls s) c < 0) s)"
  by (simp add: wp_def run_syscall Let_def called_def)

lemma wp_syscall_ptr [wp_rules]:
  "wp (syscall_ptr c) Q s =
     Q (os_pointer (os s) (os_calls s) c)
       (called c (os_pointer (os s) (os_calls s) c = MAP_FAILED) s)"
  by (simp add: wp_def run_syscall_ptr Let_def called_def)

lemma wp_syscall_file [wp_rules]:
  "wp (syscall_file c) Q s =
     Q (os_pointer (os s) (os_calls s) c)
       (called c (os_pointer (os s) (os_calls s) c = 0) s)"
  by (simp add: wp_def run_syscall_file Let_def called_def)

lemma wp_syscall_ignored [wp_rules]:
  "wp (syscall_ignored c) Q s = Q () (called c (os_result (os s) (os_calls s) c < 0) s)"
  by (simp add: wp_def run_syscall_ignored called_def)

lemma called_simps [simp]:
  fixes s :: "'e os_state_scheme"
  shows "os_calls (called c f s) = os_calls s @ [c]" "os (called c f s) = os s"
    "can_print (called c f s) = can_print s" "env (called c f s) = env s"
    "mem (called c f s) = mem s" "out (called c f s) = out s" "live (called c f s) = live s"
    "g_common_fpga_platform_printf (called c f s) = g_common_fpga_platform_printf s"
    "alloc_no (called c f s) = alloc_no s"
    "g_common_fpga_interface_info_vec (called c f s) = g_common_fpga_interface_info_vec s"
    "g_common_fpga_interface_info_vec_size (called c f s) = g_common_fpga_interface_info_vec_size s"
    "g_common_fpga_interface_info_vec_reserved (called c f s)
       = g_common_fpga_interface_info_vec_reserved s"
    "dfh_parent_stack (called c f s) = dfh_parent_stack s"
    "g_common_fpga_platform_runtime_exception_handler (called c f s)
       = g_common_fpga_platform_runtime_exception_handler s"
    "os_state.more (called c f s) = os_state.more s"
  by (simp_all add: called_def)

section \<open>Numbers that are printed and parsed\<close>

lemma code_digit_char: "n < 10 \<Longrightarrow> code_of (digit_char n) = 48 + n"
  by (simp add: code_of_def digit_char_def)

lemma digit_char_props:
  assumes "n < 10"
  shows "isdigit (digit_char n)" and "digit_value (digit_char n) = n"
    and "digit_char n \<noteq> CHR ''x''" and "digit_char n \<noteq> CHR ''X''"
proof -
  show d: "isdigit (digit_char n)" "digit_value (digit_char n) = n"
    using assms by (simp_all add: isdigit_def digit_value_def code_digit_char)
  have "code_of (digit_char n) \<le> 57" using assms by (simp add: code_digit_char)
  then show "digit_char n \<noteq> CHR ''x''" and "digit_char n \<noteq> CHR ''X''"
    by (auto simp: code_of_def)
qed

declare dec_rev.simps [simp del]

lemma digits_append_one:
  "digits 10 acc cs = (v, []) \<Longrightarrow> n < 10 \<Longrightarrow>
   digits 10 acc (cs @ [digit_char n]) = (10 * v + n, [])"
  by (induction cs arbitrary: acc) (auto simp: digit_char_props split: if_splits)

lemma digits_show: "digits 10 0 (show_nat n) = (n, [])"
  unfolding show_nat_def
proof (induction n rule: dec_rev.induct)
  case (1 n)
  show ?case
  proof (cases "n < 10")
    case True
    then show ?thesis by (simp add: dec_rev.simps [of n] digit_char_props)
  next
    case False
    with 1 have "digits 10 0 (rev (dec_rev (n div 10))) = (n div 10, [])" by simp
    from digits_append_one [OF this, of "n mod 10"] False show ?thesis
      by (simp add: dec_rev.simps [of n])
  qed
qed

lemma show_nat_digits: "list_all isdigit (show_nat n)"
  unfolding show_nat_def
proof (induction n rule: dec_rev.induct)
  case (1 n)
  then show ?case
    by (cases "n < 10") (simp_all add: dec_rev.simps [of n] digit_char_props)
qed

lemma show_nat_first:
  assumes "0 < n"
  shows "\<exists>c cs. show_nat n = c # cs \<and> c \<noteq> CHR ''0''"
proof -
  have "\<exists>c cs. rev (dec_rev m) = c # cs \<and> c \<noteq> CHR ''0''" if "0 < m" for m
    using that
  proof (induction m rule: dec_rev.induct)
    case (1 m)
    show ?case
    proof (cases "m < 10")
      case True
      have "code_of (digit_char m) \<noteq> code_of (CHR ''0'')"
        using True 1 by (simp add: code_digit_char) (simp add: code_of_def)
      with True show ?thesis by (auto simp: dec_rev.simps [of m])
    next
      case False
      then have "0 < m div 10" by (simp add: div_greater_zero_iff)
      from 1(1) [OF False this] obtain c cs
        where "rev (dec_rev (m div 10)) = c # cs" "c \<noteq> CHR ''0''" by blast
      with False show ?thesis by (simp add: dec_rev.simps [of m])
    qed
  qed
  with assms show ?thesis by (simp add: show_nat_def)
qed

lemma strtol_show: "strtol_0 (show_nat n) = (if int n > LONG_MAX then (LONG_MAX, True) else (int n, False))"
proof (cases "n = 0")
  case True
  then show ?thesis
    by (simp add: show_nat_def dec_rev.simps digit_char_def strtol_0_def has_0x_def LONG_MAX_def
        digit_value_def isdigit_def code_of_def)
next
  case False
  then obtain c cs where "show_nat n = c # cs" "c \<noteq> CHR ''0''" using show_nat_first by blast
  with digits_show [of n] show ?thesis by (auto simp: strtol_0_def has_0x_def Let_def)
qed

lemma has_0x_show: "\<not> has_0x (show_nat n)"
proof (cases "n = 0")
  case True
  then show ?thesis by (simp add: show_nat_def dec_rev.simps has_0x_def digit_char_def)
next
  case False
  then obtain c cs where "show_nat n = c # cs" "c \<noteq> CHR ''0''" using show_nat_first by blast
  then show ?thesis by (simp add: has_0x_def)
qed

text \<open>A decimal argument in range is read back, unless \<open>errno\<close> still holds an earlier \<open>ERANGE\<close>.\<close>

lemma run_parse_show:
  assumes "int n \<le> LONG_MAX" and "can_print s"
  shows "parse_integer_arg name (show_nat n) s =
     (if errno s \<noteq> ERANGE then Ret (int n) s
      else Ret 0 (s\<lparr>out := out s @ msg_events s FPGA_MSG_PRINTF_ERROR
             ''%s value is too big. %s is provided; maximum accepted is %ld''
             [Arg_str name, Arg_str (show_nat n), Arg_int LONG_MAX]\<rparr>))"
  using assms
  by (simp add: parse_integer_arg_def has_0x_show show_nat_digits strtol_show run_rules)

end
