(* ===== verification/Platform_Table.thy ===== *)
theory Platform_Table
  imports Platform_Os
begin

text \<open>
  What the platform layers do to the table of interfaces, shared by the three platforms: the entry
  of a single component, the release of the table, and the range check of a handle.
\<close>

section \<open>A single component\<close>

text \<open>The single entry of the single-component mode.\<close>

definition single_entry :: "u64 \<Rightarrow> FPGA_INTERFACE_INFO" where
  "single_entry b = zero_info\<lparr>base_address := b\<rparr>"

lemma single_entry_self:
  "zero_info\<lparr>base_address := b, is_mmio_opened := False, is_interrupt_opened := False\<rparr>
     = single_entry b"
  by (simp add: single_entry_def zero_info_def)

lemma blocks_of_single [simp]: "blocks_of_info (single_entry b) = 0"
  and info_ok_single [simp]: "info_ok (single_entry b)"
  by (simp_all add: single_entry_def blocks_of_info_def info_ok_def)

lemma wp_single_entry:
  fixes s :: "'e cmn_state_scheme"
  assumes inv: "vec_inv s" and empty: "vec_abs s = []" and ok: "allocs_ok s"
  shows "wp (thn (common_fpga_interface_info_vec_resize 1)
           (thn (vec_upd 0 (\<lambda>x. x\<lparr>base_address := b\<rparr>))
           (thn (vec_upd 0 (\<lambda>x. x\<lparr>is_mmio_opened := False\<rparr>))
                (vec_upd 0 (\<lambda>x. x\<lparr>is_interrupt_opened := False\<rparr>)))))
     (\<lambda>_ t. vec_inv t \<and> vec_abs t = [single_entry b]
        \<and> live t - vec_blocks t = live s - vec_blocks s
        \<and> (\<exists>v n r l al. t = s\<lparr>g_common_fpga_interface_info_vec := v,
              g_common_fpga_interface_info_vec_size := n,
              g_common_fpga_interface_info_vec_reserved := r, live := l, alloc_no := al\<rparr>)) s"
proof -
  define r where "r = reserved_after 1 (vec_reserved s)"
  define t where "t = (resized 1 s)\<lparr>g_common_fpga_interface_info_vec :=
      Some (single_entry b # replicate (r - 1) zero_info)\<rparr>"
  have r: "0 < r" by (simp add: r_def reserved_after_def)
  have v: "vec (resized 1 s) = Some (zero_info # replicate (r - 1) zero_info)"
    by (simp add: resized_vec empty list_resize_def r_def)
  have "wp (thn (common_fpga_interface_info_vec_resize 1)
           (thn (vec_upd 0 (\<lambda>x. x\<lparr>base_address := b\<rparr>))
           (thn (vec_upd 0 (\<lambda>x. x\<lparr>is_mmio_opened := False\<rparr>))
                (vec_upd 0 (\<lambda>x. x\<lparr>is_interrupt_opened := False\<rparr>))))) Q s = Q () t" for Q
    by (simp add: wp_thn wp_resize_ok [OF inv ok] wp_vec_upd v single_entry_self t_def
        del: One_nat_def)
  moreover have tv: "vec t = Some (single_entry b # replicate (r - 1) zero_info)"
    "vec_size t = 1" "vec_reserved t = r" "live t = live (resized 1 s)"
    by (simp_all add: t_def resized_vec r_def)
  have abs: "vec_abs t = [single_entry b]" by (simp add: vec_abs_def tv)
  moreover have "vec_inv t"
    using r by (simp add: vec_inv_def tv list_all_replicate_zero)
  moreover have "live t - vec_blocks t = live s - vec_blocks s"
  proof -
    have "vec_abs (resized 1 s) = [zero_info]"
      by (simp add: resized_abs [OF inv] empty list_resize_def)
    with v have "vec_blocks (resized 1 s) = 1"
      unfolding vec_blocks_abs [of "resized 1 s"] by (simp del: One_nat_def)
    moreover have "vec_blocks t = 1" by (simp add: vec_blocks_abs [of t] abs tv)
    ultimately have "vec_blocks t = vec_blocks (resized 1 s)" by simp
    with resized_live [OF inv, of 1] tv(4) show ?thesis by simp
  qed
  moreover have "\<exists>v n r l al. t = s\<lparr>g_common_fpga_interface_info_vec := v,
              g_common_fpga_interface_info_vec_size := n,
              g_common_fpga_interface_info_vec_reserved := r, live := l, alloc_no := al\<rparr>"
    by (cases s) (auto simp: t_def resized_def)
  ultimately show ?thesis by simp
qed

section \<open>Release\<close>

text \<open>A table without entries has no array.\<close>

definition table_tight :: "'e cmn_state_scheme \<Rightarrow> bool" where
  "table_tight s \<longleftrightarrow> vec_inv s \<and> (vec_size s = 0 \<longrightarrow> vec s = None)"

lemma table_tight_resized: "vec_inv s \<Longrightarrow> table_tight (resized n s)"
  by (simp add: table_tight_def resized_inv resized_vec)

text \<open>The end of every cleanup: the table is released if it has entries.\<close>

definition release_table :: "('e, unit) cmn" where
  "release_table =
     bnd common_fpga_interface_info_vec_size (\<lambda>n.
     if n > 0 then common_fpga_interface_info_vec_resize 0 else ret ())"

lemma wp_release_table:
  assumes tight: "table_tight s"
  shows "wp release_table (\<lambda>_ t. vec t = None \<and> vec_size t = 0 \<and> vec_inv t
      \<and> live t = live s - vec_blocks s
      \<and> (\<exists>v n r l. t = s\<lparr>g_common_fpga_interface_info_vec := v,
              g_common_fpga_interface_info_vec_size := n,
              g_common_fpga_interface_info_vec_reserved := r, live := l\<rparr>)) s"
proof (cases "vec_size s = 0")
  case True
  with tight have v: "vec s = None" by (simp add: table_tight_def)
  then have "vec_blocks s = 0" by (simp add: vec_blocks_def)
  moreover have "\<exists>v n r l. s = s\<lparr>g_common_fpga_interface_info_vec := v,
              g_common_fpga_interface_info_vec_size := n,
              g_common_fpga_interface_info_vec_reserved := r, live := l\<rparr>"
    by (cases s) auto
  ultimately show ?thesis
    using True v tight by (simp add: release_table_def wp_bnd wp_vec_size wp_ret table_tight_def)
next
  case False
  from tight have inv: "vec_inv s" by (simp add: table_tight_def)
  have "live (resized 0 s) = live s - vec_blocks s"
    using resized_live [OF inv, of 0] vec_blocks_abs [of "resized 0 s"] by (simp add: resized_vec)
  moreover have "\<exists>v n r l. resized 0 s = s\<lparr>g_common_fpga_interface_info_vec := v,
              g_common_fpga_interface_info_vec_size := n,
              g_common_fpga_interface_info_vec_reserved := r, live := l\<rparr>"
    by (cases s) (auto simp: resized_def)
  ultimately show ?thesis
    using False by (simp add: release_table_def wp_bnd wp_vec_size wp_resize_0 [OF inv] resized_vec
        resized_inv [OF inv])
qed

section \<open>Handles\<close>

text \<open>The comparison of the \<open>int\<close> handle with the \<open>size_t\<close> size converts the handle.\<close>

definition valid_handle :: "int \<Rightarrow> nat \<Rightarrow> bool" where
  "valid_handle handle n \<longleftrightarrow> size_t_of_int handle < n"

lemma valid_handle_iff:
  assumes "-1 \<le> h" and "h \<le> INT_MAX" and "n < 2 ^ 63"
  shows "valid_handle h n \<longleftrightarrow> 0 \<le> h \<and> nat h < n"
  using assms by (cases "0 \<le> h") (auto simp: valid_handle_def size_t_of_int_negative)

section \<open>Queries\<close>

text \<open>What the discovery functions return on a table.\<close>

lemma run_num_of_interfaces:
  "vec_inv s \<Longrightarrow> fpga_get_num_of_interfaces s = Ret (of_nat (length (vec_abs s))) s"
  by (simp add: fpga_get_num_of_interfaces_def common_fpga_interface_info_vec_size_def run_rules
      length_vec_abs)

lemma run_interface_at:
  assumes "vec_inv s"
  shows "fpga_get_interface_at i True s =
     (if unat i < length (vec_abs s) then Ret (True, Some (vec_abs s ! unat i)) s
      else Ret (False, None) s)"
proof (cases "unat i < vec_size s")
  case True
  with assms obtain xs where "vec s = Some xs" "unat i < length xs" "xs ! unat i = vec_abs s ! unat i"
    by (rule vec_inv_Some)
  with True assms show ?thesis
    by (simp add: fpga_get_interface_at_def common_fpga_interface_info_vec_size_def
        common_fpga_interface_info_vec_at_def run_rules length_vec_abs)
next
  case False
  with assms show ?thesis
    by (simp add: fpga_get_interface_at_def common_fpga_interface_info_vec_size_def run_rules
        length_vec_abs)
qed

end
