(* ===== verification/Platform_Uio.thy ===== *)
theory Platform_Uio
  imports Platform_Table
begin

text \<open>
  The UIO platform: \<open>uio/src/intel_fpga_platform_api_uio.c\<close> (options, sysfs, driver, mapping, scan,
  interrupt thread creation, initialisation and cleanup) and \<open>uio/src/intel_fpga_api_uio.c\<close> (the
  interrupt API).  The interrupt thread itself is theory \<open>Uio_Interrupts\<close>.  The build is the one
  without \<open>UIO_UNIT_TEST_SW_MODEL_MODE\<close> and without \<open>_BSD_SOURCE\<close>.
\<close>

section \<open>State\<close>

record uio_state = os_state +
  s_uio_drv_path :: "string option"
  s_uio_addr_span :: u64
  s_dfl_entry_addr :: u64
  s_uio_single_component_mode :: int
  s_uio_start_addr :: u64
  s_uio_inThread_timeout :: nat
  s_uio_drv_handle :: int
  s_uio_mmap_ptr :: u64
  s_intThread_id :: nat
  s_intFlags :: int
  g_intSem :: int

type_synonym ('e, 'a) uio = "('a, 'e uio_state_scheme) prog"

text \<open>The static initialisers; \<open>g_intSem\<close> has none and is all zeros until \<open>sem_init\<close>.\<close>

definition uio_static :: "'e uio_state_scheme \<Rightarrow> bool" where
  "uio_static s \<longleftrightarrow>
     s_uio_drv_path s = Some ''/dev/uio0'' \<and> s_uio_addr_span s = 0 \<and> s_dfl_entry_addr s = 0
     \<and> s_uio_single_component_mode s = 1 \<and> s_uio_start_addr s = 0
     \<and> s_uio_inThread_timeout s = 0 \<and> s_uio_drv_handle s = -1 \<and> s_uio_mmap_ptr s = 0
     \<and> s_intThread_id s = 0 \<and> s_intFlags s = 0 \<and> g_intSem s = 0"

definition FPGA_PLATFORM_INT_THREAD_EXIT :: int where "FPGA_PLATFORM_INT_THREAD_EXIT = 1"

section \<open>Options\<close>

definition uio_parse_integer_arg :: "string \<Rightarrow> string \<Rightarrow> ('e, int) uio" where
  "uio_parse_integer_arg name optarg = parse_integer_arg name optarg"

definition uio_long_options :: "long_option list" where
  "uio_long_options =
     [Long_option ''uio-driver-path'' True False (CHR ''p''),
      Long_option ''start-address'' True False (CHR ''a''),
      Long_option ''address-span'' True False (CHR ''s''),
      Long_option ''dfl-entry-address'' True False (CHR ''w''),
      Long_option ''show-dbg-msg'' False True (CHR ''d''),
      Long_option ''single-component-mode'' False True (CHR ''c'')]"

definition uio_short_options :: "(char \<times> bool) list" where
  "uio_short_options =
     [(CHR ''p'', True), (CHR ''a'', True), (CHR ''w'', True), (CHR ''s'', True),
      (CHR ''d'', False), (CHR ''c'', False)]"

text \<open>The body of the loop; a flag of the table is stored by \<open>getopt_long\<close> itself.\<close>

fun uio_option :: "opt_event \<Rightarrow> ('e, unit) uio" where
  "uio_option (Opt_arg c optarg) =
     (if c = CHR ''p'' then modify (\<lambda>s. s\<lparr>s_uio_drv_path := Some optarg\<rparr>)
      else if c = CHR ''s'' then
        bnd (uio_parse_integer_arg ''Address span'' optarg) (\<lambda>v.
        modify (\<lambda>s. s\<lparr>s_uio_addr_span := word_of_int v\<rparr>))
      else if c = CHR ''a'' then
        bnd (uio_parse_integer_arg ''Start address'' optarg) (\<lambda>v.
        modify (\<lambda>s. s\<lparr>s_uio_start_addr := word_of_int v\<rparr>))
      else if c = CHR ''w'' then
        bnd (uio_parse_integer_arg ''DFL entry address'' optarg) (\<lambda>v.
        modify (\<lambda>s. s\<lparr>s_dfl_entry_addr := word_of_int v\<rparr>))
      else ret ())"
| "uio_option (Opt_flag c) =
     (if c = CHR ''d'' then modify (\<lambda>s. s\<lparr>g_common_show_dbg_msg := int (code_of c)\<rparr>)
      else modify (\<lambda>s. s\<lparr>s_uio_single_component_mode := int (code_of c)\<rparr>))"
| "uio_option (Opt_char c) = ret ()"
| "uio_option Opt_error = ret ()"

fun uio_options :: "opt_event list \<Rightarrow> ('e, unit) uio" where
  "uio_options [] = ret ()"
| "uio_options (ev # evs) = thn (uio_option ev) (uio_options evs)"

text \<open>\<open>argv\<close> without the program name.\<close>

definition uio_parse_args :: "string list \<Rightarrow> ('e, unit) uio" where
  "uio_parse_args args = uio_options (getopt_long uio_short_options uio_long_options args)"

section \<open>The map size in sysfs\<close>

text \<open>\<open>p += 4\<close> may leave the string: then the read through \<open>p\<close> is out of bounds.  \<open>index\<close> is an
  \<open>uint32_t\<close> that is printed with \<open>%d\<close>.\<close>

definition uio_get_sysfs_map_path :: "('e, string) uio" where
  "uio_get_sysfs_map_path =
     bnd (gets s_uio_drv_path) (\<lambda>p.
     bnd (deref p) (\<lambda>path.
     case strrchr path (CHR ''/'') of
       None \<Rightarrow> ret ''''
     | Some t \<Rightarrow>
         thn (require Out_of_bounds (4 \<le> length t))
             (let (v, rest) = strtoul_10 (drop 4 t) in
              if rest \<noteq> [] then ret ''''
              else ret (''/sys/class/uio/uio'' @ show_int (sint (ucast v :: u32)) @ ''/maps/map0/''))))"

text \<open>\<open>fscanf\<close> returns the number of values it has stored.\<close>

definition uio_get_sysfs_map_file_to_uint64 :: "string \<Rightarrow> ('e, u64) uio" where
  "uio_get_sysfs_map_file_to_uint64 path =
     bnd (syscall_file (Fopen path ''r'')) (\<lambda>fp.
     if fp \<noteq> 0 then
       bnd (gets (\<lambda>s. os_file_hex (os s) (os_calls s) (Fscanf fp ''%lx''))) (\<lambda>v.
       bnd (syscall (Fscanf fp ''%lx'')) (\<lambda>n.
       thn (syscall_ignored (Fclose fp))
           (ret (if n \<noteq> 1 then 0 else v))))
     else ret 0)"

definition uio_update_based_on_sysfs :: "('e, unit) uio" where
  "uio_update_based_on_sysfs =
     bnd (gets s_uio_addr_span) (\<lambda>span.
     if span = 0 then
       bnd uio_get_sysfs_map_path (\<lambda>path.
       bnd (uio_get_sysfs_map_file_to_uint64 (path @ ''size'')) (\<lambda>v.
       modify (\<lambda>s. s\<lparr>s_uio_addr_span := v\<rparr>)))
     else ret ())"

section \<open>Validation and report\<close>

definition uio_validate_args :: "('e, bool) uio" where
  "uio_validate_args =
     bnd (gets s_uio_addr_span) (\<lambda>span.
     bnd (gets s_uio_drv_path) (\<lambda>path.
     if span > 0 \<and> path \<noteq> None then ret True
     else
       thn (if span = 0 then
              error_line ''No valid address span value is provided using the argument, --address-span.'' []
            else ret ())
      (thn (if path = None then
              error_line ''UIO driver path is not provided using the argument, --uio-driver-path.'' []
            else ret ())
           (ret False))))"

definition uio_print_configuration :: "('e, unit) uio" where
  "uio_print_configuration =
     bnd (gets s_uio_drv_path) (\<lambda>path.
     bnd (gets s_uio_addr_span) (\<lambda>span.
     bnd (gets s_uio_start_addr) (\<lambda>start.
     bnd (gets s_uio_single_component_mode) (\<lambda>single.
     bnd (gets s_dfl_entry_addr) (\<lambda>entry.
     thn (info_line ''UIO Platform Configuration:'' [])
    (thn (info_line ''   Driver Path: %s'' [Arg_str (the path)])
    (thn (info_line ''   Address Span: %ld'' [Arg_word span])
    (thn (info_line ''   Start Address: 0x%lX'' [Arg_word start])
    (thn (info_line ''   Single Component Operation Model: %s''
            [Arg_str (if single \<noteq> 0 then ''Yes'' else ''No'')])
         (if single = 0 then
            thn (info_line ''   DFL Operation Model: %s'' [Arg_str ''Yes''])
                (info_line ''   DFL Entry Address: 0x%lX'' [Arg_word entry])
          else ret ()))))))))))"

section \<open>Driver, mapping and scan\<close>

definition uio_open_driver :: "('e, bool) uio" where
  "uio_open_driver =
     bnd (gets s_uio_drv_path) (\<lambda>path.
     bnd (syscall (Open (the path) False)) (\<lambda>fd.
     thn (modify (\<lambda>s. s\<lparr>s_uio_drv_handle := fd\<rparr>))
         (if fd = -1 then
            bnd (gets errno) (\<lambda>e.
            thn (error_line ''Failed to open %s. (Error code %d)'' [Arg_str (the path), Arg_int e])
                (ret False))
          else ret True)))"

definition uio_map_mmio :: "('e, bool) uio" where
  "uio_map_mmio =
     bnd (gets s_uio_addr_span) (\<lambda>span.
     bnd (gets s_uio_drv_handle) (\<lambda>fd.
     bnd (syscall_ptr (Mmap span fd 0)) (\<lambda>p.
     thn (modify (\<lambda>s. s\<lparr>s_uio_mmap_ptr := p\<rparr>))
         (if p = MAP_FAILED then
            bnd (gets errno) (\<lambda>e.
            thn (error_line ''Failed to map the mmio inteface to the UIO driver provided.  (Error code %d)''
                   [Arg_int e])
                (ret False))
          else ret True))))"

definition uio_dfl_base_addr_decoder :: "u64 \<Rightarrow> u64 \<Rightarrow> u64" where
  "uio_dfl_base_addr_decoder mmap_ptr base_addr = base_addr - mmap_ptr"

text \<open>The fuel bounds the walk of the DFL, see \<open>Dfl_Walk\<close>.\<close>

definition uio_scan_interfaces :: "nat \<Rightarrow> ('e, bool) uio" where
  "uio_scan_interfaces fuel =
     bnd (gets s_uio_single_component_mode) (\<lambda>single.
     bnd (gets s_uio_mmap_ptr) (\<lambda>p.
     thn (if single \<noteq> 0 then
            bnd (gets s_uio_start_addr) (\<lambda>start.
            thn (common_fpga_interface_info_vec_resize 1)
           (thn (vec_upd 0 (\<lambda>x. x\<lparr>base_address := p + start\<rparr>))
           (thn (vec_upd 0 (\<lambda>x. x\<lparr>is_mmio_opened := False\<rparr>))
                (vec_upd 0 (\<lambda>x. x\<lparr>is_interrupt_opened := False\<rparr>)))))
          else
            bnd (gets s_dfl_entry_addr) (\<lambda>entry.
            common_dfl_scan_multi_interfaces fuel (p + entry) (uio_dfl_base_addr_decoder p)))
         (ret True)))"

text \<open>Every step is tried only when the ones before succeeded; \<open>s_intFlags\<close> is cleared in any case.\<close>

definition uio_create_interrupt_thread :: "('e, bool) uio" where
  "uio_create_interrupt_thread =
     bnd (syscall Sem_init) (\<lambda>rc.
     thn (if rc = 0 then modify (\<lambda>s. s\<lparr>g_intSem := 0\<rparr>) else ret ())
    (bnd (if rc = 0 then syscall Rwlock_init else ret rc) (\<lambda>rc.
     bnd (if rc = 0 then syscall Rwlock_wrlock else ret rc) (\<lambda>rc.
     thn (modify (\<lambda>s. s\<lparr>s_intFlags := 0\<rparr>))
    (bnd (if rc = 0 then syscall Rwlock_unlock else ret rc) (\<lambda>rc.
     bnd (if rc = 0 then syscall Thread_create else ret rc) (\<lambda>rc'.
     thn (if rc = 0 \<and> rc' = 0
          then modify (\<lambda>s. s\<lparr>s_intThread_id := Suc (length (os_calls s))\<rparr>) else ret ())
         (ret (rc' = 0)))))))))"

section \<open>Initialisation and cleanup\<close>

definition fpga_platform_init :: "nat \<Rightarrow> string list \<Rightarrow> ('e, bool) uio" where
  "fpga_platform_init fuel args =
     thn (uio_parse_args args)
    (thn uio_update_based_on_sysfs
    (bnd uio_validate_args (\<lambda>is_args_valid.
     thn (modify (\<lambda>s. s\<lparr>s_uio_inThread_timeout := 100\<rparr>))
         (if is_args_valid then
            thn uio_print_configuration
           (bnd uio_open_driver (\<lambda>opened.
            if \<not> opened then ret False
            else
              bnd uio_map_mmio (\<lambda>is_mapped.
              if \<not> is_mapped then
                bnd (gets s_uio_drv_handle) (\<lambda>fd. thn (syscall_ignored (Close fd)) (ret False))
              else
                bnd (uio_scan_interfaces fuel) (\<lambda>ok.
                if \<not> ok then
                  bnd (gets s_uio_mmap_ptr) (\<lambda>p.
                  bnd (gets s_uio_addr_span) (\<lambda>span.
                  bnd (gets s_uio_drv_handle) (\<lambda>fd.
                  thn (syscall_ignored (Munmap p span))
                 (thn (syscall_ignored (Close fd)) (ret False)))))
                else
                  bnd (gets s_uio_single_component_mode) (\<lambda>single.
                  if single \<noteq> 0 then
                    bnd uio_create_interrupt_thread (\<lambda>created. ret True)
                  else ret True)))))
          else ret False))))"

text \<open>\<open>sem_getvalue\<close> and \<open>sem_post\<close> on \<open>g_intSem\<close>: the result, and the value or the increment on
  success.\<close>

definition sem_getvalue :: "('e, int \<times> int) uio" where
  "sem_getvalue =
     bnd (syscall Sem_getvalue) (\<lambda>rc.
     bnd (gets g_intSem) (\<lambda>v. ret (rc, if rc = 0 then v else 0)))"

definition sem_post :: "('e, int) uio" where
  "sem_post =
     bnd (syscall Sem_post) (\<lambda>rc.
     thn (if rc = 0 then modify (\<lambda>s. s\<lparr>g_intSem := g_intSem s + 1\<rparr>) else ret ())
         (ret rc))"

text \<open>The part of the cleanup that stops the thread.  After the unlock the code has
  \<open>status = status == 0 ? 0 : sem_getvalue(&g_intSem, &retVal)\<close>: the semaphore is read only when the
  unlock failed, and otherwise \<open>retVal\<close> is still 0.\<close>

definition stop_interrupt_thread :: "nat \<Rightarrow> ('e, unit) uio" where
  "stop_interrupt_thread tid =
     bnd (syscall Rwlock_wrlock) (\<lambda>status.
     bnd (if status = 0 then
            thn (modify (\<lambda>s. s\<lparr>s_intFlags :=
                   s_intFlags s OR FPGA_PLATFORM_INT_THREAD_EXIT\<rparr>))
           (bnd (syscall Rwlock_unlock) (\<lambda>status.
            bnd (if status = 0 then ret (0, 0) else sem_getvalue) (\<lambda>(status, retVal).
            if status = 0 then (if retVal \<le> 0 then sem_post else ret status)
            else ret status)))
          else ret status) (\<lambda>status.
     thn (if status \<noteq> 0 then
            fpga_throw_runtime_exception ''fpga_platform_cleanup'' ''System error upon cleanup.'' []
          else ret ())
    (bnd (syscall (Thread_join tid)) (\<lambda>rc.
     if rc \<noteq> 0 then error_line ''Interrupt Thread join failed'' []
     else debug_line ''Interrupt Thread join successfully'' []))))"

definition fpga_platform_cleanup :: "('e, unit) uio" where
  "fpga_platform_cleanup =
     bnd (gets s_intThread_id) (\<lambda>tid.
     thn (if tid \<noteq> 0 then stop_interrupt_thread tid else ret ())
    (bnd (gets s_uio_drv_handle) (\<lambda>fd.
     thn (if fd \<ge> 0 then syscall_ignored (Close fd) else ret ())
    (thn (modify (\<lambda>s. s\<lparr>s_uio_drv_path := None, s_uio_start_addr := 0, s_uio_addr_span := 0,
                        s_uio_single_component_mode := 0, s_uio_drv_handle := -1,
                        s_uio_mmap_ptr := 0\<rparr>))
    (bnd common_fpga_interface_info_vec_size (\<lambda>n.
     thn (if n > 0 then common_fpga_interface_info_vec_resize 0 else ret ())
    (thn (modify (\<lambda>s. s\<lparr>errno := -1\<rparr>))
         (debug_line ''Completed fpga_platform_cleanup'' []))))))))"

section \<open>The interrupt API\<close>

definition fpga_register_isr :: "int \<Rightarrow> u64 \<Rightarrow> u64 \<Rightarrow> ('e, int) uio" where
  "fpga_register_isr handle isr context =
     bnd common_fpga_interface_info_vec_size (\<lambda>n.
     if valid_handle handle n then
       bnd (common_fpga_interface_info_vec_at (size_t_of_int handle)) (\<lambda>x.
       thn (vec_upd (size_t_of_int handle) (\<lambda>x. x\<lparr>isr_callback := isr\<rparr>))
      (thn (vec_upd (size_t_of_int handle) (\<lambda>x. x\<lparr>isr_context := context\<rparr>))
           (ret (if isr_callback x \<noteq> 0 then 1 else 0))))
     else ret (-1))"

definition fpga_enable_interrupt :: "int \<Rightarrow> ('e, int) uio" where
  "fpga_enable_interrupt handle =
     bnd common_fpga_interface_info_vec_size (\<lambda>n.
     if valid_handle handle n then
       thn (vec_upd (size_t_of_int handle) (\<lambda>x. x\<lparr>interrupt_enable := True\<rparr>))
      (bnd sem_getvalue (\<lambda>(status, retVal).
       thn (if status = 0 then
              (if retVal \<le> 0 then bnd sem_post (\<lambda>_. ret ()) else ret ())
            else ret ())
           (ret 0)))
     else ret (-1))"

definition fpga_disable_interrupt :: "int \<Rightarrow> ('e, int) uio" where
  "fpga_disable_interrupt handle =
     bnd common_fpga_interface_info_vec_size (\<lambda>n.
     if valid_handle handle n then
       thn (vec_upd (size_t_of_int handle) (\<lambda>x. x\<lparr>interrupt_enable := False\<rparr>)) (ret 0)
     else ret (-1))"

text \<open>The features the platform does not have; null is returned if the exception handler comes
  back.\<close>

definition fpga_malloc :: "int \<Rightarrow> u32 \<Rightarrow> ('e, u64) uio" where
  "fpga_malloc handle bytes =
     thn (fpga_throw_runtime_exception ''fpga_malloc''
            ''Current platform doesn't support such feature.'' []) (ret 0)"

definition fpga_free :: "int \<Rightarrow> u64 \<Rightarrow> ('e, unit) uio" where
  "fpga_free handle address =
     fpga_throw_runtime_exception ''fpga_free''
       ''Current platform doesn't support such feature.'' []"

definition fpga_get_physical_address :: "u64 \<Rightarrow> ('e, u64) uio" where
  "fpga_get_physical_address address =
     thn (fpga_throw_runtime_exception ''fpga_get_physical_address''
            ''Current platform doesn't support such feature.'' []) (ret 0)"

end
