(* ===== verification/Uio_Init.thy ===== *)
theory Uio_Init
  imports Platform_Uio
begin

text \<open>
  What initialisation and cleanup of the UIO platform do, on every result of the operating system:
  the outcome and the calls made on each path, the table of interfaces after a successful
  start, and what a cleanup leaves behind.
\<close>

section \<open>Fields that calls do not touch\<close>

lemma called_uio [simp]:
  fixes s :: "'e uio_state_scheme"
  shows "s_uio_drv_path (called c f s) = s_uio_drv_path s"
    "s_uio_addr_span (called c f s) = s_uio_addr_span s"
    "s_dfl_entry_addr (called c f s) = s_dfl_entry_addr s"
    "s_uio_single_component_mode (called c f s) = s_uio_single_component_mode s"
    "s_uio_start_addr (called c f s) = s_uio_start_addr s"
    "s_uio_drv_handle (called c f s) = s_uio_drv_handle s"
    "s_uio_mmap_ptr (called c f s) = s_uio_mmap_ptr s"
    "s_intThread_id (called c f s) = s_intThread_id s"
    "s_intFlags (called c f s) = s_intFlags s" "g_intSem (called c f s) = g_intSem s"
  by (simp_all add: called_def)

lemma can_print_uio [simp]:
  fixes s :: "'e uio_state_scheme"
  shows "can_print (s\<lparr>s_uio_drv_handle := h\<rparr>) = can_print s"
    "can_print (s\<lparr>s_uio_mmap_ptr := p\<rparr>) = can_print s"
    "can_print (s\<lparr>s_uio_addr_span := n\<rparr>) = can_print s"
    "can_print (s\<lparr>s_uio_inThread_timeout := t\<rparr>) = can_print s"
    "can_print (s\<lparr>g_intSem := v\<rparr>) = can_print s" "can_print (s\<lparr>s_intFlags := fl\<rparr>) = can_print s"
    "can_print (s\<lparr>s_intThread_id := i\<rparr>) = can_print s"
    "can_print (s\<lparr>s_uio_drv_path := dp\<rparr>) = can_print s"
    "can_print (s\<lparr>s_uio_start_addr := n\<rparr>) = can_print s"
    "can_print (s\<lparr>s_uio_single_component_mode := m\<rparr>) = can_print s"
  by (simp_all add: can_print_def)

section \<open>The steps of initialisation\<close>

text \<open>Two states that differ in the messages only.\<close>

definition but_out :: "'e uio_state_scheme \<Rightarrow> 'e uio_state_scheme \<Rightarrow> bool" where
  "but_out s t \<longleftrightarrow> (\<exists>ev. t = s\<lparr>out := out s @ ev\<rparr>)"

lemma wp_print_configuration:
  assumes "can_print s" and "\<And>t. but_out s t \<Longrightarrow> Q () t"
  shows "wp uio_print_configuration Q s"
proof -
  have "Q () (s\<lparr>out := out s @ ev\<rparr>)" for ev using assms(2) by (auto simp: but_out_def)
  with assms(1) show ?thesis by (simp add: uio_print_configuration_def wp_rules)
qed

text \<open>The arguments gave a complete configuration.\<close>

definition uio_configured :: "string list \<Rightarrow> 'e uio_state_scheme \<Rightarrow> 'e uio_state_scheme \<Rightarrow> bool" where
  "uio_configured args s s1 \<longleftrightarrow>
     uio_parse_args args s = Ret () s1 \<and> can_print s1
     \<and> 0 < s_uio_addr_span s1 \<and> s_uio_drv_path s1 \<noteq> None"

text \<open>What is left to do after the configuration has been reported.\<close>

definition uio_bring_up :: "nat \<Rightarrow> ('e, bool) uio" where
  "uio_bring_up fuel =
     bnd uio_open_driver (\<lambda>opened.
     if \<not> opened then ret False
     else
       bnd uio_map_mmio (\<lambda>is_mapped.
       if \<not> is_mapped then
         bnd (gets s_uio_drv_handle) (\<lambda>fd. thn (syscall_ignored (Close fd)) (ret False))
       else
         bnd (uio_scan_interfaces fuel) (\<lambda>ok.
         if \<not> ok then
           bnd (gets s_uio_mmap_ptr) (\<lambda>p.
           bnd (gets s_uio_addr_span) (\<lambda>span.
           bnd (gets s_uio_drv_handle) (\<lambda>fd.
           thn (syscall_ignored (Munmap p span))
          (thn (syscall_ignored (Close fd)) (ret False)))))
         else
           bnd (gets s_uio_single_component_mode) (\<lambda>single.
           if single \<noteq> 0 then bnd uio_create_interrupt_thread (\<lambda>created. ret True)
           else ret True))))"

lemma wp_init_configured:
  assumes "uio_configured args s s1"
    and "\<And>t. but_out (s1\<lparr>s_uio_inThread_timeout := 100\<rparr>) t \<Longrightarrow> wp (uio_bring_up fuel) Q t"
  shows "wp (fpga_platform_init fuel args) Q s"
proof -
  from assms(1) have p: "uio_parse_args args s = Ret () s1" and c: "can_print s1"
    and sp: "s_uio_addr_span s1 \<noteq> 0" "0 < s_uio_addr_span s1"
    and path: "s_uio_drv_path s1 \<noteq> None"
    by (auto simp: uio_configured_def)
  from path obtain path' where path': "s_uio_drv_path s1 = Some path'" by blast
  have "wp (thn uio_print_configuration (uio_bring_up fuel)) Q (s1\<lparr>s_uio_inThread_timeout := 100\<rparr>)"
    unfolding wp_thn by (rule wp_print_configuration) (use c assms(2) in simp_all)
  moreover have "wp (uio_parse_args args) R s = R () s1" for R by (simp add: wp_def p)
  ultimately show ?thesis
    using sp path'
    by (simp add: fpga_platform_init_def wp_rules uio_update_based_on_sysfs_def
        uio_validate_args_def uio_bring_up_def)
qed

text \<open>No complete configuration: the size file of sysfs is all that is asked of the operating system.\<close>

definition sysfs_call :: "os_call \<Rightarrow> bool" where
  "sysfs_call c \<longleftrightarrow> (case c of Fopen f m \<Rightarrow> m = ''r'' | Fscanf p f \<Rightarrow> True | Fclose p \<Rightarrow> True | _ \<Rightarrow> False)"

lemma wp_init_rejected:
  assumes "uio_parse_args args s = Ret () s1" and "can_print s1"
    and "s_uio_addr_span s1 = 0" and "s_uio_drv_path s1 = Some path"
    and "strrchr path (CHR ''/'') = Some t" and "4 \<le> length t"
    and "\<And>cs p. os_result (os s1) cs (Fscanf p ''%lx'') \<noteq> 1"
  shows "wp (fpga_platform_init fuel args) (\<lambda>r t. \<not> r \<and> vec t = vec s1
      \<and> (\<exists>cs. os_calls t = os_calls s1 @ cs \<and> list_all sysfs_call cs)) s"
proof -
  have "wp (uio_parse_args args) R s = R () s1" for R by (simp add: wp_def assms(1))
  then show ?thesis
    using assms(2-7)
    by (simp add: sysfs_call_def fpga_platform_init_def wp_rules uio_update_based_on_sysfs_def
        uio_validate_args_def uio_get_sysfs_map_path_def uio_get_sysfs_map_file_to_uint64_def
        Let_def split: prod.split)
qed

lemma wp_bring_up_no_driver:
  assumes "can_print s" and "s_uio_drv_path s = Some path"
    and "os_result (os s) (os_calls s) (Open path False) = -1"
  shows "wp (uio_bring_up fuel) (\<lambda>r t. \<not> r \<and> os_calls t = os_calls s @ [Open path False]
      \<and> vec t = vec s \<and> s_uio_drv_handle t = -1) s"
  using assms by (simp add: uio_bring_up_def uio_open_driver_def wp_rules)

lemma wp_bring_up_no_map:
  assumes "can_print s" and "s_uio_drv_path s = Some path"
    and "os_result (os s) (os_calls s) (Open path False) = fd" and "fd \<noteq> -1"
    and "os_pointer (os s) (os_calls s @ [Open path False]) (Mmap (s_uio_addr_span s) fd 0)
       = MAP_FAILED"
  shows "wp (uio_bring_up fuel) (\<lambda>r t. \<not> r
      \<and> os_calls t = os_calls s @ [Open path False, Mmap (s_uio_addr_span s) fd 0, Close fd]
      \<and> vec t = vec s \<and> s_uio_drv_handle t = fd \<and> s_intThread_id t = s_intThread_id s
      \<and> can_print t \<and> vec_size t = vec_size s \<and> vec_reserved t = vec_reserved s
      \<and> live t = live s) s"
  using assms by (simp add: uio_bring_up_def uio_open_driver_def uio_map_mmio_def wp_rules)

text \<open>The thread creation makes at most five calls and always comes back.\<close>

lemma wp_create_thread:
  "wp uio_create_interrupt_thread (\<lambda>r t. vec t = vec s \<and> vec_size t = vec_size s
      \<and> vec_reserved t = vec_reserved s \<and> s_uio_drv_handle t = s_uio_drv_handle s
      \<and> live t = live s \<and> env t = env s \<and> mem t = mem s
      \<and> dfh_parent_stack t = dfh_parent_stack s \<and> s_uio_mmap_ptr t = s_uio_mmap_ptr s
      \<and> (\<not> r \<longrightarrow> s_intThread_id t = s_intThread_id s)
      \<and> (r \<longrightarrow> s_intThread_id t \<noteq> 0 \<and> s_intFlags t = 0 \<and> g_intSem t = 0)) s"
  by (simp add: uio_create_interrupt_thread_def wp_rules)

section \<open>What the options can change\<close>

text \<open>A flag that is reported is in the table of long options.\<close>

lemma find_long_mem: "find_long longs name = Some l \<Longrightarrow> l \<in> set longs"
proof -
  have one: "hd (filter P longs) \<in> set longs" if "filter P longs \<noteq> []" for P
    using hd_in_set [OF that] by (simp only: set_filter mem_Collect_eq)
  assume "find_long longs name = Some l"
  then show ?thesis
    using one by (auto simp: find_long_def split: list.splits) (metis list.discI list.sel(1))+
qed

lemma long_one_flag:
  "Opt_flag c \<in> set (fst (long_one longs txt args)) \<Longrightarrow> \<exists>n r. Long_option n r True c \<in> set longs"
  by (auto simp: long_one_def Let_def dest!: find_long_mem
      split: option.splits long_option.splits if_splits list.splits)

lemma short_cluster_flag: "Opt_flag c \<notin> set (fst (short_cluster shorts cs args))"
  by (induction cs) (auto split: option.split bool.split list.split prod.split simp: Let_def)

lemma getopt_flag:
  "Opt_flag c \<in> set (getopt_long shorts longs args) \<Longrightarrow> \<exists>n r. Long_option n r True c \<in> set longs"
proof (induction shorts longs args rule: getopt_long.induct)
  case (2 shorts longs a as)
  then show ?case
    using long_one_flag [of c longs "drop 2 a" as] short_cluster_flag [of c shorts "drop 1 a" as]
    by (auto split: if_splits)
qed simp

lemma uio_flags: "Opt_flag c \<in> set (getopt_long uio_short_options uio_long_options args)
    \<Longrightarrow> c = CHR ''d'' \<or> c = CHR ''c''"
  by (drule getopt_flag) (auto simp: uio_long_options_def)

text \<open>No argument leaves the single-component mode.\<close>

lemma run_uio_integer:
  assumes "can_print s"
  shows "\<exists>v t. uio_parse_integer_arg name a s = Ret v t \<and> can_print t
    \<and> s_uio_single_component_mode t = s_uio_single_component_mode s
    \<and> s_uio_drv_path t = s_uio_drv_path s \<and> os_calls t = os_calls s"
proof -
  obtain v b where v: "strtol_0 a = (v, b)" by (cases "strtol_0 a")
  have cp: "can_print (s\<lparr>errno := e\<rparr>)" for e using assms by simp
  have line: "\<exists>t. error_line f x u = Ret () t \<and> can_print t
      \<and> s_uio_single_component_mode t = s_uio_single_component_mode u
      \<and> s_uio_drv_path t = s_uio_drv_path u \<and> os_calls t = os_calls u"
    if "can_print u" for f x and u :: "'a uio_state_scheme"
    using that by (simp add: run_lines)
  show ?thesis
    unfolding uio_parse_integer_arg_def parse_integer_arg_def Let_def v prod.case
    using line [OF assms] line [OF cp] assms
    by (cases b; simp add: run_rules; metis outcome.simps(5))
qed

lemma uio_option_mode:
  assumes "can_print s" and "s_uio_single_component_mode s \<noteq> 0"
    and "\<And>c. ev = Opt_flag c \<Longrightarrow> c = CHR ''d'' \<or> c = CHR ''c''"
  shows "\<exists>t. uio_option ev s = Ret () t \<and> can_print t \<and> s_uio_single_component_mode t \<noteq> 0"
proof (cases ev)
  case (Opt_arg c a)
  note r = run_uio_integer [OF assms(1), of _ a]
  have k: "can_print (x\<lparr>s_dfl_entry_addr := y\<rparr>) = can_print x" for x :: "'a uio_state_scheme" and y
    by (simp add: can_print_def)
  show ?thesis
    using Opt_arg assms(1,2) r [of "''Address span''"] r [of "''Start address''"]
      r [of "''DFL entry address''"]
    by (auto simp: run_rules k)
next
  case (Opt_flag c)
  with assms(3) have c: "c = CHR ''d'' \<or> c = CHR ''c''" by simp
  have "can_print (s\<lparr>g_common_show_dbg_msg := n\<rparr>)" for n
    using assms(1) by (simp add: can_print_def)
  moreover have "code_of (CHR ''c'') \<noteq> 0" by (simp add: code_of_def)
  ultimately show ?thesis
    using Opt_flag assms(1,2) c by (auto simp: run_rules)
qed (use assms in \<open>simp_all add: run_rules\<close>)

lemma uio_options_mode:
  assumes "can_print s" and "s_uio_single_component_mode s \<noteq> 0"
    and "\<And>c. Opt_flag c \<in> set evs \<Longrightarrow> c = CHR ''d'' \<or> c = CHR ''c''"
  shows "\<exists>t. uio_options evs s = Ret () t \<and> s_uio_single_component_mode t \<noteq> 0"
  using assms
proof (induction evs arbitrary: s)
  case (Cons ev evs)
  obtain t where "uio_option ev s = Ret () t" "can_print t" "s_uio_single_component_mode t \<noteq> 0"
    using uio_option_mode [OF Cons.prems(1,2), of ev] Cons.prems(3) by auto
  with Cons.IH [of t] Cons.prems(3) show ?case by (simp add: run_rules)
qed (simp add: run_rules)

lemma parse_args_mode:
  assumes "can_print s" and "s_uio_single_component_mode s \<noteq> 0"
    and "uio_parse_args args s = Ret () t"
  shows "s_uio_single_component_mode t \<noteq> 0"
  using uio_options_mode [OF assms(1,2), of "getopt_long uio_short_options uio_long_options args"]
    uio_flags assms(3) by (auto simp: uio_parse_args_def)

text \<open>Only the option for it gives a driver path.\<close>

lemma uio_option_path:
  assumes "can_print s" and "\<And>a. ev \<noteq> Opt_arg (CHR ''p'') a"
  shows "\<exists>t. uio_option ev s = Ret () t \<and> can_print t \<and> s_uio_drv_path t = s_uio_drv_path s
    \<and> os_calls t = os_calls s"
proof (cases ev)
  case (Opt_arg c a)
  note r = run_uio_integer [OF assms(1), of _ a]
  have k: "can_print (x\<lparr>s_dfl_entry_addr := y\<rparr>) = can_print x" for x :: "'a uio_state_scheme" and y
    by (simp add: can_print_def)
  show ?thesis
    using Opt_arg assms r [of "''Address span''"] r [of "''Start address''"]
      r [of "''DFL entry address''"]
    by (auto simp: run_rules k)
next
  case (Opt_flag c)
  have "can_print (s\<lparr>g_common_show_dbg_msg := n\<rparr>)" for n
    using assms(1) by (simp add: can_print_def)
  then show ?thesis using Opt_flag assms(1) by (auto simp: run_rules)
qed (use assms in \<open>simp_all add: run_rules\<close>)

definition names_driver :: "string list \<Rightarrow> bool" where
  "names_driver args \<longleftrightarrow>
     (\<exists>ev \<in> set (getopt_long uio_short_options uio_long_options args).
        case ev of Opt_arg c a \<Rightarrow> c = CHR ''p'' | _ \<Rightarrow> False)"

lemma parse_args_path:
  assumes "can_print s" and "\<not> names_driver args"
  shows "\<exists>t. uio_parse_args args s = Ret () t \<and> can_print t \<and> s_uio_drv_path t = s_uio_drv_path s
    \<and> os_calls t = os_calls s"
proof -
  have "\<exists>t. uio_options evs s = Ret () t \<and> can_print t \<and> s_uio_drv_path t = s_uio_drv_path s
    \<and> os_calls t = os_calls s"
    if "can_print s" "\<And>a. Opt_arg (CHR ''p'') a \<notin> set evs" for evs and s :: "'a uio_state_scheme"
    using that
  proof (induction evs arbitrary: s)
    case (Cons ev evs)
    have "\<And>a. ev \<noteq> Opt_arg (CHR ''p'') a" using Cons.prems(2) by fastforce
    with Cons.prems(1) obtain t where "uio_option ev s = Ret () t" "can_print t"
      "s_uio_drv_path t = s_uio_drv_path s" "os_calls t = os_calls s"
      using uio_option_path [of s ev] by blast
    with Cons.IH [of t] Cons.prems(2) show ?case by (simp add: run_rules)
  qed (simp add: run_rules)
  then show ?thesis using assms unfolding uio_parse_args_def names_driver_def by fastforce
qed

section \<open>The table after a start\<close>

text \<open>The driver opens and the map succeeds.\<close>

definition uio_resources :: "string \<Rightarrow> int \<Rightarrow> u64 \<Rightarrow> 'e uio_state_scheme \<Rightarrow> bool" where
  "uio_resources path fd p s \<longleftrightarrow>
     s_uio_drv_path s = Some path \<and> fd \<noteq> -1 \<and> p \<noteq> MAP_FAILED
     \<and> os_result (os s) (os_calls s) (Open path False) = fd
     \<and> os_pointer (os s) (os_calls s @ [Open path False]) (Mmap (s_uio_addr_span s) fd 0) = p"

text \<open>After that, whatever the scan leaves is what the bring-up leaves, and its result is true: the
  result of the thread creation is not looked at.\<close>

definition mapped_state :: "string \<Rightarrow> int \<Rightarrow> u64 \<Rightarrow> 'e uio_state_scheme \<Rightarrow> 'e uio_state_scheme" where
  "mapped_state path fd p s =
     (called (Mmap (s_uio_addr_span s) fd 0) False
        ((called (Open path False) (fd < 0) s)\<lparr>s_uio_drv_handle := fd\<rparr>))\<lparr>s_uio_mmap_ptr := p\<rparr>"

lemma wp_bring_up_mapped:
  assumes "uio_resources path fd p s" and "can_print s"
  shows "wp (uio_bring_up fuel) Q s =
     wp (bnd (uio_scan_interfaces fuel) (\<lambda>ok.
         if \<not> ok then
           bnd (gets s_uio_mmap_ptr) (\<lambda>p.
           bnd (gets s_uio_addr_span) (\<lambda>span.
           bnd (gets s_uio_drv_handle) (\<lambda>fd.
           thn (syscall_ignored (Munmap p span))
          (thn (syscall_ignored (Close fd)) (ret False)))))
         else
           bnd (gets s_uio_single_component_mode) (\<lambda>single.
           if single \<noteq> 0 then bnd uio_create_interrupt_thread (\<lambda>created. ret True)
           else ret True))) Q (mapped_state path fd p s)"
  using assms
  by (simp add: uio_bring_up_def uio_open_driver_def uio_map_mmio_def uio_resources_def
      wp_bnd wp_thn wp_gets wp_syscall wp_syscall_ptr wp_modify wp_if wp_ret mapped_state_def
      del: not_None_eq)

lemma mapped_state_simps [simp]:
  fixes s :: "'e uio_state_scheme"
  shows "s_uio_single_component_mode (mapped_state path fd p s) = s_uio_single_component_mode s"
    "s_uio_mmap_ptr (mapped_state path fd p s) = p" "env (mapped_state path fd p s) = env s"
    "s_uio_start_addr (mapped_state path fd p s) = s_uio_start_addr s"
    "s_dfl_entry_addr (mapped_state path fd p s) = s_dfl_entry_addr s"
    "s_uio_drv_handle (mapped_state path fd p s) = fd"
    "s_intThread_id (mapped_state path fd p s) = s_intThread_id s"
    "mem (mapped_state path fd p s) = mem s" "live (mapped_state path fd p s) = live s"
    "vec (mapped_state path fd p s) = vec s" "vec_size (mapped_state path fd p s) = vec_size s"
    "vec_reserved (mapped_state path fd p s) = vec_reserved s"
    "dfh_parent_stack (mapped_state path fd p s) = dfh_parent_stack s"
    "os (mapped_state path fd p s) = os s"
    "os_calls (mapped_state path fd p s)
       = os_calls s @ [Open path False, Mmap (s_uio_addr_span s) fd 0]"
  by (simp_all add: mapped_state_def)

text \<open>Single-component mode: one entry at the mapped start address.\<close>

lemma wp_scan_single:
  fixes s :: "'e uio_state_scheme"
  assumes "s_uio_single_component_mode s \<noteq> 0" and "vec_inv s" and "vec_abs s = []" and "allocs_ok s"
  shows "wp (uio_scan_interfaces fuel) (\<lambda>r t. r \<and> vec_inv t
      \<and> vec_abs t = [single_entry (s_uio_mmap_ptr s + s_uio_start_addr s)]
      \<and> live t - vec_blocks t = live s - vec_blocks s
      \<and> (\<exists>v n r l al. t = s\<lparr>g_common_fpga_interface_info_vec := v,
              g_common_fpga_interface_info_vec_size := n,
              g_common_fpga_interface_info_vec_reserved := r, live := l, alloc_no := al\<rparr>)) s"
  using assms(1) wp_single_entry [OF assms(2-4), of "s_uio_mmap_ptr s + s_uio_start_addr s"]
  by (simp add: uio_scan_interfaces_def wp_bnd wp_gets wp_ret_eta wp_ret wp_thn)

text \<open>The thread is created beside the table, which it leaves alone.\<close>

lemma wp_create_table:
  fixes t :: "'e uio_state_scheme"
  shows "wp uio_create_interrupt_thread (\<lambda>_ u. vec_inv u = vec_inv t \<and> vec_abs u = vec_abs t
      \<and> vec_blocks u = vec_blocks t \<and> live u = live t \<and> s_uio_drv_handle u = s_uio_drv_handle t
      \<and> s_uio_mmap_ptr u = s_uio_mmap_ptr t) t"
proof (rule wp_mono [OF wp_create_thread])
  fix c and u :: "'e uio_state_scheme"
  assume u: "vec u = vec t \<and> vec_size u = vec_size t
    \<and> vec_reserved u = vec_reserved t \<and> s_uio_drv_handle u = s_uio_drv_handle t
    \<and> live u = live t \<and> env u = env t \<and> mem u = mem t
    \<and> dfh_parent_stack u = dfh_parent_stack t \<and> s_uio_mmap_ptr u = s_uio_mmap_ptr t
    \<and> (\<not> c \<longrightarrow> s_intThread_id u = s_intThread_id t)
    \<and> (c \<longrightarrow> s_intThread_id u \<noteq> 0 \<and> s_intFlags u = 0 \<and> g_intSem u = 0)"
  then have "vec_inv u = vec_inv t" "vec_abs u = vec_abs t" "vec_blocks u = vec_blocks t"
    using vec_cong [of u t] by simp_all
  with u show "vec_inv u = vec_inv t \<and> vec_abs u = vec_abs t
      \<and> vec_blocks u = vec_blocks t \<and> live u = live t \<and> s_uio_drv_handle u = s_uio_drv_handle t
      \<and> s_uio_mmap_ptr u = s_uio_mmap_ptr t" by simp
qed

lemma wp_bring_up_single:
  fixes s :: "'e uio_state_scheme"
  assumes res: "uio_resources path fd p s" and pr: "can_print s"
    and mode: "s_uio_single_component_mode s \<noteq> 0"
    and inv: "vec_inv s" and empty: "vec_abs s = []" and ok: "allocs_ok s"
  shows "wp (uio_bring_up fuel) (\<lambda>r t. r \<and> vec_inv t
      \<and> vec_abs t = [single_entry (p + s_uio_start_addr s)]
      \<and> live t - vec_blocks t = live s - vec_blocks s \<and> s_uio_drv_handle t = fd
      \<and> s_uio_mmap_ptr t = p) s" (is "wp _ ?Q s")
proof -
  let ?s = "mapped_state path fd p s"
  have inv': "vec_inv ?s" "vec_abs ?s = []" "vec_blocks ?s = vec_blocks s" "allocs_ok ?s"
    using inv empty ok vec_cong [of ?s s] by (simp_all add: allocs_ok_def)
  have "wp (uio_scan_interfaces fuel) (\<lambda>r t. ?Q r t \<and> s_uio_single_component_mode t \<noteq> 0) ?s"
    by (rule wp_mono [OF wp_scan_single [OF _ inv'(1,2,4)]]) (use mode inv'(3) in auto)
  then have "wp (uio_scan_interfaces fuel) (\<lambda>ok t. ok \<and> wp
        (bnd (gets s_uio_single_component_mode) (\<lambda>single.
           if single \<noteq> 0 then bnd uio_create_interrupt_thread (\<lambda>created. ret True)
           else ret True)) ?Q t) ?s"
    by (rule wp_mono) (auto simp: wp_bnd wp_gets wp_ret_eta intro!: wp_mono [OF wp_create_table])
  then show ?thesis
    unfolding wp_bring_up_mapped [OF res pr] wp_bnd [of "uio_scan_interfaces fuel"]
    by (rule wp_mono) simp
qed

lemma same_more:
  fixes s t :: "'e uio_state_scheme"
  assumes "cmn_state.more t = cmn_state.more s"
  shows "os_calls t = os_calls s" and "s_uio_single_component_mode t = s_uio_single_component_mode s"
  using assms by (cases s; cases t; simp)+

text \<open>DFL mode: the table is the tree at the entry address.\<close>

lemma wp_bring_up_dfl:
  assumes res: "uio_resources path fd p s" and pr: "can_print s"
    and mode: "s_uio_single_component_mode s = 0" and ready: "scan_ready s"
    and x: "dfl_at (dfl_view s) (p + s_dfl_entry_addr s) x" "tree_fits x" "fuel_level x \<le> fuel"
  shows "wp (uio_bring_up fuel) (\<lambda>r t. r \<and> vec_inv t
      \<and> vec_abs t = rows (p + s_dfl_entry_addr s) x
      \<and> live t - vec_blocks t = live s - vec_blocks s
      \<and> os_calls t = os_calls s @ [Open path False, Mmap (s_uio_addr_span s) fd 0]) s"
proof -
  let ?s = "mapped_state path fd p s" and ?a = "p + s_dfl_entry_addr s"
  have ready': "scan_ready ?s" and bl: "vec_blocks ?s = vec_blocks s"
    using ready vec_cong [of ?s s] by (simp_all add: scan_ready_def allocs_ok_def)
  have view: "dfl_view ?s = dfl_view s" by (rule dfl_view_cong) simp_all
  have "wp (common_dfl_scan_multi_interfaces fuel ?a (uio_dfl_base_addr_decoder p))
      (\<lambda>_. scanned ?a x ?s) ?s"
    by (rule wp_scan [OF ready']) (use x view in simp_all)
  then have "wp (uio_scan_interfaces fuel) (\<lambda>r t. r \<and> scanned ?a x ?s t) ?s"
    using mode
    by (auto simp: uio_scan_interfaces_def wp_bnd wp_gets wp_ret_eta wp_ret wp_thn elim!: wp_mono)
  then show ?thesis
    unfolding wp_bring_up_mapped [OF res pr] wp_bnd [of "uio_scan_interfaces fuel"]
  proof (rule wp_mono)
    fix r t
    assume t: "r \<and> scanned ?a x ?s t"
    then have "cmn_state.more t = cmn_state.more ?s" by (simp add: scanned_def same_rest_def)
    then have "os_calls t = os_calls ?s"
      and "s_uio_single_component_mode t = s_uio_single_component_mode ?s"
      using same_more by blast+
    with t mode bl show "wp (if \<not> r then
           bnd (gets s_uio_mmap_ptr) (\<lambda>p.
           bnd (gets s_uio_addr_span) (\<lambda>span.
           bnd (gets s_uio_drv_handle) (\<lambda>fd.
           thn (syscall_ignored (Munmap p span))
          (thn (syscall_ignored (Close fd)) (ret False)))))
         else
           bnd (gets s_uio_single_component_mode) (\<lambda>single.
           if single \<noteq> 0 then bnd uio_create_interrupt_thread (\<lambda>created. ret True)
           else ret True))
      (\<lambda>r t. r \<and> vec_inv t \<and> vec_abs t = rows ?a x
      \<and> live t - vec_blocks t = live s - vec_blocks s
      \<and> os_calls t = os_calls s @ [Open path False, Mmap (s_uio_addr_span s) fd 0]) t"
      by (simp add: scanned_def wp_bnd wp_gets wp_ret)
  qed
qed

section \<open>Cleanup\<close>

text \<open>What a cleanup leaves: no table, no handle, and none of the configuration, not even the default
  path and mode of the static initialisers.\<close>

definition uio_cleaned :: "'e uio_state_scheme \<Rightarrow> bool" where
  "uio_cleaned s \<longleftrightarrow>
     vec s = None \<and> vec_size s = 0 \<and> s_uio_drv_path s = None \<and> s_uio_start_addr s = 0
     \<and> s_uio_addr_span s = 0 \<and> s_uio_single_component_mode s = 0 \<and> s_uio_drv_handle s = -1
     \<and> s_uio_mmap_ptr s = 0 \<and> errno s = -1"

text \<open>The part after the thread has been dealt with.\<close>

definition release_platform :: "('e, unit) uio" where
  "release_platform =
     bnd (gets s_uio_drv_handle) (\<lambda>fd.
     thn (if fd \<ge> 0 then syscall_ignored (Close fd) else ret ())
    (thn (modify (\<lambda>s. s\<lparr>s_uio_drv_path := None, s_uio_start_addr := 0, s_uio_addr_span := 0,
                        s_uio_single_component_mode := 0, s_uio_drv_handle := -1,
                        s_uio_mmap_ptr := 0\<rparr>))
    (bnd common_fpga_interface_info_vec_size (\<lambda>n.
     thn (if n > 0 then common_fpga_interface_info_vec_resize 0 else ret ())
    (thn (modify (\<lambda>s. s\<lparr>errno := -1\<rparr>))
         (debug_line ''Completed fpga_platform_cleanup'' []))))))"

lemma cleanup_eq:
  "fpga_platform_cleanup =
     bnd (gets s_intThread_id) (\<lambda>tid.
     thn (if tid \<noteq> 0 then stop_interrupt_thread tid else ret ()) release_platform)"
  by (simp add: fpga_platform_cleanup_def release_platform_def)

lemma wp_release:
  fixes s :: "'e uio_state_scheme"
  assumes pr: "can_print s" and tight: "table_tight s"
  shows "wp release_platform (\<lambda>_ t. uio_cleaned t \<and> live t = live s - vec_blocks s
      \<and> os_calls t = os_calls s @ (if s_uio_drv_handle s \<ge> 0 then [Close (s_uio_drv_handle s)] else [])
      \<and> can_print t \<and> s_intThread_id t = s_intThread_id s) s"
proof -
  let ?fd = "s_uio_drv_handle s"
  define s1 where "s1 = (if ?fd \<ge> 0 then called (Close ?fd) (os_result (os s) (os_calls s) (Close ?fd) < 0) s
      else s)\<lparr>s_uio_drv_path := None, s_uio_start_addr := 0, s_uio_addr_span := 0,
        s_uio_single_component_mode := 0, s_uio_drv_handle := -1, s_uio_mmap_ptr := 0\<rparr>"
  have vec1: "vec s1 = vec s" "vec_size s1 = vec_size s" "vec_reserved s1 = vec_reserved s"
    and pr1: "can_print s1" and live1: "live s1 = live s"
    and calls1: "os_calls s1 = os_calls s @ (if ?fd \<ge> 0 then [Close ?fd] else [])"
    and id1: "s_intThread_id s1 = s_intThread_id s"
    using pr by (auto simp: s1_def)
  have inv1: "vec_inv s1" "vec_blocks s1 = vec_blocks s"
    using tight vec_cong [OF vec1] by (simp_all add: table_tight_def)
  have live2: "live (resized 0 s1) = live s - vec_blocks s"
    using resized_live [OF inv1(1), of 0] inv1(2) live1
    by (simp add: vec_blocks_abs [of "resized 0 s1"] resized_vec)
  have pr2: "can_print (resized 0 s1)" using pr1 by (simp add: can_print_def resized_def)
  have rest: "s_uio_drv_path (resized 0 s1) = None" "s_uio_start_addr (resized 0 s1) = 0"
    "s_uio_addr_span (resized 0 s1) = 0" "s_uio_single_component_mode (resized 0 s1) = 0"
    "s_uio_drv_handle (resized 0 s1) = -1" "s_uio_mmap_ptr (resized 0 s1) = 0"
    "os_calls (resized 0 s1) = os_calls s1" "s_intThread_id (resized 0 s1) = s_intThread_id s1"
    by (simp_all add: resized_def s1_def)
  have none: "vec_blocks s = 0" if "vec s = None" using that by (simp add: vec_blocks_def)
  have step: "wp release_platform Q s = wp (bnd common_fpga_interface_info_vec_size (\<lambda>n.
     thn (if n > 0 then common_fpga_interface_info_vec_resize 0 else ret ())
    (thn (modify (\<lambda>s. s\<lparr>errno := -1\<rparr>))
         (debug_line ''Completed fpga_platform_cleanup'' [])))) Q s1" for Q
    by (simp add: release_platform_def wp_bnd wp_gets wp_thn wp_modify wp_ret
        wp_syscall_ignored s1_def)
  show ?thesis
  proof (cases "vec_size s = 0")
    case True
    with tight none have "vec s = None" "vec_blocks s = 0" by (simp_all add: table_tight_def)
    with True pr1 vec1 live1 calls1 id1 show ?thesis
      by (simp add: step wp_rules wp_vec_size uio_cleaned_def) (simp add: s1_def)
  next
    case False
    with pr2 vec1 live2 rest calls1 id1 inv1 show ?thesis
      by (simp add: step wp_rules wp_vec_size wp_resize_0 uio_cleaned_def resized_vec)
  qed
qed

lemma wp_cleanup_no_thread:
  assumes "can_print s" and "table_tight s" and "s_intThread_id s = 0"
  shows "wp fpga_platform_cleanup (\<lambda>_ t. uio_cleaned t \<and> live t = live s - vec_blocks s
      \<and> os_calls t = os_calls s @ (if s_uio_drv_handle s \<ge> 0 then [Close (s_uio_drv_handle s)] else [])
      \<and> can_print t \<and> s_intThread_id t = s_intThread_id s) s"
  using wp_release [OF assms(1,2)] assms(3) by (simp add: cleanup_eq wp_rules)

text \<open>With a running thread and locks that work: the exit flag is set, the semaphore posted, the thread
  joined, before anything is released.\<close>

definition stop_calls :: "nat \<Rightarrow> os_call list" where
  "stop_calls tid = [Rwlock_wrlock, Rwlock_unlock, Sem_post, Thread_join tid]"

lemma wp_stop_thread:
  assumes pr: "can_print s"
    and rc: "os_result (os s) (os_calls s) Rwlock_wrlock = 0"
      "os_result (os s) (os_calls s @ [Rwlock_wrlock]) Rwlock_unlock = 0"
      "os_result (os s) (os_calls s @ [Rwlock_wrlock, Rwlock_unlock]) Sem_post = 0"
  shows "wp (stop_interrupt_thread tid) (\<lambda>_ t. os_calls t = os_calls s @ stop_calls tid
      \<and> odd (s_intFlags t) \<and> g_intSem t = g_intSem s + 1 \<and> can_print t
      \<and> vec t = vec s \<and> vec_size t = vec_size s \<and> vec_reserved t = vec_reserved s
      \<and> live t = live s \<and> s_uio_drv_handle t = s_uio_drv_handle s
      \<and> s_intThread_id t = s_intThread_id s) s"
proof -
  have bit: "odd (i OR 1)" for i :: int by (simp add: even_or_iff)
  show ?thesis
    using assms
    by (simp add: stop_interrupt_thread_def wp_rules sem_post_def stop_calls_def
        FPGA_PLATFORM_INT_THREAD_EXIT_def bit)
qed

lemma wp_cleanup_thread:
  fixes s :: "'e uio_state_scheme"
  assumes "can_print s" and "table_tight s"
    and "os_result (os s) (os_calls s) Rwlock_wrlock = 0"
    and "os_result (os s) (os_calls s @ [Rwlock_wrlock]) Rwlock_unlock = 0"
    and "os_result (os s) (os_calls s @ [Rwlock_wrlock, Rwlock_unlock]) Sem_post = 0"
    and "s_intThread_id s \<noteq> 0"
  shows "wp fpga_platform_cleanup (\<lambda>_ t. uio_cleaned t \<and> live t = live s - vec_blocks s
      \<and> s_intThread_id t = s_intThread_id s
      \<and> os_calls t = os_calls s @ stop_calls (s_intThread_id s)
          @ (if s_uio_drv_handle s \<ge> 0 then [Close (s_uio_drv_handle s)] else [])) s" (is "wp _ ?Q s")
proof -
  have "wp (stop_interrupt_thread (s_intThread_id s)) (\<lambda>_. wp release_platform ?Q) s"
  proof (rule wp_mono [OF wp_stop_thread [OF assms(1,3-5)]])
    fix x and u :: "'e uio_state_scheme"
    assume u: "os_calls u = os_calls s @ stop_calls (s_intThread_id s)
      \<and> odd (s_intFlags u) \<and> g_intSem u = g_intSem s + 1 \<and> can_print u
      \<and> vec u = vec s \<and> vec_size u = vec_size s \<and> vec_reserved u = vec_reserved s
      \<and> live u = live s \<and> s_uio_drv_handle u = s_uio_drv_handle s
      \<and> s_intThread_id u = s_intThread_id s"
    then have "table_tight u" "vec_blocks u = vec_blocks s"
      using assms(2) vec_cong [of u s] by (simp_all add: table_tight_def)
    with u show "wp release_platform ?Q u"
      by (intro wp_mono [OF wp_release]) simp_all
  qed
  with assms(6) show ?thesis
    by (simp add: cleanup_eq wp_bnd wp_gets wp_thn)
qed

text \<open>The cleanup adds to the output and leaves the variables of the program alone.\<close>

definition only_prints :: "'e uio_state_scheme \<Rightarrow> 'e uio_state_scheme \<Rightarrow> bool" where
  "only_prints s t \<longleftrightarrow> uio_state.more t = uio_state.more s \<and> (\<exists>ev. out t = out s @ ev)"

lemma only_prints_trans: "only_prints s t \<Longrightarrow> only_prints t u \<Longrightarrow> only_prints s u"
  by (auto simp: only_prints_def)

lemma only_prints_simps:
  fixes s :: "'e uio_state_scheme"
  shows "only_prints s (s\<lparr>out := out s @ ev\<rparr>)" "only_prints s (called c f s)" "only_prints s s"
    "only_prints s (resized n s)"
  by (simp_all add: only_prints_def called_def resized_def)

lemma release_only_prints:
  fixes s :: "'e uio_state_scheme"
  assumes pr: "can_print s" and tight: "table_tight s"
  shows "wp release_platform (\<lambda>_. only_prints s) s"
proof -
  let ?fd = "s_uio_drv_handle s"
  define s1 where "s1 = (if ?fd \<ge> 0 then called (Close ?fd) (os_result (os s) (os_calls s) (Close ?fd) < 0) s
      else s)\<lparr>s_uio_drv_path := None, s_uio_start_addr := 0, s_uio_addr_span := 0,
        s_uio_single_component_mode := 0, s_uio_drv_handle := -1, s_uio_mmap_ptr := 0\<rparr>"
  have vec1: "vec s1 = vec s" "vec_size s1 = vec_size s" "vec_reserved s1 = vec_reserved s"
    and pr1: "can_print s1"
    using pr by (auto simp: s1_def)
  have inv1: "vec_inv s1" using tight vec_cong [OF vec1] by (simp add: table_tight_def)
  have pr2: "can_print (resized 0 s1)" using pr1 by (simp add: can_print_def resized_def)
  have out1: "out s1 = out s" "uio_state.more s1 = uio_state.more s" by (simp_all add: s1_def called_def)
  have out2: "out (resized 0 s1) = out s1" "uio_state.more (resized 0 s1) = uio_state.more s1"
    by (simp_all add: resized_def)
  have step: "wp release_platform Q s = wp (bnd common_fpga_interface_info_vec_size (\<lambda>n.
     thn (if n > 0 then common_fpga_interface_info_vec_resize 0 else ret ())
    (thn (modify (\<lambda>s. s\<lparr>errno := -1\<rparr>))
         (debug_line ''Completed fpga_platform_cleanup'' [])))) Q s1" for Q
    by (simp add: release_platform_def wp_bnd wp_gets wp_thn wp_modify wp_ret
        wp_syscall_ignored s1_def)
  show ?thesis
    using pr1 pr2 inv1 out1 out2 by (cases "vec_size s = 0")
      (simp_all add: step wp_rules wp_vec_size wp_resize_0 vec1 only_prints_def)
qed

lemma cleanup_only_prints:
  fixes s :: "'e uio_state_scheme"
  assumes "can_print s" and "table_tight s"
    and "os_result (os s) (os_calls s) Rwlock_wrlock = 0"
    and "os_result (os s) (os_calls s @ [Rwlock_wrlock]) Rwlock_unlock = 0"
    and "os_result (os s) (os_calls s @ [Rwlock_wrlock, Rwlock_unlock]) Sem_post = 0"
    and "s_intThread_id s \<noteq> 0"
  shows "wp fpga_platform_cleanup (\<lambda>_. only_prints s) s"
proof -
  have frame: "wp (stop_interrupt_thread tid) (\<lambda>_ t. only_prints s t) s" for tid
    using assms(1,3-5)
    by (simp add: stop_interrupt_thread_def wp_rules sem_post_def only_prints_def called_def)
  have "wp (stop_interrupt_thread (s_intThread_id s)) (\<lambda>_. wp release_platform (\<lambda>_. only_prints s)) s"
  proof (rule wp_mono [OF wp_conj [OF frame wp_stop_thread [OF assms(1,3-5)]]])
    fix x and u :: "'e uio_state_scheme"
    assume u: "only_prints s u \<and> os_calls u = os_calls s @ stop_calls (s_intThread_id s)
      \<and> odd (s_intFlags u) \<and> g_intSem u = g_intSem s + 1 \<and> can_print u
      \<and> vec u = vec s \<and> vec_size u = vec_size s \<and> vec_reserved u = vec_reserved s
      \<and> live u = live s \<and> s_uio_drv_handle u = s_uio_drv_handle s
      \<and> s_intThread_id u = s_intThread_id s"
    then have "table_tight u" using assms(2) vec_cong [of u s] by (simp add: table_tight_def)
    with u show "wp release_platform (\<lambda>_. only_prints s) u"
      by (intro wp_mono [OF release_only_prints]) (auto intro: only_prints_trans)
  qed
  with assms(6) show ?thesis
    by (simp add: cleanup_eq wp_bnd wp_gets wp_thn)
qed

lemma wp_cleanup_prints:
  fixes s :: "'e uio_state_scheme"
  assumes "can_print s" and "table_tight s"
    and "os_result (os s) (os_calls s) Rwlock_wrlock = 0"
    and "os_result (os s) (os_calls s @ [Rwlock_wrlock]) Rwlock_unlock = 0"
    and "os_result (os s) (os_calls s @ [Rwlock_wrlock, Rwlock_unlock]) Sem_post = 0"
    and "s_intThread_id s \<noteq> 0"
  shows "wp fpga_platform_cleanup (\<lambda>_ t. uio_cleaned t \<and> can_print t) s"
proof -
  have "wp (stop_interrupt_thread (s_intThread_id s)) (\<lambda>_. wp release_platform (\<lambda>_ t. uio_cleaned t \<and> can_print t)) s"
  proof (rule wp_mono [OF wp_stop_thread [OF assms(1,3-5)]])
    fix x and u :: "'e uio_state_scheme"
    assume u: "os_calls u = os_calls s @ stop_calls (s_intThread_id s)
      \<and> odd (s_intFlags u) \<and> g_intSem u = g_intSem s + 1 \<and> can_print u
      \<and> vec u = vec s \<and> vec_size u = vec_size s \<and> vec_reserved u = vec_reserved s
      \<and> live u = live s \<and> s_uio_drv_handle u = s_uio_drv_handle s
      \<and> s_intThread_id u = s_intThread_id s"
    then have "table_tight u" using assms(2) vec_cong [of u s] by (simp add: table_tight_def)
    with u show "wp release_platform (\<lambda>_ t. uio_cleaned t \<and> can_print t) u"
      by (intro wp_mono [OF wp_release]) simp_all
  qed
  with assms(6) show ?thesis by (simp add: cleanup_eq wp_bnd wp_gets wp_thn)
qed

section \<open>A second start\<close>

text \<open>The option parser on the arguments used below.\<close>

lemma parse_no_args: "uio_parse_args [] s = Ret () s"
  by (simp add: uio_parse_args_def run_rules)

lemma getopt_span: "getopt_long uio_short_options uio_long_options [''-s'', v] = [Opt_arg (CHR ''s'') v]"
  by (simp add: is_prefix_def uio_short_options_def)

lemma parse_span:
  fixes s :: "'e uio_state_scheme"
  assumes "int n \<le> LONG_MAX" and "errno s \<noteq> ERANGE" and "can_print s"
  shows "uio_parse_args [''-s'', show_nat n] s = Ret () (s\<lparr>s_uio_addr_span := of_nat n\<rparr>)"
proof -
  have w: "word_of_int (int n) = (of_nat n :: u64)" by simp
  have p: "uio_parse_integer_arg ''Address span'' (show_nat n) s = Ret (int n) s"
    unfolding uio_parse_integer_arg_def by (simp only: run_parse_show [OF assms(1,3)] assms(2) not_False_eq_True simp_thms if_True)
  show ?thesis
    unfolding uio_parse_args_def getopt_span uio_options.simps uio_option.simps
    by (simp add: run_rules p)
qed

lemma parse_path_span:
  fixes s :: "'e uio_state_scheme"
  assumes "int n \<le> LONG_MAX" and "errno s \<noteq> ERANGE" and "can_print s"
  shows "uio_parse_args [''-p'', path, ''-s'', show_nat n] s
     = Ret () (s\<lparr>s_uio_drv_path := Some path, s_uio_addr_span := of_nat n\<rparr>)"
proof -
  let ?t = "s\<lparr>s_uio_drv_path := Some path\<rparr>"
  have g: "getopt_long uio_short_options uio_long_options [''-p'', path, ''-s'', show_nat n]
      = [Opt_arg (CHR ''p'') path, Opt_arg (CHR ''s'') (show_nat n)]"
    by (simp add: is_prefix_def uio_short_options_def)
  have p: "uio_parse_integer_arg ''Address span'' (show_nat n) ?t = Ret (int n) ?t"
    unfolding uio_parse_integer_arg_def
    using run_parse_show [OF assms(1), of ?t "''Address span''"] assms(2,3) by simp
  have w: "word_of_int (int n) = (of_nat n :: u64)" by simp
  show ?thesis
    unfolding uio_parse_args_def g uio_options.simps uio_option.simps
    by (simp add: run_rules p)
qed

text \<open>After a cleanup the driver path is null.  Without a span the next start looks for the path in sysfs
  first; with one it stops at the validation.\<close>

lemma restart_no_path:
  assumes p: "uio_parse_args args s = Ret () t" and "can_print t" and "s_uio_drv_path t = None"
  shows "\<exists>u. fpga_platform_init fuel args s
      = (if s_uio_addr_span t = 0 then Stop (Undefined_behaviour Null_dereference) t else Ret False u)
    \<and> os_calls u = os_calls t"
proof (cases "s_uio_addr_span t = 0")
  case True
  with assms show ?thesis
    by (auto simp: fpga_platform_init_def run_rules uio_update_based_on_sysfs_def uio_get_sysfs_map_path_def)
next
  case False
  have "wp (uio_parse_args args) Q s = Q () t" for Q by (simp add: wp_def p)
  with assms False have "wp (fpga_platform_init fuel args) (\<lambda>r u. \<not> r \<and> os_calls u = os_calls t) s"
    by (simp add: fpga_platform_init_def wp_rules uio_update_based_on_sysfs_def uio_validate_args_def)
  with False show ?thesis by (auto simp: wp_def split: outcome.splits)
qed

section \<open>The interrupt API\<close>

text \<open>The table does not depend on what calls and the interrupt variables change.\<close>

lemma vec_uio [simp]:
  fixes s :: "'e uio_state_scheme"
  shows "vec_inv (called c f s) = vec_inv s" "vec_abs (called c f s) = vec_abs s"
    "vec_inv (s\<lparr>g_intSem := v\<rparr>) = vec_inv s" "vec_abs (s\<lparr>g_intSem := v\<rparr>) = vec_abs s"
  using vec_cong [of "called c f s" s] vec_cong [of "s\<lparr>g_intSem := v\<rparr>" s] by simp_all

text \<open>What the functions do to the table: one entry, and only members of the interrupt part.\<close>

definition only_entry ::
    "'e uio_state_scheme \<Rightarrow> nat \<Rightarrow> (FPGA_INTERFACE_INFO \<Rightarrow> FPGA_INTERFACE_INFO) \<Rightarrow> 'e uio_state_scheme \<Rightarrow> bool" where
  "only_entry s i f t \<longleftrightarrow> vec_inv t \<and> vec_abs t = (vec_abs s)[i := f (vec_abs s ! i)]
     \<and> vec_size t = vec_size s \<and> s_intFlags t = s_intFlags s"

lemma wp_one_entry:
  fixes s :: "'e uio_state_scheme"
  assumes inv: "vec_inv s" and i: "i < vec_size s"
    and keep: "\<And>x. parameters (f x) = parameters x" "\<And>x. num_of_parameters (f x) = num_of_parameters x"
  shows "\<exists>xs. vec s = Some xs \<and> i < length xs \<and> xs ! i = vec_abs s ! i
      \<and> only_entry s i f (s\<lparr>g_common_fpga_interface_info_vec := Some (xs[i := f (xs ! i)])\<rparr>)"
proof -
  from inv i obtain xs where xs: "vec s = Some xs" "i < length xs" "xs ! i = vec_abs s ! i"
    by (rule vec_inv_Some)
  with vec_upd_abs [OF inv i keep] show ?thesis by (simp add: wp_vec_upd only_entry_def)
qed

lemma only_entry_simps [simp]:
  fixes s t :: "'e uio_state_scheme"
  shows "only_entry s i f (called c b t) = only_entry s i f t"
    "only_entry s i f (t\<lparr>g_intSem := v\<rparr>) = only_entry s i f t"
  by (simp_all add: only_entry_def)

lemma wp_register_isr:
  fixes s :: "'e uio_state_scheme"
  assumes inv: "vec_inv s" and h: "0 \<le> h" "h \<le> INT_MAX" "nat h < vec_size s"
  shows "wp (fpga_register_isr h isr ctx) (\<lambda>r t.
      only_entry s (nat h) (\<lambda>x. x\<lparr>isr_callback := isr, isr_context := ctx\<rparr>) t
      \<and> g_intSem t = g_intSem s
      \<and> r = (if isr_callback (vec_abs s ! nat h) \<noteq> 0 then 1 else 0)) s"
proof -
  have "valid_handle h (vec_size s)" using h by (simp add: valid_handle_def)
  moreover obtain xs where "vec s = Some xs" "nat h < length xs" "xs ! nat h = vec_abs s ! nat h"
    "only_entry s (nat h) (\<lambda>x. x\<lparr>isr_callback := isr, isr_context := ctx\<rparr>)
       (s\<lparr>g_common_fpga_interface_info_vec := Some (xs[nat h :=
          (xs ! nat h)\<lparr>isr_callback := isr, isr_context := ctx\<rparr>])\<rparr>)"
    using wp_one_entry [OF inv h(3), of "\<lambda>x. x\<lparr>isr_callback := isr, isr_context := ctx\<rparr>"] by auto
  ultimately show ?thesis using h by (simp add: fpga_register_isr_def wp_rules)
qed

text \<open>Enabling posts the semaphore unless it is up already; the return value is 0 whether or not an
  ISR is registered and whatever the semaphore calls say.\<close>

lemma wp_enable_exact:
  fixes s :: "'e uio_state_scheme"
  assumes inv: "vec_inv s" and h: "0 \<le> h" "h \<le> INT_MAX" "nat h < vec_size s"
  shows "wp (fpga_enable_interrupt h) (\<lambda>r t.
      only_entry s (nat h) (\<lambda>x. x\<lparr>interrupt_enable := True\<rparr>) t \<and> r = 0
      \<and> g_intSem t = (if os_result (os s) (os_calls s) Sem_getvalue = 0
           \<and> os_result (os s) (os_calls s @ [Sem_getvalue]) Sem_post = 0 \<and> g_intSem s \<le> 0
         then g_intSem s + 1 else g_intSem s)) s"
proof -
  have "valid_handle h (vec_size s)" using h by (simp add: valid_handle_def)
  with wp_one_entry [OF inv h(3), of "\<lambda>x. x\<lparr>interrupt_enable := True\<rparr>"] h
  show ?thesis
    by (auto simp: fpga_enable_interrupt_def sem_getvalue_def sem_post_def wp_rules)
qed

lemma wp_enable_interrupt:
  fixes s :: "'e uio_state_scheme"
  assumes "vec_inv s" and "0 \<le> h" "h \<le> INT_MAX" "nat h < vec_size s"
  shows "wp (fpga_enable_interrupt h) (\<lambda>r t.
      only_entry s (nat h) (\<lambda>x. x\<lparr>interrupt_enable := True\<rparr>) t \<and> r = 0
      \<and> (os_result (os s) (os_calls s) Sem_getvalue = 0
         \<and> os_result (os s) (os_calls s @ [Sem_getvalue]) Sem_post = 0
         \<longrightarrow> g_intSem t = (if g_intSem s \<le> 0 then g_intSem s + 1 else g_intSem s))) s"
  by (rule wp_mono [OF wp_enable_exact [OF assms]]) simp

lemma wp_disable_interrupt:
  fixes s :: "'e uio_state_scheme"
  assumes inv: "vec_inv s" and h: "0 \<le> h" "h \<le> INT_MAX" "nat h < vec_size s"
  shows "wp (fpga_disable_interrupt h) (\<lambda>r t.
      only_entry s (nat h) (\<lambda>x. x\<lparr>interrupt_enable := False\<rparr>) t \<and> r = 0
      \<and> g_intSem t = g_intSem s) s"
proof -
  have "valid_handle h (vec_size s)" using h by (simp add: valid_handle_def)
  with wp_one_entry [OF inv h(3), of "\<lambda>x. x\<lparr>interrupt_enable := False\<rparr>"] h
  show ?thesis by (auto simp: fpga_disable_interrupt_def wp_rules)
qed

text \<open>A handle out of range is refused and nothing changes.\<close>

lemma run_invalid_handle:
  fixes s :: "'e uio_state_scheme"
  assumes "\<not> valid_handle h (vec_size s)"
  shows "fpga_register_isr h isr ctx s = Ret (-1) s" and "fpga_enable_interrupt h s = Ret (-1) s"
    and "fpga_disable_interrupt h s = Ret (-1) s"
  using assms
  by (simp_all add: fpga_register_isr_def fpga_enable_interrupt_def fpga_disable_interrupt_def
      run_rules common_fpga_interface_info_vec_size_def)

end
