(* ===== verification/Dfl_Codec.thy ===== *)
theory Dfl_Codec
  imports Dfl_Read
begin

text \<open>
  The header layout from the writer's side.  The unit tests of the library build their lists with
  the macros \<open>CONSTRUCT_DFH\<close>, \<open>CONSTRUCT_CSR_SIZE_GROUP\<close> and \<open>CONSTRUCT_PARAM_HEADER\<close> of
  \<open>common/test/utst/intel_fpga_api_hier_dfl_test.cpp\<close>; this theory has them as functions and
  shows which fields the decoders of \<open>Dfl_Read\<close> recover.  The offset to the next header is
  written with 24 bits and read back with 23.
\<close>

section \<open>Encoders\<close>

definition construct_dfh ::
    "u64 \<Rightarrow> u64 \<Rightarrow> u64 \<Rightarrow> u64 \<Rightarrow> u64 \<Rightarrow> u64 \<Rightarrow> u64 \<Rightarrow> u64 \<Rightarrow> u64" where
  "construct_dfh feature_type dfh_version minor_rev reserved eol next_offset feature_rev feature_id =
     push_bit 60 (0xF AND feature_type) OR push_bit 52 (0xFF AND dfh_version)
     OR push_bit 48 (0xF AND minor_rev) OR push_bit 41 (0x7F AND reserved)
     OR push_bit 40 (0x1 AND eol) OR push_bit 16 (0xFFFFFF AND next_offset)
     OR push_bit 12 (0xF AND feature_rev) OR (0xFFF AND feature_id)"

definition construct_csr_size_group :: "u64 \<Rightarrow> u64 \<Rightarrow> u64 \<Rightarrow> u64 \<Rightarrow> u64" where
  "construct_csr_size_group csr_size has_par grp inst =
     push_bit 32 (0xFFFFFFFFFFFF AND csr_size) OR push_bit 31 (1 AND has_par)
     OR push_bit 16 (0x7FFF AND grp) OR (0xFFFF AND inst)"

definition construct_param_header :: "u64 \<Rightarrow> u64 \<Rightarrow> u64 \<Rightarrow> u64 \<Rightarrow> u64 \<Rightarrow> u64" where
  "construct_param_header next_offset reserved eop ver par_id =
     push_bit 35 (0x1FFFFFFF AND (next_offset div 8)) OR push_bit 33 (3 AND reserved)
     OR push_bit 32 (1 AND eop) OR push_bit 16 (0xFFFF AND ver) OR (0xFFFF AND par_id)"

section \<open>Bits of the encodings\<close>

lemma and_masks:
  "0xF AND w = take_bit 4 (w :: u64)" "0xFF AND w = take_bit 8 (w :: u64)"
  "0x7F AND w = take_bit 7 (w :: u64)" "0x1 AND w = take_bit 1 (w :: u64)"
  "0xFFFFFF AND w = take_bit 24 (w :: u64)" "0xFFF AND w = take_bit 12 (w :: u64)"
  "0xFFFFFFFFFFFF AND w = take_bit 48 (w :: u64)" "0x7FFF AND w = take_bit 15 (w :: u64)"
  "0xFFFF AND w = take_bit 16 (w :: u64)" "0x1FFFFFFF AND w = take_bit 29 (w :: u64)"
  "3 AND w = take_bit 2 (w :: u64)"
  by (simp_all add: take_bit_eq_mask and.commute mask_eq_exp_minus_1)

lemma dfh_eol: "is_eol (construct_dfh t v m r e n f i) \<longleftrightarrow> odd e"
  by (simp add: is_eol_bit construct_dfh_def and_masks bit_simps bit_0)

lemma dfh_next:
  "get_next_dfh_byte_offset (construct_dfh t v m r e n f i) = ucast (take_bit 23 n)"
proof (rule bit_word_eqI)
  fix k assume "k < LENGTH(32)"
  then show "bit (get_next_dfh_byte_offset (construct_dfh t v m r e n f i)) k
      = bit (ucast (take_bit 23 n) :: u32) k"
    by (auto simp: get_next_dfh_byte_offset_field construct_dfh_def and_masks bit_simps)
qed

lemma csr_has_params: "has_params (construct_csr_size_group s p g i) \<longleftrightarrow> odd p"
  by (simp add: has_params_bit construct_csr_size_group_def and_masks bit_simps bit_0)

lemma csr_instance:
  "(ucast (construct_csr_size_group s p g i AND 0xffff) :: u16) = ucast i"
  by (rule bit_word_eqI)
    (auto simp: construct_csr_size_group_def and_masks and.commute [of _ "0xffff"] bit_simps)

lemma group_mask: "drop_bit 16 (w AND 0x7fff0000) = take_bit 15 (drop_bit 16 (w :: u64))"
  by (simp add: drop_bit_and take_bit_eq_mask mask_eq_exp_minus_1)

lemma csr_group:
  "(ucast (drop_bit 16 (construct_csr_size_group s p g i AND 0x7fff0000)) :: u16)
     = ucast (take_bit 15 g)"
  unfolding group_mask
  by (rule bit_word_eqI) (auto simp: construct_csr_size_group_def and_masks bit_simps)

lemma header_last: "is_last_param_block (construct_param_header n r e v i) \<longleftrightarrow> odd e"
  by (simp add: is_last_param_block_bit construct_param_header_def and_masks bit_simps bit_0)

lemma header_version: "get_param_block_version (construct_param_header n r e v i) = ucast v"
  by (rule bit_word_eqI)
    (auto simp: get_param_block_version_field construct_param_header_def and_masks bit_simps)

lemma header_id: "get_param_block_param_id (construct_param_header n r e v i) = ucast i"
  by (rule bit_word_eqI)
    (auto simp: get_param_block_param_id_field construct_param_header_def and_masks bit_simps)

lemma header_next:
  assumes "n < 2 ^ 32" and "n mod 8 = 0"
  shows "get_next_param_byte_offset (construct_param_header n r e v i) = n"
proof -
  have d: "n div 8 = drop_bit 3 n" by (simp add: drop_bit_eq_div)
  have low: "\<not> bit n k" if "k < 3" for k
  proof -
    from assms(2) have "take_bit 3 n = 0" by (simp add: take_bit_eq_mod)
    then have "\<not> bit (take_bit 3 n) k" by simp
    with that show ?thesis by (simp add: bit_simps)
  qed
  have high: "\<not> bit n k" if "32 \<le> k" for k
  proof -
    from assms(1) have "unat (take_bit 32 n) = unat n"
      by (simp add: unsigned_take_bit_eq word_less_nat_alt take_bit_nat_eq_self)
    then have "take_bit 32 n = n" by (simp only: word_unat_eq_iff)
    then show ?thesis using that by (metis bit_take_bit_iff not_less)
  qed
  show ?thesis
  proof (rule bit_word_eqI)
    fix k assume "k < LENGTH(64)"
    then show "bit (get_next_param_byte_offset (construct_param_header n r e v i)) k = bit n k"
      using low [of k] high [of k]
      by (cases "k < 3"; cases "32 \<le> k") (auto simp: get_next_param_byte_offset_def construct_param_header_def and_masks d bit_simps)
  qed
qed

end
