(* ===== verification/Demo.thy ===== *)
theory Demo
  imports Uio_Init Dfl_Codec
begin

text \<open>
  Concrete process states: a Device Feature List written with the encoders of \<open>Dfl_Codec\<close>,
  lists at the limits of the walker, and the states of a process that has just started.  The
  witnesses of the properties are evaluated on them.
\<close>

section \<open>Environments\<close>

text \<open>A table of 64-bit words, read in 32-bit halves as on the simulation platform; every other
  register reads as zero.\<close>

definition table_read :: "(u64 \<times> u64) list \<Rightarrow> u64 \<Rightarrow> u32" where
  "table_read ws a =
     (case map_of ws a of
        Some w \<Rightarrow> ucast w
      | None \<Rightarrow> (case map_of ws (a - 4) of Some w \<Rightarrow> ucast (drop_bit 32 w) | None \<Rightarrow> 0))"

definition demo_env :: "(u64 \<Rightarrow> u32) \<Rightarrow> environment" where
  "demo_env rd =
     \<lparr>env_alloc_ok = (\<lambda>n b. True), env_junk_info = zero_info\<lparr>num_of_parameters := 9\<rparr>,
      env_junk_param = zero_param\<lparr>data_size := 7\<rparr>, env_junk_word = 0xDEADBEEF, env_junk_int = 42,
      env_vprintf = (\<lambda>fmt args. 1), env_read_mode = Custom_read, env_sim_read_32 = rd\<rparr>"

definition demo_state :: "(u64 \<Rightarrow> u32) \<Rightarrow> cmn_state" where
  "demo_state rd = initial_state (demo_env rd) (\<lambda>a. None)"

lemma demo_env_simps [simp]:
  "env_read_mode (demo_env rd) = Custom_read" "env_sim_read_32 (demo_env rd) = rd"
  "env_alloc_ok (demo_env rd) = (\<lambda>n b. True)"
  by (simp_all add: demo_env_def)

lemma demo_state_simps [simp]:
  "env (demo_state rd) = demo_env rd" "vec (demo_state rd) = None" "vec_size (demo_state rd) = 0"
  "vec_reserved (demo_state rd) = 0" "dfh_parent_stack (demo_state rd) = zero_stack"
  "g_common_fpga_platform_printf (demo_state rd) = Default_printf"
  "g_common_fpga_platform_runtime_exception_handler (demo_state rd) = Default_handler"
  "g_common_show_dbg_msg (demo_state rd) = 0" "alloc_no (demo_state rd) = 0"
  by (simp_all add: demo_state_def initial_state_def)

lemma demo_vec [simp]: "vec_inv (demo_state rd)" "vec_abs (demo_state rd) = []"
  by (simp_all add: vec_inv_def vec_abs_def)

lemma demo_ready: "scan_ready (demo_state rd)"
  by (simp add: scan_ready_def allocs_ok_def)

text \<open>The word that a view shows.\<close>

definition word_view :: "(u64 \<Rightarrow> u32) \<Rightarrow> u64 \<Rightarrow> u64 option" where
  "word_view rd a = Some (join32 (rd a) (rd (a + 4)))"

lemma dfl_view_custom:
  "env_read_mode (env s) = Custom_read \<Longrightarrow> dfl_view s = word_view (env_sim_read_32 (env s))"
  by (simp add: fun_eq_iff dfl_view_def word_view_def)

lemma demo_view [simp]: "dfl_view (demo_state rd) = word_view rd"
  by (simp add: dfl_view_custom)

section \<open>A list with a branch\<close>

text \<open>At 0x1000 a header with a branch block and a data block, at 0x1200 the last header of the first
  level, at 0x1400 the branched level.\<close>

definition demo_words :: "(u64 \<times> u64) list" where
  "demo_words =
     [(0x1000, construct_dfh 3 1 0 0 0 0x200 0 0x11), (0x1008, 0xA1), (0x1010, 0xB1),
      (0x1018, 0x40000), (0x1020, construct_csr_size_group 0x100 1 5 2),
      (0x1028, construct_param_header 0x18 0 0 1 0xC), (0x1030, 0x1401),
      (0x1040, construct_param_header 8 0 1 2 0x21), (0x1048, 0x123),
      (0x1200, construct_dfh 3 1 0 0 1 0 0 0x12), (0x1208, 0xA2), (0x1210, 0xB2),
      (0x1218, 0x50001), (0x1220, construct_csr_size_group 0x100 0 6 3),
      (0x1400, construct_dfh 3 1 0 0 1 0 0 0x13), (0x1408, 0xA3), (0x1410, 0xB3),
      (0x1418, 0x60001), (0x1420, construct_csr_size_group 0x100 0 7 4)]"

definition demo_dfh1 :: dfh where
  "demo_dfh1 = \<lparr>dfh_word = construct_dfh 3 1 0 0 0 0x200 0 0x11, dfh_guid_l = 0xA1,
     dfh_guid_h = 0xB1, dfh_csr_addr = 0x40000, dfh_csr_group = construct_csr_size_group 0x100 1 5 2\<rparr>"

definition demo_dfh2 :: dfh where
  "demo_dfh2 = \<lparr>dfh_word = construct_dfh 3 1 0 0 1 0 0 0x12, dfh_guid_l = 0xA2,
     dfh_guid_h = 0xB2, dfh_csr_addr = 0x50001, dfh_csr_group = construct_csr_size_group 0x100 0 6 3\<rparr>"

definition demo_dfh3 :: dfh where
  "demo_dfh3 = \<lparr>dfh_word = construct_dfh 3 1 0 0 1 0 0 0x13, dfh_guid_l = 0xA3,
     dfh_guid_h = 0xB3, dfh_csr_addr = 0x60001, dfh_csr_group = construct_csr_size_group 0x100 0 7 4\<rparr>"

definition demo_params :: dfl_params where
  "demo_params =
     Block (construct_param_header 0x18 0 0 1 0xC) [0x1401, 0]
       (Branch 0x1401 (Last_dfh demo_dfh3 No_params))
     (Last_block (construct_param_header 8 0 1 2 0x21) [0x123] No_branch)"

definition demo_tree :: dfl_level where
  "demo_tree = Next_dfh demo_dfh1 demo_params (Last_dfh demo_dfh2 No_params)"

lemmas demo_defs = demo_tree_def demo_params_def demo_dfh1_def demo_dfh2_def demo_dfh3_def

lemma join_halves: "join32 (ucast w) (ucast (drop_bit 32 w)) = w"
proof (rule bit_word_eqI)
  fix n assume "n < LENGTH(64)"
  then show "bit (join32 (ucast w) (ucast (drop_bit 32 w))) n = bit w n"
    by (auto simp: join32_def bit_simps)
qed

lemma demo_word_view:
  assumes "map_of ws a = Some w" and "map_of ws (a + 4) = None"
  shows "word_view (table_read ws) a = Some w"
  using assms by (simp add: word_view_def table_read_def join_halves)

text \<open>Facts that evaluate the decoders on the encoders.\<close>

lemmas codec =
  dfh_eol dfh_next csr_has_params csr_instance csr_group header_last header_version header_id
  header_next

lemma header_param_id: "get_param_id (construct_param_header n r e v i) = ucast (ucast i :: u16)"
  by (simp add: get_param_id_block header_id)

fun words_at :: "(u64 \<Rightarrow> u64 option) \<Rightarrow> u64 \<Rightarrow> u64 list \<Rightarrow> bool" where
  "words_at V a [] \<longleftrightarrow> True"
| "words_at V a (w # ws) \<longleftrightarrow> V a = Some w \<and> words_at V (a + 8) ws"

lemma words_at_iff: "words_at V a ws \<longleftrightarrow> (\<forall>j < length ws. V (a + 8 * of_nat j) = Some (ws ! j))"
proof (induction ws arbitrary: a)
  case (Cons w ws)
  show ?case by (simp add: Cons.IH All_less_Suc2 algebra_simps)
qed simp

lemma data_at_words: "data_at V a sz ws \<longleftrightarrow> length ws = unat sz div 8 \<and> words_at V a ws"
  by (simp add: data_at_def words_at_iff)

lemma demo_view_words:
  "word_view (table_read demo_words) 0x1000 = Some (dfh_word demo_dfh1)"
  "word_view (table_read demo_words) 0x1008 = Some 0xA1"
  "word_view (table_read demo_words) 0x1010 = Some 0xB1"
  "word_view (table_read demo_words) 0x1018 = Some 0x40000"
  "word_view (table_read demo_words) 0x1020 = Some (dfh_csr_group demo_dfh1)"
  "word_view (table_read demo_words) 0x1028 = Some (construct_param_header 0x18 0 0 1 0xC)"
  "word_view (table_read demo_words) 0x1030 = Some 0x1401"
  "word_view (table_read demo_words) 0x1038 = Some 0"
  "word_view (table_read demo_words) 0x1040 = Some (construct_param_header 8 0 1 2 0x21)"
  "word_view (table_read demo_words) 0x1048 = Some 0x123"
  "word_view (table_read demo_words) 0x1200 = Some (dfh_word demo_dfh2)"
  "word_view (table_read demo_words) 0x1208 = Some 0xA2"
  "word_view (table_read demo_words) 0x1210 = Some 0xB2"
  "word_view (table_read demo_words) 0x1218 = Some 0x50001"
  "word_view (table_read demo_words) 0x1220 = Some (dfh_csr_group demo_dfh2)"
  "word_view (table_read demo_words) 0x1400 = Some (dfh_word demo_dfh3)"
  "word_view (table_read demo_words) 0x1408 = Some 0xA3"
  "word_view (table_read demo_words) 0x1410 = Some 0xB3"
  "word_view (table_read demo_words) 0x1418 = Some 0x60001"
  "word_view (table_read demo_words) 0x1420 = Some (dfh_csr_group demo_dfh3)"
  by (simp_all add: word_view_def table_read_def demo_words_def demo_defs join_halves)
    (simp_all add: join32_def)

lemma demo_tree_at: "dfl_at (word_view (table_read demo_words)) 0x1000 demo_tree"
proof -
  have "is_branch_block (construct_param_header 0x18 0 0 1 0xC)"
    and "\<not> is_branch_block (construct_param_header 8 0 1 2 0x21)"
    by (simp_all add: is_branch_block_def header_param_id PARAM_ID_BRANCH_def)
  then show ?thesis
    by (simp add: demo_tree_def demo_params_def dfh_at_def demo_view_words data_at_words codec
        param_data_size_def PARAM_HEADER_SIZE_def branch_target_def get_next_dfh_addr_def
        demo_dfh1_def demo_dfh2_def demo_dfh3_def)
qed

lemma demo_tree_fits: "tree_fits demo_tree" "fuel_level demo_tree \<le> 5" "one_branch demo_tree"
  by (simp_all add: tree_fits_def demo_defs)

lemma demo_tree_view: "dfl_at (dfl_view (demo_state (table_read demo_words))) 0x1000 demo_tree"
  by (simp add: demo_tree_at)

text \<open>The hypotheses of the theorems about a scan, for this list.\<close>

lemmas demo_scan = demo_ready demo_tree_view demo_tree_fits(1,2)

lemma demo_rows:
  "map base_address (rows 0x1000 demo_tree) = [0x41000, 0x60000, 0x50000]"
  "map dfh_parent (rows 0x1000 demo_tree) = [-1, 0, -1]"
  "map num_of_parameters (rows 0x1000 demo_tree) = [2, 0, 0]"
  "map instance_id (rows 0x1000 demo_tree) = [2, 4, 3]"
  by (simp_all add: rows_def row_def params_result_def with_params_def interface_of_def
      param_array_def branch_target_def get_next_dfh_addr_def codec demo_defs csr_base_def)

lemma demo_subtree:
  "dfl_at (dfl_view (demo_state (table_read demo_words))) 0x1400 (Last_dfh demo_dfh3 No_params)"
  "tree_fits (Last_dfh demo_dfh3 No_params)" "fuel_level (Last_dfh demo_dfh3 No_params) \<le> 5"
  "map base_address (rows 0x1400 (Last_dfh demo_dfh3 No_params)) = [0x60000]"
  by (simp_all add: dfh_at_def demo_view_words codec demo_dfh3_def tree_fits_def rows_def row_def
      params_result_def interface_of_def csr_base_def)

section \<open>Lists at the limits\<close>

text \<open>Eight levels, each the branch of the one before: level \<open>k\<close> is at \<open>k * 0x100\<close>.\<close>

definition deep_word :: "u64 \<Rightarrow> u64" where
  "deep_word a =
     (let r = a AND 0xFF in
      if r = 0 then construct_dfh 3 1 0 0 1 0 0 0
      else if r = 0x20 then construct_csr_size_group 0 (if a < 0x700 then 1 else 0) 0 0
      else if r = 0x28 then construct_param_header 0x10 0 1 0 0xC
      else if r = 0x30 then 0x100 else 0)"

definition deep_read :: "u64 \<Rightarrow> u32" where
  "deep_read a = (if a AND 4 = 0 then ucast (deep_word a) else ucast (drop_bit 32 (deep_word (a - 4))))"

definition deep_dfh :: "u64 \<Rightarrow> dfh" where
  "deep_dfh p = \<lparr>dfh_word = construct_dfh 3 1 0 0 1 0 0 0, dfh_guid_l = 0, dfh_guid_h = 0,
     dfh_csr_addr = 0, dfh_csr_group = construct_csr_size_group 0 p 0 0\<rparr>"

fun deep_tree :: "nat \<Rightarrow> dfl_level" where
  "deep_tree 0 = Last_dfh (deep_dfh 0) No_params"
| "deep_tree (Suc n) =
     Last_dfh (deep_dfh 1)
       (Last_block (construct_param_header 0x10 0 1 0 0xC) [0x100, 0] (Branch 0x100 (deep_tree n)))"

lemma deep_view: "a AND 7 = 0 \<Longrightarrow> word_view deep_read a = Some (deep_word a)"
proof -
  assume a: "a AND 7 = 0"
  have seven: "(7 :: u64) = mask 3" and four: "(4 :: u64) = 2 ^ 2" by (simp_all add: mask_eq_exp_minus_1)
  from a have t: "take_bit 3 a = 0" unfolding seven by (simp add: take_bit_eq_mask)
  then have "\<not> bit (take_bit 3 a) 2" by simp
  then have b: "\<not> bit a 2" by (simp add: bit_simps)
  have "a AND 4 = 0" unfolding four and_exp_eq_0_iff_not_bit by (rule b)
  then have "a + 4 = a OR 4" by (rule disjunctive_add_eq_or)
  then have "bit (a + 4) 2" unfolding four by (simp add: bit_simps)
  with b show ?thesis
    unfolding word_view_def deep_read_def four and_exp_eq_0_iff_not_bit by (simp add: join_halves)
qed

lemma deep_branch: "is_branch_block (construct_param_header 0x10 0 1 0 0xC)"
  by (simp add: is_branch_block_def header_param_id PARAM_ID_BRANCH_def)

lemma deep_tree_at: "dfl_at (word_view deep_read) 0 (deep_tree 7)"
proof -
  have seven: "7 = Suc (Suc (Suc (Suc (Suc (Suc (Suc 0))))))" by simp
  show ?thesis
    unfolding seven
    by (simp add: dfh_at_def deep_view deep_word_def data_at_words codec deep_branch
        param_data_size_def branch_target_def deep_dfh_def)
qed

lemma deep_tree_measures:
  "depth_level (deep_tree n) = n" "size_level (deep_tree n) = Suc n"
  "fuel_level (deep_tree n) = 3 * n + 2"
  by (induction n) simp_all

text \<open>Registers that all read as zero are a header that points to itself.\<close>

definition zero_dfh :: dfh where
  "zero_dfh = \<lparr>dfh_word = 0, dfh_guid_l = 0, dfh_guid_h = 0, dfh_csr_addr = 0, dfh_csr_group = 0\<rparr>"

lemma zero_self_loop: "self_loop (word_view (\<lambda>a. 0)) 0 zero_dfh"
  by (simp add: self_loop_def dfh_at_def word_view_def zero_dfh_def join32_def is_eol_def
      has_params_def get_next_dfh_byte_offset_def)

text \<open>Memory in which every byte is zero.\<close>

lemma load_zeros: "load_bytes (\<lambda>a. Some 0) a n = Some (replicate n 0)"
  by (induction n arbitrary: a) simp_all

lemma le_word_zeros: "le_word (replicate n 0) = 0"
  by (induction n) simp_all

lemma load64_zeros: "load64 (\<lambda>a. Some 0) a = Some 0"
  by (simp add: load64_def load_zeros le_word_zeros)

section \<open>A process of the UIO platform\<close>

text \<open>Every call succeeds: the driver is descriptor 3, the map is at 0x1000.\<close>

definition demo_os :: os_env where
  "demo_os =
     \<lparr>os_result = (\<lambda>cs c. case c of Open f sync \<Rightarrow> 3 | _ \<Rightarrow> 0), os_pointer = (\<lambda>cs c. 0x1000),
      os_word = (\<lambda>cs c. 0), os_errno = (\<lambda>cs c. 0), os_file_hex = (\<lambda>cs c. 0),
      os_cwd = (\<lambda>cs. Some ''/root'')\<rparr>"

definition uio_process :: "(u64 \<Rightarrow> u32) \<Rightarrow> os_env \<Rightarrow> uio_state" where
  "uio_process rd osys =
     \<lparr>env = demo_env rd, mem = (\<lambda>a. None), out = [],
      g_common_fpga_platform_printf = Default_printf,
      g_common_fpga_platform_runtime_exception_handler = Default_handler,
      g_common_show_dbg_msg = 0, live = 0, alloc_no = 0,
      g_common_fpga_interface_info_vec = None, g_common_fpga_interface_info_vec_size = 0,
      g_common_fpga_interface_info_vec_reserved = 0, dfh_parent_stack = zero_stack,
      s_scanned_interface_count = 0, s_interface_index = 0, bus = [], os = osys, os_calls = [],
      errno = 0, s_uio_drv_path = Some ''/dev/uio0'', s_uio_addr_span = 0, s_dfl_entry_addr = 0,
      s_uio_single_component_mode = 1, s_uio_start_addr = 0, s_uio_inThread_timeout = 0,
      s_uio_drv_handle = -1, s_uio_mmap_ptr = 0, s_intThread_id = 0, s_intFlags = 0, g_intSem = 0\<rparr>"

lemma uio_process_static: "uio_static (uio_process rd osys)"
  by (simp add: uio_static_def uio_process_def)

end
