(* ===== verification/Dfl_Properties.thy ===== *)
theory Dfl_Properties
  imports Demo
begin

text \<open>
  The properties of the Device Feature List walker, \<open>common/src/intel_fpga_api_cmn_dfl.c\<close>, each with
  a concrete instance: the scan, its parent numbers and its limits, the register reads, one
  interface and its parameters, the header codec, and the parent stack.
\<close>

section \<open>The scan\<close>

text \<open>C1: Total correctness of \<open>common_dfl_scan_multi_interfaces\<close>.  If the memory shows a finite
  Device Feature List at the given address whose branches nest at most six deep, and memory is
  granted, the scan returns; the interface table is then exactly the rows of the list, in walk
  order; nothing but the table, the scan's own variables and the allocation counters has changed;
  every heap block is owned by the table (no leak), and the parent stack has been released.\<close>

theorem scan_correct:
  assumes "scan_ready s" and "dfl_at (dfl_view s) a x" and "tree_fits x" and "fuel_level x \<le> fuel"
  shows "wp (common_dfl_scan_multi_interfaces fuel a dec)
    (\<lambda>_ t. vec_inv t \<and> vec_abs t = rows a x \<and> same_rest s t
       \<and> live t - vec_blocks t = live s - vec_blocks s \<and> dfh_parent_stack t = zero_stack) s"
  by (rule wp_mono [OF wp_scan [OF assms]]) (simp add: scanned_def)

lemma scan_correct_witness:
  "wp (common_dfl_scan_multi_interfaces 5 0x1000 (\<lambda>a. a))
    (\<lambda>_ t. map base_address (vec_abs t) = [0x41000, 0x60000, 0x50000]
       \<and> map dfh_parent (vec_abs t) = [-1, 0, -1] \<and> map num_of_parameters (vec_abs t) = [2, 0, 0]
       \<and> map instance_id (vec_abs t) = [2, 4, 3])
    (demo_state (table_read demo_words))"
  by (rule wp_mono [OF scan_correct [OF demo_scan]]) (simp add: demo_rows)

text \<open>A later scan replaces an earlier one.  Scanning a second list after a first one leaves the
  table of the second only, and everything that the first scan had allocated has been freed.\<close>

lemma rescan_replaces:
  assumes "scan_ready s" and "dfl_at (dfl_view s) a x" and "tree_fits x" and "fuel_level x \<le> fuel"
    and "dfl_at (dfl_view s) b y" and "tree_fits y" and "fuel_level y \<le> fuel"
  shows "wp (thn (common_dfl_scan_multi_interfaces fuel a dec)
               (common_dfl_scan_multi_interfaces fuel b dec))
    (\<lambda>_ t. vec_inv t \<and> vec_abs t = rows b y \<and> live t - vec_blocks t = live s - vec_blocks s) s"
  unfolding wp_thn
proof (rule wp_mono [OF wp_scan [OF assms(1-4)]])
  fix t
  assume t: "scanned a x s t"
  then have same: "env t = env s" "mem t = mem s" by (simp_all add: scanned_def same_rest_def)
  then have "dfl_view t = dfl_view s" by (intro dfl_view_cong)
  moreover from t same assms(1) have "scan_ready t"
    by (simp add: scan_ready_def scanned_def allocs_ok_def)
  ultimately have "wp (common_dfl_scan_multi_interfaces fuel b dec) (\<lambda>_. scanned b y t) t"
    using assms(5-7) by (intro wp_scan) simp_all
  with t show "wp (common_dfl_scan_multi_interfaces fuel b dec) (\<lambda>_ u. vec_inv u
      \<and> vec_abs u = rows b y \<and> live u - vec_blocks u = live s - vec_blocks s) t"
    by (auto simp: scanned_def elim!: wp_mono)
qed

lemma rescan_replaces_witness:
  "wp (thn (common_dfl_scan_multi_interfaces 5 0x1000 (\<lambda>a. a))
         (common_dfl_scan_multi_interfaces 5 0x1400 (\<lambda>a. a)))
    (\<lambda>_ t. map base_address (vec_abs t) = [0x60000]) (demo_state (table_read demo_words))"
  by (rule wp_mono [OF rescan_replaces [OF demo_scan demo_subtree(1-3)]]) (simp add: demo_subtree(4))

text \<open>C32: Parent numbers.  The header file documents the parent of an interface as the interface whose
  header holds the branch.  The library's scan yields the documented parents exactly on the lists
  in which no header has two branches.\<close>

theorem scan_parents:
  assumes "scan_ready s" and "dfl_at (dfl_view s) a x" and "tree_fits x" and "fuel_level x \<le> fuel"
  shows "wp (common_dfl_scan_multi_interfaces fuel a dec)
    (\<lambda>_ t. vec_abs t = documented_rows a x \<longleftrightarrow> one_branch x) s"
  by (rule wp_mono [OF wp_scan [OF assms]])
    (simp add: scanned_def rows_def documented_rows_def rows_doc)

lemma scan_parents_witness:
  "wp (common_dfl_scan_multi_interfaces 5 0x1000 (\<lambda>a. a))
    (\<lambda>_ t. vec_abs t = documented_rows 0x1000 demo_tree) (demo_state (table_read demo_words))"
  by (rule wp_mono [OF scan_parents [OF demo_scan]]) (simp add: demo_tree_fits)

text \<open>C33: The depth limit.  On a list whose branches nest more than six deep the scan ends in
  undefined behaviour: the parent stack is full when the seventh branch is met and \<open>push\<close> writes one
  element behind its array.\<close>

theorem scan_too_deep:
  assumes "scan_ready s" and "dfl_at (dfl_view s) a x" and "6 < depth_level x"
    and "int (size_level x) \<le> INT_MAX" and "fuel_level x \<le> fuel"
  shows "\<exists>t. common_dfl_scan_multi_interfaces fuel a dec s = Stop (Undefined_behaviour Out_of_bounds) t"
  using scan_overflows [OF assms] by (simp add: overflows_def)

lemma scan_too_deep_witness:
  "\<exists>t. common_dfl_scan_multi_interfaces 23 0 (\<lambda>a. a) (demo_state deep_read)
     = Stop (Undefined_behaviour Out_of_bounds) t"
  by (rule scan_too_deep [OF demo_ready, of _ 0 "deep_tree 7"])
    (simp_all add: deep_tree_at deep_tree_measures)



section \<open>One interface\<close>

lemma put_info_other: "j \<noteq> i \<Longrightarrow> has_info s j \<Longrightarrow> info_at (put_info i x s) j = info_at s j"
  by (auto simp: has_info_def put_info_def info_at_def split: option.splits)

lemma params_charge_simps:
  "info_at (params_charge i ps t s) j = info_at s j"
  "dfh_parent_stack (params_charge i ps t s) = dfh_parent_stack s"
  by (simp_all add: params_charge_def)

text \<open>C2: What one header says.  \<open>set_interface_properties\<close> on a blank entry fills it from the header:
  base address (absolute or relative to the header), GUID, instance, group, the parent on top of the
  stack, and one parameter per block of the parameter list with the data copied; a list with blocks
  that ends in a null block counts that one too.  No other entry changes.\<close>

theorem interface_filled:
  assumes "dfh_at (dfl_view s) a d" and "dfh_params_at (dfl_view s) a d ps t"
    and "has_info s i" and "info_at s i = zero_info" and "allocs_ok s" and "length ps < fuel"
    and "stack_inv (dfh_parent_stack s)" and "stack_list (dfh_parent_stack s) = p # st"
  shows "wp (set_interface_properties fuel i a) (\<lambda>_ u.
      base_address (info_at u i) = csr_base a d \<and> dfl (info_at u i)
      \<and> guid (info_at u i) = \<lparr>guid_l = dfh_guid_l d, guid_h = dfh_guid_h d\<rparr>
      \<and> instance_id (info_at u i) = ucast (dfh_csr_group d)
      \<and> group_id (info_at u i) = ucast (take_bit 15 (drop_bit 16 (dfh_csr_group d)))
      \<and> dfh_parent (info_at u i) = p
      \<and> parameters (info_at u i)
          = (if ps = [] then None else Some (ps @ (if t then [zero_param] else [])))
      \<and> num_of_parameters (info_at u i)
          = (if ps = [] then 0 else length ps + (if t then 1 else 0))
      \<and> (\<forall>j. has_info s j \<and> j \<noteq> i \<longrightarrow> info_at u j = info_at s j)) s"
proof -
  have par: "parameters (info_at s i) = None" using assms(4) by simp
  have low: "(ucast (w AND 0xffff) :: u16) = ucast w" for w :: u64
    by (rule bit_word_eqI) (simp add: and_masks and.commute [of _ "0xffff"] bit_simps)
  have grp: "(ucast (drop_bit 16 w AND 0x7fff) :: u16) = ucast (take_bit 15 (drop_bit 16 w))"
    for w :: u64
    by (simp add: and_masks and.commute [of _ "0x7fff"])
  note run = run_set_interface_properties [OF assms(1-3) par assms(5-8)]
  show ?thesis
    unfolding wp_def run outcome.case
    using assms(3)
    by (auto simp: params_charge_simps params_result_def with_params_def param_array_def assms(4)
        interface_of_def low grp put_info_other)
qed

text \<open>A table with one blank entry and a parent stack with the root.\<close>

definition one_blank :: cmn_state where
  "one_blank = (demo_state (table_read demo_words))
     \<lparr>g_common_fpga_interface_info_vec := Some [zero_info], g_common_fpga_interface_info_vec_size := 1,
      g_common_fpga_interface_info_vec_reserved := 1, dfh_parent_stack := first_stack (-1)\<rparr>"

lemma interface_filled_witness:
  "wp (set_interface_properties 3 0 0x1000) (\<lambda>_ u. base_address (info_at u 0) = 0x41000
      \<and> group_id (info_at u 0) = 5 \<and> dfh_parent (info_at u 0) = -1
      \<and> num_of_parameters (info_at u 0) = 2) one_blank"
proof -
  have view: "dfl_view one_blank = word_view (table_read demo_words)"
    by (subst dfl_view_custom) (simp_all add: one_blank_def)
  have at: "dfh_at (dfl_view one_blank) 0x1000 demo_dfh1"
    using demo_tree_at by (simp add: view demo_tree_def)
  have ps: "dfh_params_at (dfl_view one_blank) 0x1000 demo_dfh1 (blocks demo_params)
      (null_ended demo_params)"
    by (rule node_params_at) (use demo_tree_at in \<open>simp add: view demo_tree_def split: if_splits\<close>)
  have blank: "has_info one_blank 0" "info_at one_blank 0 = zero_info" "allocs_ok one_blank"
    "stack_inv (dfh_parent_stack one_blank)" "stack_list (dfh_parent_stack one_blank) = -1 # []"
    by (simp_all add: one_blank_def has_info_def info_at_def allocs_ok_def)
  have len: "length (blocks demo_params) < 3" by (simp add: demo_params_def)
  show ?thesis
    by (rule wp_mono [OF interface_filled [OF at ps blank(1-3) len blank(4,5)]])
      (simp add: csr_base_def demo_dfh1_def demo_params_def csr_group group_mask [symmetric]
        construct_csr_size_group_def)
qed

section \<open>Register reads\<close>

text \<open>The builds of \<open>common_dfl_read_64\<close>.  On an aligned word the native read and the one made
  of two 32-bit reads return the same value and change nothing.  The latter checks that the address is
  32-bit aligned, and throws otherwise, which ends the process unless an application handler comes back;
  the former checks nothing.\<close>

lemma read_variants:
  assumes "load64 (mem s) (a + ucast off) = Some w" and "off \<le> 0x28"
  shows "common_dfl_read_64_native a off s
      = (if aligned 8 (a + ucast off) then Ret w s else Stop (Undefined_behaviour Misaligned_access) s)
    \<and> (if (a + ucast off) AND 3 = 0 then common_dfl_read_64_emulated a off s = Ret w s
       else handler_final s \<longrightarrow> (\<forall>x t. common_dfl_read_64_emulated a off s \<noteq> Ret x t))"
proof (cases "(a + ucast off) AND 3 = 0")
  case True
  have nx: "a + ucast (off + 4) = a + ucast off + 4"
    using assms(2) by (simp add: ucast_small_add_4 add.assoc)
  have "(a + ucast off + 4) AND 3 = 0" using True by (simp add: and_3_add_4)
  moreover from assms(1) obtain lo hi where "load32 (mem s) (a + ucast off) = Some lo"
    and "load32 (mem s) (a + ucast off + 4) = Some hi" and "w = join32 lo hi"
    by (auto simp: load64_halves split: option.splits)
  ultimately show ?thesis
    using True assms(1)
    by (simp add: common_dfl_read_64_native_def common_dfl_read_64_emulated_def
        common_dfl_read_32_def run_rules aligned_4_mask nx join32_def)
next
  case False
  have "\<not> wp (common_dfl_read_64_emulated a off) (\<lambda>_ _. True) s" if "handler_final s"
    using False that
    by (simp add: common_dfl_read_64_emulated_def common_dfl_read_32_def wp_rules(3,4,9)
        wp_throw_final)
  then have "\<forall>x t. common_dfl_read_64_emulated a off s \<noteq> Ret x t" if "handler_final s"
    using that by (auto simp: wp_def)
  with False assms(1) show ?thesis by (simp add: common_dfl_read_64_native_def run_rules)
qed

lemma read_variants_witness:
  "common_dfl_read_64_native 0x100 8 ((demo_state (\<lambda>a. 0))\<lparr>mem := (\<lambda>a. Some 0)\<rparr>)
     = Ret 0 ((demo_state (\<lambda>a. 0))\<lparr>mem := (\<lambda>a. Some 0)\<rparr>)
   \<and> common_dfl_read_64_emulated 0x100 8 ((demo_state (\<lambda>a. 0))\<lparr>mem := (\<lambda>a. Some 0)\<rparr>)
     = Ret 0 ((demo_state (\<lambda>a. 0))\<lparr>mem := (\<lambda>a. Some 0)\<rparr>)"
  using read_variants [of "(demo_state (\<lambda>a. 0))\<lparr>mem := (\<lambda>a. Some 0)\<rparr>" "0x100" 8 0]
  by (simp add: load64_zeros aligned_def)

section \<open>The header layout\<close>

text \<open>The fields of a header.\<close>

lemma dfh_codec:
  "is_eol (construct_dfh t v m r e n f i) = odd e
   \<and> has_params (construct_csr_size_group z p g j) = odd p
   \<and> get_next_dfh_byte_offset (construct_dfh t v m r e n f i) = ucast (take_bit 23 n)
   \<and> (get_next_dfh_addr (construct_dfh t v m r e n f i) a = a + take_bit 24 n) = (\<not> bit n 23)"
proof -
  have nx: "get_next_dfh_byte_offset (construct_dfh t v m r e n f i) = ucast (take_bit 23 n)"
    by (rule dfh_next)
  have u: "(ucast (ucast (take_bit 23 n) :: u32) :: u64) = take_bit 23 n"
    by (rule bit_word_eqI) (auto simp: bit_simps)
  have "take_bit 23 n = take_bit 24 n \<longleftrightarrow> \<not> bit n 23"
  proof
    assume "take_bit 23 n = take_bit 24 n"
    then have "bit (take_bit 23 n) 23 = bit (take_bit 24 n) 23" by simp
    then show "\<not> bit n 23" by (simp add: bit_simps)
  next
    assume n: "\<not> bit n 23"
    show "take_bit 23 n = take_bit 24 n"
    proof (rule bit_word_eqI)
      fix k :: nat
      have "k < 24 \<longleftrightarrow> k < 23 \<or> k = 23" by auto
      with n show "bit (take_bit 23 n) k = bit (take_bit 24 n) k" by (auto simp: bit_simps)
    qed
  qed
  then show ?thesis
    by (simp add: get_next_dfh_addr_def nx u dfh_eol csr_has_params)
qed

text \<open>C30: The decoders against the encoders of the unit tests.  Of a Device Feature Header the
  end-of-list bit and the parameter bit come back as written; of the 24 bits that are written for the
  offset to the next header 23 are read back, so the offset survives exactly when its bit 23 is clear.
  Of a parameter header the end-of-parameters bit, the version and the id come back, and so does every
  byte offset that is a multiple of 8 below 4 GiB.\<close>

theorem header_codec:
  assumes "k < 2 ^ 32" and "k mod 8 = 0"
  shows "is_eol (construct_dfh t v m r e n f i) = odd e
    \<and> has_params (construct_csr_size_group z p g j) = odd p
    \<and> get_next_dfh_byte_offset (construct_dfh t v m r e n f i) = ucast (take_bit 23 n)
    \<and> (get_next_dfh_addr (construct_dfh t v m r e n f i) a = a + take_bit 24 n) = (\<not> bit n 23)
    \<and> is_last_param_block (construct_param_header k r' e' v' i') = odd e'
    \<and> get_param_block_version (construct_param_header k r' e' v' i') = ucast v'
    \<and> get_param_block_param_id (construct_param_header k r' e' v' i') = ucast i'
    \<and> get_next_param_byte_offset (construct_param_header k r' e' v' i') = k"
  using assms dfh_codec [of t v m r e n f i z p g j a]
  by (simp add: header_last header_version header_id header_next)

lemma header_codec_witness:
  "get_next_param_byte_offset (construct_param_header 0xFFFFFFF8 0 1 2 0xC) = 0xFFFFFFF8
   \<and> get_param_block_param_id (construct_param_header 0xFFFFFFF8 0 1 2 0xC) = 0xC
   \<and> get_next_dfh_addr (construct_dfh 3 0 0 0 0 0x800000 0 0) 0x1000 \<noteq> 0x801000"
  using header_codec [of "0xFFFFFFF8" 3 0 0 0 0 "0x800000" 0 0 0 0 0 0 "0x1000" 0 1 2 "0xC"]
  by (simp add: bit_numeral_rec)

section \<open>The parent stack\<close>

text \<open>\<open>dfh_parent_stack_push\<close> on an allocated stack.  It succeeds exactly while there is room, and
  then the value is the new top; on a full stack the growth test (\<open>top == size\<close>) does not fire and
  the write goes one element behind the array.\<close>

lemma push_exact:
  assumes "stack_inv (dfh_parent_stack s)"
  shows "if 0 < stack_room (dfh_parent_stack s)
    then \<exists>st. dfh_parent_stack_push d s = Ret () (s\<lparr>dfh_parent_stack := st\<rparr>) \<and> stack_inv st
      \<and> stack_list st = d # stack_list (dfh_parent_stack s)
      \<and> stack_room st = stack_room (dfh_parent_stack s) - 1
    else \<exists>t. dfh_parent_stack_push d s = Stop (Undefined_behaviour Out_of_bounds) t"
  using run_push [OF assms, of d] run_push_overflow [OF assms, of d] pushed_inv [OF assms, of d]
  by auto

lemma push_exact_witness:
  "\<exists>t. dfh_parent_stack_push 7 ((demo_state (\<lambda>a. 0))\<lparr>dfh_parent_stack :=
       \<lparr>stack_head = Some [0, -1, 0, 1, 2, 3, 4, 5], stack_top = 7, stack_size = 8\<rparr>\<rparr>)
     = Stop (Undefined_behaviour Out_of_bounds) t"
  using push_exact [of "(demo_state (\<lambda>a. 0))\<lparr>dfh_parent_stack :=
       \<lparr>stack_head = Some [0, -1, 0, 1, 2, 3, 4, 5], stack_top = 7, stack_size = 8\<rparr>\<rparr>" 7]
  by (simp add: stack_inv_def stack_room_def)

text \<open>Nested use of the parent stack.  What is pushed is what \<open>peek\<close> shows, and the \<open>pop\<close> that
  matches restores the stack of before, whatever stack discipline the code in between keeps.\<close>

lemma stack_nested:
  assumes "stack_inv (dfh_parent_stack s)" and "0 < stack_room (dfh_parent_stack s)"
  shows "wp (thn (dfh_parent_stack_push d) (bnd dfh_parent_stack_peek (\<lambda>x.
        thn dfh_parent_stack_pop (ret x))))
    (\<lambda>x t. x = d \<and> stack_inv (dfh_parent_stack t)
       \<and> stack_list (dfh_parent_stack t) = stack_list (dfh_parent_stack s)
       \<and> stack_room (dfh_parent_stack t) = stack_room (dfh_parent_stack s)) s"
  unfolding wp_thn [of "dfh_parent_stack_push d"]
proof (rule wp_mono [OF parent_stack.push_law [OF assms]])
  fix t
  assume t: "stack_inv (dfh_parent_stack t)
      \<and> stack_list (dfh_parent_stack t) = d # stack_list (dfh_parent_stack s)
      \<and> stack_room (dfh_parent_stack t) = stack_room (dfh_parent_stack s) - 1"
  then have peek: "wp dfh_parent_stack_peek Q t = Q d t" for Q
    using run_peek [of t d] by (simp add: wp_def)
  have "wp dfh_parent_stack_pop (\<lambda>_ u. stack_inv (dfh_parent_stack u)
      \<and> stack_list (dfh_parent_stack u) = stack_list (dfh_parent_stack s)
      \<and> stack_room (dfh_parent_stack u) = Suc (stack_room (dfh_parent_stack t))) t"
    by (rule parent_stack.pop_law) (use t in simp_all)
  then show "wp (bnd dfh_parent_stack_peek (\<lambda>x. thn dfh_parent_stack_pop (ret x)))
      (\<lambda>x t. x = d \<and> stack_inv (dfh_parent_stack t)
       \<and> stack_list (dfh_parent_stack t) = stack_list (dfh_parent_stack s)
       \<and> stack_room (dfh_parent_stack t) = stack_room (dfh_parent_stack s)) t"
    unfolding wp_bnd peek wp_thn wp_ret_eta
    by (rule wp_mono) (use t assms(2) in simp)
qed

lemma stack_nested_witness:
  "wp (thn (dfh_parent_stack_push 5) (bnd dfh_parent_stack_peek (\<lambda>x.
        thn dfh_parent_stack_pop (ret x))))
    (\<lambda>x t. x = 5 \<and> stack_list (dfh_parent_stack t) = [-1]) one_blank"
  by (rule wp_mono [OF stack_nested]) (simp_all add: one_blank_def)

end
