(* ===== verification/Table_Properties.thy ===== *)
theory Table_Properties
  imports Demo
begin

text \<open>
  The properties of the interface table, \<open>common/src/intel_fpga_api_cmn_inf.c\<close>, and of the messages
  and exceptions, \<open>common/src/intel_fpga_api_cmn_msg.c\<close>.
\<close>

section \<open>The table\<close>

text \<open>C12: \<open>common_fpga_interface_info_vec_resize\<close> is the resize of a list.  With the memory granted it
  returns, keeps the invariant, leaves the old entries that fit followed by zeroed ones, and the heap
  blocks that are live beyond those the table owns are the same as before: what is dropped is freed
  once, with the parameters and their data.\<close>

theorem resize_correct:
  assumes "vec_inv s"
    and "n \<le> vec_reserved s \<or> env_alloc_ok (env s) (alloc_no s) (n * sizeof_info)"
  shows "wp (common_fpga_interface_info_vec_resize n) (\<lambda>_ t. vec_inv t \<and> vec_size t = n
      \<and> vec_abs t = take n (vec_abs s) @ replicate (n - length (vec_abs s)) zero_info
      \<and> live t - vec_blocks t = live s - vec_blocks s
      \<and> vec_reserved t = (if n = 0 then 0 else max n (vec_reserved s))) s"
proof -
  have "wp (common_fpga_interface_info_vec_resize n) Q s = Q () (resized n s)" for Q
    by (rule wp_resize [OF assms(1)]) (use assms(2) in auto)
  then show ?thesis
    using assms(1)
    by (simp add: resized_inv resized_vec resized_abs list_resize_def resized_live reserved_after_def)
qed

lemma resize_correct_witness:
  "wp (common_fpga_interface_info_vec_resize 3) (\<lambda>_ t. vec_size t = 3
      \<and> vec_abs t = [zero_info, zero_info, zero_info]) (demo_state (\<lambda>a. 0))"
  by (rule wp_mono [OF resize_correct]) (simp_all add: numeral_eq_Suc)

text \<open>A resize to zero returns every block that the table owns, whatever the environment
  grants.\<close>

lemma resize_zero_frees_all:
  assumes "vec_inv s"
  shows "wp (common_fpga_interface_info_vec_resize 0) (\<lambda>_ t. vec t = None \<and> vec_size t = 0
      \<and> vec_reserved t = 0 \<and> live t = live s - vec_blocks s) s"
proof -
  have "live (resized 0 s) = live s - vec_blocks s"
    using resized_live [OF assms, of 0] vec_blocks_abs [of "resized 0 s"] by (simp add: resized_vec)
  then show ?thesis by (simp add: wp_resize_0 [OF assms] resized_vec reserved_after_def)
qed

text \<open>A table with one entry that owns an array of one parameter with two words of data.\<close>

definition owning_entry :: FPGA_INTERFACE_INFO where
  "owning_entry = zero_info\<lparr>num_of_parameters := 1,
     parameters := Some [zero_param\<lparr>data_size := 16, data := Some [1, 2]\<rparr>]\<rparr>"

definition owning_state :: cmn_state where
  "owning_state = (demo_state (\<lambda>a. 0))
     \<lparr>g_common_fpga_interface_info_vec := Some [owning_entry], g_common_fpga_interface_info_vec_size := 1,
      g_common_fpga_interface_info_vec_reserved := 1, live := 3\<rparr>"

lemma owning_state_ok:
  "vec_inv owning_state" "vec_blocks owning_state = 3" "vec_abs owning_state = [owning_entry]"
  "vec_size owning_state = 1" "live owning_state = 3"
  by (simp_all add: vec_inv_def vec_blocks_def vec_abs_def owning_state_def info_ok_def
      owning_entry_def blocks_of_info_def blocks_of_param_def)

lemma owning_state_free: "mmio_held owning_state = {}" "interrupt_held owning_state = {}"
  by (auto simp: mmio_held_def interrupt_held_def owning_state_ok owning_entry_def)

text \<open>C35: A resize that needs memory and does not get it.  With the default handler the process exits
  with status 1; with an application handler that comes back, the table is left with the new size and
  a null array, and the next \<open>fpga_open\<close> of an entry dereferences null.\<close>

theorem resize_without_memory:
  assumes "vec_reserved s < n" and "\<not> env_alloc_ok (env s) (alloc_no s) (n * sizeof_info)"
    and "n < 2 ^ 32"
  shows "case g_common_fpga_platform_runtime_exception_handler s of
      Default_handler \<Rightarrow> \<exists>t. common_fpga_interface_info_vec_resize n s = Stop (Process_exit 1) t
    | App_handler cb \<Rightarrow>
        (if cb \<lparr>exn_function = ''common_fpga_interface_info_vec_reserve'',
                exn_format = ''insufficient memory for %d interfaces.'', exn_args = [Arg_size n]\<rparr>
         then \<exists>t. thn (common_fpga_interface_info_vec_resize n) (fpga_open 0) s
                = Stop (Undefined_behaviour Null_dereference) t
         else \<exists>t. common_fpga_interface_info_vec_resize n s = Stop Handler_diverted t)
    | Null_handler \<Rightarrow>
        \<exists>t. common_fpga_interface_info_vec_resize n s = Stop (Undefined_behaviour Null_dereference) t"
proof -
  have realloc: "realloc p n sizeof_info j s = Ret None (s\<lparr>alloc_no := Suc (alloc_no s)\<rparr>)" for p and j :: FPGA_INTERFACE_INFO
    using assms(2) by (simp add: realloc_def heap_request_def run_rules)
  show ?thesis
    using assms(1,3) realloc
    by (simp add: common_fpga_interface_info_vec_resize_def common_fpga_interface_info_vec_reserve_def
        run_rules fpga_throw_runtime_exception_def emit_def vprintf_def Let_def fpga_open_def
        s_common_fpga_platform_default_runtime_exception_handler_def
        common_fpga_interface_info_vec_size_def common_fpga_interface_info_vec_at_def
        split: FPGA_RUNTIME_EXCEPTION_HANDLER.split)
qed

lemma resize_without_memory_witness:
  "\<exists>t. thn (common_fpga_interface_info_vec_resize 4) (fpga_open 0)
      ((demo_state (\<lambda>a. 0))\<lparr>env := (demo_env (\<lambda>a. 0))\<lparr>env_alloc_ok := (\<lambda>n b. False)\<rparr>,
         g_common_fpga_platform_runtime_exception_handler := App_handler (\<lambda>ex. True)\<rparr>)
     = Stop (Undefined_behaviour Null_dereference) t"
  using resize_without_memory [of "(demo_state (\<lambda>a. 0))\<lparr>env := (demo_env (\<lambda>a. 0))
      \<lparr>env_alloc_ok := (\<lambda>n b. False)\<rparr>,
      g_common_fpga_platform_runtime_exception_handler := App_handler (\<lambda>ex. True)\<rparr>" 4]
  by simp

section \<open>Claims\<close>

text \<open>The two kinds of claims are independent: opening an interface for interrupts neither needs
  nor changes a register claim, and the other way round.\<close>

lemma claims_independent:
  assumes "vec_inv s"
  shows "wp (fpga_open i) (\<lambda>_ t. interrupt_held t = interrupt_held s) s
    \<and> wp (fpga_close i) (\<lambda>_ t. interrupt_held t = interrupt_held s) s
    \<and> wp (fpga_interrupt_open i) (\<lambda>_ t. mmio_held t = mmio_held s) s
    \<and> wp (fpga_interrupt_close i) (\<lambda>_ t. mmio_held t = mmio_held s) s"
proof (cases "unat i < vec_size s")
  case True
  with assms obtain xs where xs: "vec s = Some xs" "unat i < length xs"
    "xs ! unat i = vec_abs s ! unat i" by (rule vec_inv_Some)
  have len: "unat i < length (vec_abs s)" using assms True by (simp add: length_vec_abs)
  have keep: "wp (vec_upd (unat i) f) Q s"
    if "\<And>x. parameters (f x) = parameters x" "\<And>x. num_of_parameters (f x) = num_of_parameters x"
      and "\<And>t. vec_abs t = (vec_abs s)[unat i := f (vec_abs s ! unat i)] \<Longrightarrow>
             vec_size t = vec_size s \<Longrightarrow> Q () t" for f Q
    by (rule wp_mono [OF vec_upd_abs [OF assms True that(1,2)]]) (use that(3) in simp_all)
  show ?thesis
    using True xs len
    by (auto simp: fpga_open_def fpga_close_def fpga_interrupt_open_def fpga_interrupt_close_def
        wp_bnd wp_vec_size wp_vec_at wp_thn wp_ret wp_ret_eta mmio_held_def interrupt_held_def
        nth_list_update intro!: keep split: if_splits)
qed (simp add: fpga_open_def fpga_close_def fpga_interrupt_open_def fpga_interrupt_close_def
    wp_bnd wp_vec_size wp_ret)

text \<open>So each kind of claim obeys the contract also while the claims of the other kind are fixed.\<close>

interpretation mmio_alone: exclusive_claim fpga_open fpga_close
  "\<lambda>s. vec_inv s \<and> interrupt_held s = H" vec_size mmio_held for H
proof unfold_locales
  fix s :: "'a cmn_state_scheme" and i :: u32
  assume ok: "vec_inv s \<and> interrupt_held s = H"
  then have ind: "wp (fpga_open i) (\<lambda>_ t. interrupt_held t = H) s"
    "wp (fpga_close i) (\<lambda>_ t. interrupt_held t = H) s"
    using claims_independent [of s i] by auto
  {
    assume "unat i < vec_size s" and "unat i \<notin> mmio_held s"
    with ok show "wp (fpga_open i) (\<lambda>h t. h = sint i \<and> (vec_inv t \<and> interrupt_held t = H)
        \<and> vec_size t = vec_size s \<and> mmio_held t = insert (unat i) (mmio_held s)) s"
      using wp_conj [OF mmio_claim.claim_free ind(1)] by (auto elim!: wp_mono)
  next
    assume "\<not> unat i < vec_size s \<or> unat i \<in> mmio_held s"
    with ok show "fpga_open i s = Ret INVALID_HANDLE s" by (intro mmio_claim.claim_refused) simp_all
  next
    show "wp (fpga_close i) (\<lambda>_ t. (vec_inv t \<and> interrupt_held t = H) \<and> vec_size t = vec_size s
        \<and> mmio_held t = mmio_held s - {unat i}) s"
      using ok wp_conj [OF mmio_claim.release_law ind(2)] by (auto elim!: wp_mono)
  }
qed

interpretation interrupt_alone: exclusive_claim fpga_interrupt_open fpga_interrupt_close
  "\<lambda>s. vec_inv s \<and> mmio_held s = H" vec_size interrupt_held for H
proof unfold_locales
  fix s :: "'a cmn_state_scheme" and i :: u32
  assume ok: "vec_inv s \<and> mmio_held s = H"
  then have ind: "wp (fpga_interrupt_open i) (\<lambda>_ t. mmio_held t = H) s"
    "wp (fpga_interrupt_close i) (\<lambda>_ t. mmio_held t = H) s"
    using claims_independent [of s i] by auto
  {
    assume "unat i < vec_size s" and "unat i \<notin> interrupt_held s"
    with ok show "wp (fpga_interrupt_open i) (\<lambda>h t. h = sint i \<and> (vec_inv t \<and> mmio_held t = H)
        \<and> vec_size t = vec_size s \<and> interrupt_held t = insert (unat i) (interrupt_held s)) s"
      using wp_conj [OF interrupt_claim.claim_free ind(1)] by (auto elim!: wp_mono)
  next
    assume "\<not> unat i < vec_size s \<or> unat i \<in> interrupt_held s"
    with ok show "fpga_interrupt_open i s = Ret INVALID_HANDLE s"
      by (intro interrupt_claim.claim_refused) simp_all
  next
    show "wp (fpga_interrupt_close i) (\<lambda>_ t. (vec_inv t \<and> mmio_held t = H) \<and> vec_size t = vec_size s
        \<and> interrupt_held t = interrupt_held s - {unat i}) s"
      using ok wp_conj [OF interrupt_claim.release_law ind(2)] by (auto elim!: wp_mono)
  }
qed

text \<open>C11: Handles are exclusive.  Any sequence of \<open>fpga_open\<close> and \<open>fpga_close\<close> calls answers like
  the abstract machine of claims: an open succeeds exactly for an index in range that is not held, and
  returns the index as the handle; a close gives up the claim.  The interrupt handles obey the same
  machine, and neither kind of claim is needed for, or changed by, the other.\<close>

theorem interface_claims:
  assumes "vec_inv s"
  shows "wp (exclusive_claim.perform fpga_open fpga_close cs) (\<lambda>rs t. vec_inv t
      \<and> vec_size t = vec_size s \<and> interrupt_held t = interrupt_held s
      \<and> (rs, mmio_held t) = claim_run (vec_size s) cs (mmio_held s)) s
    \<and> wp (exclusive_claim.perform fpga_interrupt_open fpga_interrupt_close cs) (\<lambda>rs t. vec_inv t
      \<and> vec_size t = vec_size s \<and> mmio_held t = mmio_held s
      \<and> (rs, interrupt_held t) = claim_run (vec_size s) cs (interrupt_held s)) s"
  using mmio_alone.perform_refines [of s "interrupt_held s" cs]
    interrupt_alone.perform_refines [of s "mmio_held s" cs] assms
  by (auto elim!: wp_mono)

lemma interface_claims_witness:
  "wp (exclusive_claim.perform fpga_open fpga_close [Claim 0, Claim 0, Release 0, Claim 0, Claim 1])
     (\<lambda>rs t. rs = [0, -1, 0, 0, -1] \<and> mmio_held t = {0} \<and> interrupt_held t = {}) owning_state"
  by (rule wp_mono [OF interface_claims [THEN conjunct1, OF owning_state_ok(1)]])
    (simp add: owning_state_ok owning_state_free INVALID_HANDLE_def)

section \<open>Messages and exceptions\<close>

text \<open>Where a message goes.  After the registration of a print function every message of a valid
  type goes to it with its result, and to standard output, framed by the prefix of its type and a
  newline, if it is the default one; debug messages of the default one are dropped unless enabled.\<close>

lemma message_routing:
  assumes "valid_msg_type type"
  shows "thn (fpga_platform_register_printf p) (fpga_msg_printf type fmt args) s =
    (let s' = s\<lparr>g_common_fpga_platform_printf := p\<rparr> in
     case p of
       Default_printf \<Rightarrow>
         if type = FPGA_MSG_PRINTF_DEBUG \<and> g_common_show_dbg_msg s = 0 then Ret 0 s'
         else Ret (env_vprintf (env s) fmt args)
           (s'\<lparr>out := out s @ [Stdout_puts (msg_prefix type), Stdout_vprintf fmt args,
                             Stdout_puts ''\<newline>'']\<rparr>)
     | App_printf f \<Rightarrow> Ret (f type fmt args) (s'\<lparr>out := out s @ [App_message type fmt args]\<rparr>)
     | Null_printf \<Rightarrow> Stop (Undefined_behaviour Null_dereference) s')"
  using assms
  by (cases type) (simp_all add: fpga_platform_register_printf_def fpga_msg_printf_def run_rules
      emit_def print_prefixed_def vprintf_def s_common_fpga_platform_default_printf_def Let_def
      valid_msg_type_def split: FPGA_MSG_PRINTF.split)

lemma message_routing_witness:
  "thn (fpga_platform_register_printf Default_printf)
      (fpga_msg_printf FPGA_MSG_PRINTF_DEBUG ''x'' []) (demo_state (\<lambda>a. 0))
    = Ret 0 ((demo_state (\<lambda>a. 0))\<lparr>g_common_fpga_platform_printf := Default_printf\<rparr>)"
  using message_routing [of FPGA_MSG_PRINTF_DEBUG Default_printf "''x''" "[]" "demo_state (\<lambda>a. 0)"]
  by (simp add: valid_msg_type_def Let_def)

text \<open>What a throw does.  The default handler prints the function and the reason and ends the
  process with status 1; a registered handler gets the exception, and control is back in the library
  exactly when the handler comes back; a null handler is undefined behaviour.\<close>

lemma throw_outcome:
  "thn (fpga_platform_register_runtime_exception_handler h)
      (fpga_throw_runtime_exception fn fmt args) s =
    (let s' = s\<lparr>g_common_fpga_platform_runtime_exception_handler := h\<rparr>;
         ex = \<lparr>exn_function = fn, exn_format = fmt, exn_args = args\<rparr> in
     case h of
       Default_handler \<Rightarrow>
         Stop (Process_exit 1) (s'\<lparr>out := out s @
           [Stdout_vprintf ''Exception occured in %s() at line %d in %s due to '' [Arg_str fn],
            Stdout_vprintf fmt args, Stdout_puts ''\<newline>\<newline>Application is terminated.\<newline>'']\<rparr>)
     | App_handler cb \<Rightarrow>
         (if cb ex then Ret () (s'\<lparr>out := out s @ [App_exception ex]\<rparr>)
          else Stop Handler_diverted (s'\<lparr>out := out s @ [App_exception ex]\<rparr>))
     | Null_handler \<Rightarrow> Stop (Undefined_behaviour Null_dereference) s')"
  by (simp add: fpga_platform_register_runtime_exception_handler_def Let_def run_rules
      fpga_throw_runtime_exception_def emit_def vprintf_def
      s_common_fpga_platform_default_runtime_exception_handler_def
      split: FPGA_RUNTIME_EXCEPTION_HANDLER.split)

end
