(* ===== verification/Platform_Devmem.thy ===== *)
theory Platform_Devmem
  imports Platform_Os
begin

text \<open>
  The devmem platform: \<open>devmem/src/intel_fpga_platform_api_devmem.c\<close> and
  \<open>devmem/src/intel_fpga_api_devmem.c\<close>.  It maps physical memory, so that the start address of the
  interface is rounded down to a page for the map and the rest is added to the pointer.  There are no
  interrupts: the interrupt functions throw.  The build is the one without
  \<open>DEVMEM_UNIT_TEST_SW_MODEL_MODE\<close> and without \<open>_BSD_SOURCE\<close>; the text that \<open>perror\<close> writes to
  the standard error stream is left out.
\<close>

section \<open>State\<close>

record devmem_state = os_state +
  s_devmem_drv_path :: string
  s_devmem_addr_span :: u64
  s_devmem_dfl_entry_addr :: u64
  s_devmem_single_component_mode :: int
  s_devmem_start_addr :: u64
  s_devmem_drv_handle :: int
  s_devmem_mmap_ptr :: u64

type_synonym ('e, 'a) devmem = "('a, 'e devmem_state_scheme) prog"

text \<open>The static initialisers.\<close>

definition devmem_static :: "'e devmem_state_scheme \<Rightarrow> bool" where
  "devmem_static s \<longleftrightarrow>
     s_devmem_drv_path s = ''/dev/mem'' \<and> s_devmem_addr_span s = 0 \<and> s_devmem_dfl_entry_addr s = 0
     \<and> s_devmem_single_component_mode s = 1 \<and> s_devmem_start_addr s = 0
     \<and> s_devmem_drv_handle s = -1 \<and> s_devmem_mmap_ptr s = 0"

definition MASK_4K_ADDR :: u64 where "MASK_4K_ADDR = NOT 0xFFF"

section \<open>Options\<close>

definition devmem_parse_integer_arg :: "string \<Rightarrow> string \<Rightarrow> ('e, int) devmem" where
  "devmem_parse_integer_arg name optarg = parse_integer_arg name optarg"

definition devmem_long_options :: "long_option list" where
  "devmem_long_options =
     [Long_option ''devmem-driver-path'' True False (CHR ''p''),
      Long_option ''start-address'' True False (CHR ''a''),
      Long_option ''address-span'' True False (CHR ''s''),
      Long_option ''dfl-entry-address'' True False (CHR ''w''),
      Long_option ''show-dbg-msg'' False True (CHR ''d''),
      Long_option ''single-component-mode'' False True (CHR ''c'')]"

definition devmem_short_options :: "(char \<times> bool) list" where
  "devmem_short_options =
     [(CHR ''p'', True), (CHR ''a'', True), (CHR ''w'', True), (CHR ''s'', True),
      (CHR ''d'', False), (CHR ''c'', False)]"

fun devmem_option :: "opt_event \<Rightarrow> ('e, unit) devmem" where
  "devmem_option (Opt_arg c optarg) =
     (if c = CHR ''p'' then modify (\<lambda>s. s\<lparr>s_devmem_drv_path := optarg\<rparr>)
      else if c = CHR ''s'' then
        bnd (devmem_parse_integer_arg ''Address span'' optarg) (\<lambda>v.
        modify (\<lambda>s. s\<lparr>s_devmem_addr_span := word_of_int v\<rparr>))
      else if c = CHR ''a'' then
        bnd (devmem_parse_integer_arg ''Start address'' optarg) (\<lambda>v.
        modify (\<lambda>s. s\<lparr>s_devmem_start_addr := word_of_int v\<rparr>))
      else if c = CHR ''w'' then
        bnd (devmem_parse_integer_arg ''DFL entry address'' optarg) (\<lambda>v.
        thn (modify (\<lambda>s. s\<lparr>s_devmem_dfl_entry_addr := word_of_int v\<rparr>))
            (modify (\<lambda>s. s\<lparr>s_devmem_single_component_mode := 0\<rparr>)))
      else ret ())"
| "devmem_option (Opt_flag c) =
     (if c = CHR ''d'' then modify (\<lambda>s. s\<lparr>g_common_show_dbg_msg := int (code_of c)\<rparr>)
      else modify (\<lambda>s. s\<lparr>s_devmem_single_component_mode := int (code_of c)\<rparr>))"
| "devmem_option (Opt_char c) = ret ()"
| "devmem_option Opt_error = ret ()"

fun devmem_options :: "opt_event list \<Rightarrow> ('e, unit) devmem" where
  "devmem_options [] = ret ()"
| "devmem_options (ev # evs) = thn (devmem_option ev) (devmem_options evs)"

definition devmem_parse_args :: "string list \<Rightarrow> ('e, unit) devmem" where
  "devmem_parse_args args =
     devmem_options (getopt_long devmem_short_options devmem_long_options args)"

section \<open>Validation and report\<close>

definition devmem_validate_args :: "('e, bool) devmem" where
  "devmem_validate_args =
     bnd (gets s_devmem_addr_span) (\<lambda>span.
     bnd (gets s_devmem_start_addr) (\<lambda>start.
     bnd (gets s_devmem_single_component_mode) (\<lambda>single.
     bnd (gets s_devmem_dfl_entry_addr) (\<lambda>entry.
     thn (if span > 0 \<and> start > 0 then ret ()
          else
            thn (if span = 0 then
                   error_line ''No valid address span value is provided using the argument, --address-span.'' []
                 else ret ())
                (if start = 0 then
                   error_line ''Start address is not provided using the argument, --start-address.'' []
                 else ret ()))
         (if single = 0 \<and> (entry < start \<or> entry \<ge> start + span) then
            thn (error_line ''DFL entry address specified is not withing the range based on the arguments --start-address and --address-span.'' [])
                (ret False)
          else ret (span > 0 \<and> start > 0))))))"

definition devmem_print_configuration :: "('e, unit) devmem" where
  "devmem_print_configuration =
     bnd (gets s_devmem_drv_path) (\<lambda>path.
     bnd (gets s_devmem_addr_span) (\<lambda>span.
     bnd (gets s_devmem_start_addr) (\<lambda>start.
     bnd (gets s_devmem_single_component_mode) (\<lambda>single.
     bnd (gets s_devmem_dfl_entry_addr) (\<lambda>entry.
     thn (info_line ''Devmem Platform Configuration:'' [])
    (thn (info_line ''   Driver Path: %s'' [Arg_str path])
    (thn (info_line ''   Address Span: %ld'' [Arg_word span])
    (thn (info_line ''   Start Address: 0x%lX'' [Arg_word start])
         (if single \<noteq> 0 then info_line ''   Single Component Operation Model: Yes'' []
          else
            thn (info_line ''   DFL Operation Model: Yes'' [])
                (info_line ''   DFL Entry Address: 0x%lX'' [Arg_word entry]))))))))))"

section \<open>Driver, mapping and scan\<close>

definition devmem_open_driver :: "('e, bool) devmem" where
  "devmem_open_driver =
     bnd (gets s_devmem_drv_path) (\<lambda>path.
     bnd (syscall (Open path True)) (\<lambda>fd.
     thn (modify (\<lambda>s. s\<lparr>s_devmem_drv_handle := fd\<rparr>))
         (if fd = -1 then
            bnd (gets errno) (\<lambda>e.
            thn (error_line ''Failed to open %s. (Error code %d)'' [Arg_str path, Arg_int e])
                (ret False))
          else ret True)))"

definition devmem_map_mmio :: "('e, bool) devmem" where
  "devmem_map_mmio =
     bnd (gets s_devmem_addr_span) (\<lambda>span.
     bnd (gets s_devmem_drv_handle) (\<lambda>fd.
     bnd (gets s_devmem_start_addr) (\<lambda>start.
     bnd (syscall_ptr (Mmap span fd (start AND MASK_4K_ADDR))) (\<lambda>p.
     thn (modify (\<lambda>s. s\<lparr>s_devmem_mmap_ptr := p\<rparr>))
         (if p = MAP_FAILED then
            bnd (gets errno) (\<lambda>e.
            thn (error_line ''Failed to map the mmio inteface to the devmem driver provided.  (Error code %d)''
                   [Arg_int e])
                (ret False))
          else ret True)))))"

definition devmem_dfl_base_addr_decoder :: "u64 \<Rightarrow> u64 \<Rightarrow> u64 \<Rightarrow> u64" where
  "devmem_dfl_base_addr_decoder mmap_ptr start base_addr =
     base_addr - mmap_ptr - (start AND NOT MASK_4K_ADDR) + start"

text \<open>The fuel bounds the walk of the DFL, see \<open>Dfl_Walk\<close>.\<close>

definition devmem_scan_interfaces :: "nat \<Rightarrow> ('e, bool) devmem" where
  "devmem_scan_interfaces fuel =
     bnd (gets s_devmem_single_component_mode) (\<lambda>single.
     bnd (gets s_devmem_mmap_ptr) (\<lambda>p.
     bnd (gets s_devmem_start_addr) (\<lambda>start.
     thn (if single \<noteq> 0 then
            thn (common_fpga_interface_info_vec_resize 1)
           (thn (vec_upd 0 (\<lambda>x. x\<lparr>base_address := p + (start AND NOT MASK_4K_ADDR)\<rparr>))
           (thn (vec_upd 0 (\<lambda>x. x\<lparr>is_mmio_opened := False\<rparr>))
                (vec_upd 0 (\<lambda>x. x\<lparr>is_interrupt_opened := False\<rparr>))))
          else
            bnd (gets s_devmem_dfl_entry_addr) (\<lambda>entry.
            common_dfl_scan_multi_interfaces fuel
              (p + (entry - start) + (start AND NOT MASK_4K_ADDR))
              (devmem_dfl_base_addr_decoder p start)))
         (ret True))))"

section \<open>Initialisation and cleanup\<close>

definition fpga_devmem_platform_init :: "nat \<Rightarrow> string list \<Rightarrow> ('e, bool) devmem" where
  "fpga_devmem_platform_init fuel args =
     thn (devmem_parse_args args)
    (bnd devmem_validate_args (\<lambda>is_args_valid.
     if is_args_valid then
       thn devmem_print_configuration
      (bnd devmem_open_driver (\<lambda>opened.
       if \<not> opened then ret False
       else
         bnd devmem_map_mmio (\<lambda>is_mapped.
         if \<not> is_mapped then
           bnd (gets s_devmem_drv_handle) (\<lambda>fd. thn (syscall_ignored (Close fd)) (ret False))
         else
           bnd (devmem_scan_interfaces fuel) (\<lambda>ok.
           if \<not> ok then
             bnd (gets s_devmem_mmap_ptr) (\<lambda>p.
             bnd (gets s_devmem_addr_span) (\<lambda>span.
             bnd (gets s_devmem_drv_handle) (\<lambda>fd.
             thn (syscall_ignored (Munmap p span))
            (thn (syscall_ignored (Close fd)) (ret False)))))
           else ret True))))
     else ret False))"

definition fpga_devmem_platform_cleanup :: "('e, unit) devmem" where
  "fpga_devmem_platform_cleanup =
     bnd (gets s_devmem_mmap_ptr) (\<lambda>p.
     bnd (gets s_devmem_addr_span) (\<lambda>span.
     thn (syscall_ignored (Munmap p span))
    (bnd (gets s_devmem_drv_handle) (\<lambda>fd.
     thn (if fd \<ge> 0 then syscall_ignored (Close fd) else ret ())
    (thn (modify (\<lambda>s. s\<lparr>s_devmem_start_addr := 0, s_devmem_addr_span := 0,
                        s_devmem_single_component_mode := 1, s_devmem_drv_handle := -1,
                        s_devmem_mmap_ptr := 0\<rparr>))
    (bnd common_fpga_interface_info_vec_size (\<lambda>n.
     thn (if n > 0 then common_fpga_interface_info_vec_resize 0 else ret ())
    (thn (modify (\<lambda>s. s\<lparr>errno := -1\<rparr>))
         (debug_line ''Completed fpga_platform_cleanup'' [])))))))))"

section \<open>Register access\<close>

text \<open>The inline functions of \<open>devmem/inc/intel_fpga_api_devmem.h\<close>: those of \<open>Mmio\<close> with the base
  address of this platform.\<close>

definition fpga_devmem_read_8 :: "int \<Rightarrow> u32 \<Rightarrow> ('e, u8) mmio" where
  "fpga_devmem_read_8 handle offset = fpga_read_8 fpga_devmem_get_base_address handle offset"

definition fpga_devmem_write_8 :: "int \<Rightarrow> u32 \<Rightarrow> u8 \<Rightarrow> ('e, unit) mmio" where
  "fpga_devmem_write_8 handle offset val = fpga_write_8 fpga_devmem_get_base_address handle offset val"

definition fpga_devmem_read_16 :: "int \<Rightarrow> u32 \<Rightarrow> ('e, u16) mmio" where
  "fpga_devmem_read_16 handle offset = fpga_read_16 fpga_devmem_get_base_address handle offset"

definition fpga_devmem_write_16 :: "int \<Rightarrow> u32 \<Rightarrow> u16 \<Rightarrow> ('e, unit) mmio" where
  "fpga_devmem_write_16 handle offset val = fpga_write_16 fpga_devmem_get_base_address handle offset val"

definition fpga_devmem_read_32 :: "int \<Rightarrow> u32 \<Rightarrow> ('e, u32) mmio" where
  "fpga_devmem_read_32 handle offset = fpga_read_32 fpga_devmem_get_base_address handle offset"

definition fpga_devmem_write_32 :: "int \<Rightarrow> u32 \<Rightarrow> u32 \<Rightarrow> ('e, unit) mmio" where
  "fpga_devmem_write_32 handle offset val = fpga_write_32 fpga_devmem_get_base_address handle offset val"

definition fpga_devmem_read_64 :: "int \<Rightarrow> u32 \<Rightarrow> ('e, u64) mmio" where
  "fpga_devmem_read_64 handle offset =
     fpga_read_64 fpga_devmem_get_base_address fpga_devmem_read_32 handle offset"

definition fpga_devmem_write_64 :: "int \<Rightarrow> u32 \<Rightarrow> u64 \<Rightarrow> ('e, unit) mmio" where
  "fpga_devmem_write_64 handle offset val =
     fpga_write_64 fpga_devmem_get_base_address fpga_devmem_write_32 handle offset val"

definition fpga_devmem_read_512 :: "int \<Rightarrow> u32 \<Rightarrow> ('e, u8 list) mmio" where
  "fpga_devmem_read_512 handle offset = fpga_read_512 (fpga_devmem_read_64 handle) offset"

definition fpga_devmem_write_512 :: "int \<Rightarrow> u32 \<Rightarrow> u8 list \<Rightarrow> ('e, unit) mmio" where
  "fpga_devmem_write_512 handle offset val = fpga_write_512 (fpga_devmem_write_64 handle) offset val"

lemmas devmem_access =
  fpga_devmem_read_8_def fpga_devmem_write_8_def fpga_devmem_read_16_def fpga_devmem_write_16_def
  fpga_devmem_read_32_def [abs_def] fpga_devmem_write_32_def [abs_def]
  fpga_devmem_read_64_def [abs_def] fpga_devmem_write_64_def [abs_def]
  fpga_devmem_read_512_def fpga_devmem_write_512_def

section \<open>The functions the platform does not have\<close>

text \<open>Each throws, and returns null or 0 if the exception handler comes back.\<close>

definition devmem_unsupported :: "string \<Rightarrow> 'a \<Rightarrow> ('e, 'a) devmem" where
  "devmem_unsupported fn x =
     thn (fpga_throw_runtime_exception fn ''Current platform doesn't support such feature.'' []) (ret x)"

definition fpga_devmem_malloc :: "int \<Rightarrow> u32 \<Rightarrow> ('e, u64) devmem" where
  "fpga_devmem_malloc handle bytes = devmem_unsupported ''fpga_malloc'' 0"

definition fpga_devmem_free :: "int \<Rightarrow> u64 \<Rightarrow> ('e, unit) devmem" where
  "fpga_devmem_free handle address = devmem_unsupported ''fpga_free'' ()"

definition fpga_devmem_get_physical_address :: "u64 \<Rightarrow> ('e, u64) devmem" where
  "fpga_devmem_get_physical_address address = devmem_unsupported ''fpga_get_physical_address'' 0"

definition fpga_devmem_register_isr :: "int \<Rightarrow> u64 \<Rightarrow> u64 \<Rightarrow> ('e, int) devmem" where
  "fpga_devmem_register_isr handle isr context = devmem_unsupported ''fpga_register_isr'' 0"

definition fpga_devmem_enable_interrupt :: "int \<Rightarrow> ('e, int) devmem" where
  "fpga_devmem_enable_interrupt handle = devmem_unsupported ''fpga_enable_interrupt'' 0"

definition fpga_devmem_disable_interrupt :: "int \<Rightarrow> ('e, int) devmem" where
  "fpga_devmem_disable_interrupt handle = devmem_unsupported ''fpga_disable_interrupt'' 0"

section \<open>Addresses\<close>

text \<open>The page of the start address and the rest.\<close>

lemma page_split: "(start AND MASK_4K_ADDR) + (start AND NOT MASK_4K_ADDR) = start"
proof -
  have "(start AND MASK_4K_ADDR) + (start AND NOT MASK_4K_ADDR)
      = (start AND MASK_4K_ADDR) OR (start AND NOT MASK_4K_ADDR)"
    by (rule disjunctive_add_eq_or) (auto intro!: bit_word_eqI simp: bit_simps)
  also have "\<dots> = start" by (auto intro!: bit_word_eqI simp: bit_simps)
  finally show ?thesis .
qed

lemma page_aligned: "take_bit 12 (start AND MASK_4K_ADDR) = 0"
  by (rule bit_word_eqI)
    (auto simp: MASK_4K_ADDR_def bit_simps mask_eq_exp_minus_1 [symmetric])

lemma in_page: "start AND NOT MASK_4K_ADDR < 4096"
proof -
  have "start AND NOT MASK_4K_ADDR = take_bit 12 start"
    by (simp add: MASK_4K_ADDR_def take_bit_eq_mask mask_eq_exp_minus_1)
  moreover have "unat (take_bit 12 start) < 4096"
    using take_bit_nat_less_exp [of 12 "unat start"] by (simp add: unsigned_take_bit_eq)
  ultimately show ?thesis by (simp add: word_less_nat_alt)
qed

text \<open>Decoding the pointer to a register gives its physical address.\<close>

lemma decode_pointer:
  "devmem_dfl_base_addr_decoder p start (p + (phys - start) + (start AND NOT MASK_4K_ADDR)) = phys"
  by (simp add: devmem_dfl_base_addr_decoder_def)

end
