(* ===== verification/Devmem_Init.thy ===== *)
theory Devmem_Init
  imports Platform_Devmem Platform_Table
begin

text \<open>
  What initialisation and cleanup of the devmem platform do: the rejected configurations, the calls
  on the failing paths, the table after a successful start, and what a cleanup releases.
\<close>

section \<open>Fields that calls do not touch\<close>

lemma called_devmem [simp]:
  fixes s :: "'e devmem_state_scheme"
  shows "s_devmem_drv_path (called c f s) = s_devmem_drv_path s"
    "s_devmem_addr_span (called c f s) = s_devmem_addr_span s"
    "s_devmem_dfl_entry_addr (called c f s) = s_devmem_dfl_entry_addr s"
    "s_devmem_single_component_mode (called c f s) = s_devmem_single_component_mode s"
    "s_devmem_start_addr (called c f s) = s_devmem_start_addr s"
    "s_devmem_drv_handle (called c f s) = s_devmem_drv_handle s"
    "s_devmem_mmap_ptr (called c f s) = s_devmem_mmap_ptr s"
  by (simp_all add: called_def)

lemma can_print_devmem [simp]:
  fixes s :: "'e devmem_state_scheme"
  shows "can_print (s\<lparr>s_devmem_drv_handle := h\<rparr>) = can_print s"
    "can_print (s\<lparr>s_devmem_mmap_ptr := p\<rparr>) = can_print s"
    "can_print (s\<lparr>s_devmem_addr_span := n\<rparr>) = can_print s"
    "can_print (s\<lparr>s_devmem_start_addr := n\<rparr>) = can_print s"
    "can_print (s\<lparr>s_devmem_single_component_mode := m\<rparr>) = can_print s"
  by (simp_all add: can_print_def)

section \<open>Configurations\<close>

text \<open>The configurations that are accepted.  The end of the range wraps around.\<close>

definition devmem_config_ok :: "'e devmem_state_scheme \<Rightarrow> bool" where
  "devmem_config_ok s \<longleftrightarrow>
     0 < s_devmem_addr_span s \<and> 0 < s_devmem_start_addr s
     \<and> (s_devmem_single_component_mode s \<noteq> 0
        \<or> s_devmem_start_addr s \<le> s_devmem_dfl_entry_addr s
           \<and> s_devmem_dfl_entry_addr s < s_devmem_start_addr s + s_devmem_addr_span s)"

lemma wp_devmem_validate:
  assumes "can_print s" and "\<And>ev. Q (devmem_config_ok s) (s\<lparr>out := out s @ ev\<rparr>)"
  shows "wp devmem_validate_args Q s"
proof -
  have self: "Q (devmem_config_ok s) s" using assms(2) [of "[]"] by (cases s) simp
  have neq: "a < b \<longleftrightarrow> \<not> b \<le> a" for a b :: u64 by auto
  show ?thesis
  proof (cases "devmem_config_ok s")
    case True
    with assms self have Q: "Q True s" "\<And>ev. Q True (s\<lparr>out := out s @ ev\<rparr>)" by simp_all
    from True have "0 < s_devmem_addr_span s" "0 < s_devmem_start_addr s"
      "\<not> (s_devmem_single_component_mode s = 0
         \<and> (s_devmem_dfl_entry_addr s < s_devmem_start_addr s
            \<or> s_devmem_start_addr s + s_devmem_addr_span s \<le> s_devmem_dfl_entry_addr s))"
      by (auto simp: devmem_config_ok_def)
    with Q assms(1) show ?thesis
      by (simp only: devmem_validate_args_def wp_rules if_True if_False simp_thms)
  next
    case False
    with assms self have Q: "Q False s" "\<And>ev. Q False (s\<lparr>out := out s @ ev\<rparr>)" by simp_all
    from False have no: "(0 < s_devmem_addr_span s \<and> 0 < s_devmem_start_addr s) = False
      \<or> (s_devmem_single_component_mode s = 0
         \<and> (s_devmem_dfl_entry_addr s < s_devmem_start_addr s
            \<or> s_devmem_start_addr s + s_devmem_addr_span s \<le> s_devmem_dfl_entry_addr s)) = True"
      by (auto simp: devmem_config_ok_def)
    show ?thesis
      unfolding devmem_validate_args_def wp_bnd wp_gets wp_thn
      using no Q assms(1) by (auto simp: wp_rules)
  qed
qed

text \<open>What is left to do after the configuration has been reported.\<close>

definition devmem_bring_up :: "nat \<Rightarrow> ('e, bool) devmem" where
  "devmem_bring_up fuel =
     bnd devmem_open_driver (\<lambda>opened.
     if \<not> opened then ret False
     else
       bnd devmem_map_mmio (\<lambda>is_mapped.
       if \<not> is_mapped then
         bnd (gets s_devmem_drv_handle) (\<lambda>fd. thn (syscall_ignored (Close fd)) (ret False))
       else
         bnd (devmem_scan_interfaces fuel) (\<lambda>ok.
         if \<not> ok then
           bnd (gets s_devmem_mmap_ptr) (\<lambda>p.
           bnd (gets s_devmem_addr_span) (\<lambda>span.
           bnd (gets s_devmem_drv_handle) (\<lambda>fd.
           thn (syscall_ignored (Munmap p span))
          (thn (syscall_ignored (Close fd)) (ret False)))))
         else ret True)))"

text \<open>Two states that differ in the messages only.\<close>

definition more_messages :: "'e devmem_state_scheme \<Rightarrow> 'e devmem_state_scheme \<Rightarrow> bool" where
  "more_messages s t \<longleftrightarrow> (\<exists>ev. t = s\<lparr>out := out s @ ev\<rparr>)"

lemma wp_devmem_print_configuration:
  assumes "can_print s" and "\<And>t. more_messages s t \<Longrightarrow> Q () t"
  shows "wp devmem_print_configuration Q s"
proof -
  have "Q () (s\<lparr>out := out s @ ev\<rparr>)" for ev using assms(2) by (auto simp: more_messages_def)
  with assms(1) show ?thesis by (simp add: devmem_print_configuration_def wp_rules)
qed

lemma more_messages_trans: "more_messages s t \<Longrightarrow> more_messages t u \<Longrightarrow> more_messages s u"
  by (auto simp: more_messages_def)

lemma wp_devmem_init:
  assumes p: "devmem_parse_args args s = Ret () s1" and c: "can_print s1"
    and up: "\<And>t. devmem_config_ok s1 \<Longrightarrow> more_messages s1 t \<Longrightarrow> wp (devmem_bring_up fuel) Q t"
    and no: "\<And>t. \<not> devmem_config_ok s1 \<Longrightarrow> more_messages s1 t \<Longrightarrow> Q False t"
  shows "wp (fpga_devmem_platform_init fuel args) Q s"
proof -
  have parse: "wp (devmem_parse_args args) R s = R () s1" for R by (simp add: wp_def p)
  have print: "wp (thn devmem_print_configuration (devmem_bring_up fuel)) Q t"
    if "devmem_config_ok s1" "more_messages s1 t" for t
    unfolding wp_thn
  proof (rule wp_devmem_print_configuration)
    show "can_print t" using that(2) c by (auto simp: more_messages_def)
  qed (use up that more_messages_trans in blast)
  show ?thesis
    unfolding fpga_devmem_platform_init_def devmem_bring_up_def [symmetric] wp_thn parse wp_bnd
  proof (rule wp_devmem_validate [OF c])
    fix ev
    have m: "more_messages s1 (s1\<lparr>out := out s1 @ ev\<rparr>)" by (auto simp: more_messages_def)
    with print no show "wp (if devmem_config_ok s1
        then thn devmem_print_configuration (devmem_bring_up fuel) else ret False) Q
        (s1\<lparr>out := out s1 @ ev\<rparr>)"
      by (simp add: wp_ret)
  qed
qed

section \<open>Bring-up\<close>

definition devmem_resources :: "string \<Rightarrow> int \<Rightarrow> u64 \<Rightarrow> 'e devmem_state_scheme \<Rightarrow> bool" where
  "devmem_resources path fd p s \<longleftrightarrow>
     s_devmem_drv_path s = path \<and> fd \<noteq> -1 \<and> p \<noteq> MAP_FAILED
     \<and> os_result (os s) (os_calls s) (Open path True) = fd
     \<and> os_pointer (os s) (os_calls s @ [Open path True])
         (Mmap (s_devmem_addr_span s) fd (s_devmem_start_addr s AND MASK_4K_ADDR)) = p"

text \<open>The calls of a successful bring-up.\<close>

definition devmem_map_calls :: "string \<Rightarrow> int \<Rightarrow> 'e devmem_state_scheme \<Rightarrow> os_call list" where
  "devmem_map_calls path fd s =
     [Open path True, Mmap (s_devmem_addr_span s) fd (s_devmem_start_addr s AND MASK_4K_ADDR)]"

definition devmem_mapped_state ::
    "string \<Rightarrow> int \<Rightarrow> u64 \<Rightarrow> 'e devmem_state_scheme \<Rightarrow> 'e devmem_state_scheme" where
  "devmem_mapped_state path fd p s =
     (called (Mmap (s_devmem_addr_span s) fd (s_devmem_start_addr s AND MASK_4K_ADDR)) False
        ((called (Open path True) (fd < 0) s)\<lparr>s_devmem_drv_handle := fd\<rparr>))\<lparr>s_devmem_mmap_ptr := p\<rparr>"

lemma devmem_mapped_simps [simp]:
  fixes s :: "'e devmem_state_scheme"
  shows "s_devmem_single_component_mode (devmem_mapped_state path fd p s) = s_devmem_single_component_mode s"
    "s_devmem_mmap_ptr (devmem_mapped_state path fd p s) = p"
    "s_devmem_start_addr (devmem_mapped_state path fd p s) = s_devmem_start_addr s"
    "s_devmem_addr_span (devmem_mapped_state path fd p s) = s_devmem_addr_span s"
    "s_devmem_dfl_entry_addr (devmem_mapped_state path fd p s) = s_devmem_dfl_entry_addr s"
    "s_devmem_drv_handle (devmem_mapped_state path fd p s) = fd"
    "env (devmem_mapped_state path fd p s) = env s" "mem (devmem_mapped_state path fd p s) = mem s"
    "vec (devmem_mapped_state path fd p s) = vec s"
    "vec_size (devmem_mapped_state path fd p s) = vec_size s"
    "vec_reserved (devmem_mapped_state path fd p s) = vec_reserved s"
    "live (devmem_mapped_state path fd p s) = live s"
    "dfh_parent_stack (devmem_mapped_state path fd p s) = dfh_parent_stack s"
    "os_calls (devmem_mapped_state path fd p s) = os_calls s @ devmem_map_calls path fd s"
  by (simp_all add: devmem_mapped_state_def devmem_map_calls_def)

lemma wp_devmem_mapped:
  assumes "devmem_resources path fd p s" and "can_print s"
    and "wp (devmem_scan_interfaces fuel) (\<lambda>ok t. ok \<and> Q True t) (devmem_mapped_state path fd p s)"
  shows "wp (devmem_bring_up fuel) Q s"
proof -
  have "wp (devmem_bring_up fuel) Q s = wp (bnd (devmem_scan_interfaces fuel) (\<lambda>ok.
         if \<not> ok then
           bnd (gets s_devmem_mmap_ptr) (\<lambda>p.
           bnd (gets s_devmem_addr_span) (\<lambda>span.
           bnd (gets s_devmem_drv_handle) (\<lambda>fd.
           thn (syscall_ignored (Munmap p span))
          (thn (syscall_ignored (Close fd)) (ret False)))))
         else ret True)) Q (devmem_mapped_state path fd p s)"
    using assms(1,2)
    by (simp add: devmem_bring_up_def devmem_open_driver_def devmem_map_mmio_def
        devmem_resources_def wp_bnd wp_thn wp_gets wp_syscall wp_syscall_ptr wp_modify wp_if wp_ret
        devmem_mapped_state_def)
  then show ?thesis
    unfolding wp_bnd [of "devmem_scan_interfaces fuel"]
    using assms(3) by (auto simp: wp_ret elim!: wp_mono)
qed

lemma wp_devmem_no_map:
  assumes "can_print s" and "s_devmem_drv_path s = path"
    and "os_result (os s) (os_calls s) (Open path True) = fd" and "fd \<noteq> -1"
    and "os_pointer (os s) (os_calls s @ [Open path True])
           (Mmap (s_devmem_addr_span s) fd (s_devmem_start_addr s AND MASK_4K_ADDR)) = MAP_FAILED"
  shows "wp (devmem_bring_up fuel) (\<lambda>r t. \<not> r \<and> vec t = vec s \<and> s_devmem_drv_handle t = fd
      \<and> s_devmem_mmap_ptr t = MAP_FAILED \<and> can_print t \<and> vec_size t = vec_size s
      \<and> vec_reserved t = vec_reserved s \<and> s_devmem_addr_span t = s_devmem_addr_span s
      \<and> live t = live s \<and> os_calls t = os_calls s @ devmem_map_calls path fd s @ [Close fd]) s"
  using assms
  by (simp add: devmem_bring_up_def devmem_open_driver_def devmem_map_mmio_def wp_rules
      devmem_map_calls_def)

lemma devmem_more:
  fixes s t :: "'e devmem_state_scheme"
  assumes "cmn_state.more t = cmn_state.more s"
  shows "os_calls t = os_calls s" and "s_devmem_drv_handle t = s_devmem_drv_handle s"
    and "s_devmem_mmap_ptr t = s_devmem_mmap_ptr s" and "s_devmem_addr_span t = s_devmem_addr_span s"
  using assms by (cases s; cases t; simp)+

lemma wp_devmem_single:
  assumes res: "devmem_resources path fd p s" and pr: "can_print s"
    and mode: "s_devmem_single_component_mode s \<noteq> 0"
    and inv: "vec_inv s" and empty: "vec_abs s = []" and ok: "allocs_ok s"
  shows "wp (devmem_bring_up fuel) (\<lambda>r t. r \<and> vec_inv t
      \<and> vec_abs t = [single_entry (p + (s_devmem_start_addr s AND NOT MASK_4K_ADDR))]
      \<and> live t - vec_blocks t = live s - vec_blocks s
      \<and> os_calls t = os_calls s @ devmem_map_calls path fd s) s"
proof (rule wp_devmem_mapped [OF res pr])
  let ?s = "devmem_mapped_state path fd p s"
  have c: "vec_inv ?s" "vec_abs ?s = []" "allocs_ok ?s" "vec_blocks ?s = vec_blocks s"
    using inv empty ok vec_cong [of ?s s] by (simp_all add: allocs_ok_def)
  show "wp (devmem_scan_interfaces fuel) (\<lambda>ok t. ok \<and> (True \<and> vec_inv t
      \<and> vec_abs t = [single_entry (p + (s_devmem_start_addr s AND NOT MASK_4K_ADDR))]
      \<and> live t - vec_blocks t = live s - vec_blocks s
      \<and> os_calls t = os_calls s @ devmem_map_calls path fd s)) ?s"
    using mode wp_single_entry [OF c(1-3), of "p + (s_devmem_start_addr s AND NOT MASK_4K_ADDR)"]
    by (simp add: devmem_scan_interfaces_def wp_bnd wp_gets wp_thn wp_ret wp_ret_eta)
      (auto simp: c(4) elim!: wp_mono)
qed

lemma wp_devmem_dfl:
  assumes res: "devmem_resources path fd p s" and pr: "can_print s"
    and mode: "s_devmem_single_component_mode s = 0" and ready: "scan_ready s"
    and a: "a = p + (s_devmem_dfl_entry_addr s - s_devmem_start_addr s)
               + (s_devmem_start_addr s AND NOT MASK_4K_ADDR)"
    and x: "dfl_at (dfl_view s) a x" "tree_fits x" "fuel_level x \<le> fuel"
  shows "wp (devmem_bring_up fuel) (\<lambda>r t. r \<and> vec_inv t \<and> vec_abs t = rows a x
      \<and> live t - vec_blocks t = live s - vec_blocks s
      \<and> os_calls t = os_calls s @ devmem_map_calls path fd s
      \<and> can_print t \<and> s_devmem_drv_handle t = fd \<and> s_devmem_mmap_ptr t = p
      \<and> g_common_fpga_platform_printf t = g_common_fpga_platform_printf s
      \<and> s_devmem_addr_span t = s_devmem_addr_span s \<and> mem t = mem s \<and> env t = env s) s"
proof (rule wp_devmem_mapped [OF res pr])
  let ?s = "devmem_mapped_state path fd p s"
  have ready': "scan_ready ?s" and bl: "vec_blocks ?s = vec_blocks s"
    using ready vec_cong [of ?s s] by (simp_all add: scan_ready_def allocs_ok_def)
  have view: "dfl_view ?s = dfl_view s" by (rule dfl_view_cong) simp_all
  have "wp (common_dfl_scan_multi_interfaces fuel a
      (devmem_dfl_base_addr_decoder p (s_devmem_start_addr s))) (\<lambda>_. scanned a x ?s) ?s"
    by (rule wp_scan [OF ready']) (use x view in simp_all)
  moreover have "os_calls t = os_calls s @ devmem_map_calls path fd s \<and> can_print t
      \<and> s_devmem_drv_handle t = fd \<and> s_devmem_mmap_ptr t = p
      \<and> g_common_fpga_platform_printf t = g_common_fpga_platform_printf s
      \<and> s_devmem_addr_span t = s_devmem_addr_span s \<and> mem t = mem s \<and> env t = env s"
    if "scanned a x ?s t" for t
  proof -
    from that have "cmn_state.more t = cmn_state.more ?s" "can_print t = can_print ?s"
      "g_common_fpga_platform_printf t = g_common_fpga_platform_printf ?s" "mem t = mem ?s" "env t = env ?s"
      by (auto simp: scanned_def same_rest_def can_print_def)
    with devmem_more [of t ?s] pr show ?thesis by (simp add: devmem_mapped_state_def devmem_map_calls_def)
  qed
  ultimately show "wp (devmem_scan_interfaces fuel) (\<lambda>ok t. ok \<and> (True \<and> vec_inv t
      \<and> vec_abs t = rows a x \<and> live t - vec_blocks t = live s - vec_blocks s
      \<and> os_calls t = os_calls s @ devmem_map_calls path fd s
      \<and> can_print t \<and> s_devmem_drv_handle t = fd \<and> s_devmem_mmap_ptr t = p
      \<and> g_common_fpga_platform_printf t = g_common_fpga_platform_printf s
      \<and> s_devmem_addr_span t = s_devmem_addr_span s \<and> mem t = mem s \<and> env t = env s)) ?s"
    using mode a
    by (simp add: devmem_scan_interfaces_def wp_bnd wp_gets wp_ret wp_ret_eta wp_thn)
      (auto simp: scanned_def bl elim!: wp_mono)
qed

section \<open>Cleanup\<close>

definition devmem_cleaned :: "'e devmem_state_scheme \<Rightarrow> bool" where
  "devmem_cleaned s \<longleftrightarrow>
     vec s = None \<and> vec_size s = 0 \<and> s_devmem_start_addr s = 0 \<and> s_devmem_addr_span s = 0
     \<and> s_devmem_single_component_mode s = 1 \<and> s_devmem_drv_handle s = -1
     \<and> s_devmem_mmap_ptr s = 0 \<and> errno s = -1"

text \<open>The map is given back whether or not there is one.\<close>

lemma wp_devmem_cleanup:
  fixes s :: "'e devmem_state_scheme"
  assumes pr: "can_print s" and tight: "table_tight s"
  shows "wp fpga_devmem_platform_cleanup (\<lambda>_ t. devmem_cleaned t
      \<and> live t = live s - vec_blocks s \<and> s_devmem_drv_path t = s_devmem_drv_path s
      \<and> (\<exists>ev. out t = out s @ ev)
      \<and> os_calls t = os_calls s @ Munmap (s_devmem_mmap_ptr s) (s_devmem_addr_span s)
          # (if s_devmem_drv_handle s \<ge> 0 then [Close (s_devmem_drv_handle s)] else [])) s"
proof -
  let ?fd = "s_devmem_drv_handle s" and ?un = "Munmap (s_devmem_mmap_ptr s) (s_devmem_addr_span s)"
  define s0 where "s0 = called ?un (os_result (os s) (os_calls s) ?un < 0) s"
  define s1 where "s1 = (if ?fd \<ge> 0
      then called (Close ?fd) (os_result (os s0) (os_calls s0) (Close ?fd) < 0) s0
      else s0)\<lparr>s_devmem_start_addr := 0, s_devmem_addr_span := 0,
        s_devmem_single_component_mode := 1, s_devmem_drv_handle := -1, s_devmem_mmap_ptr := 0\<rparr>"
  have v: "vec s1 = vec s" "vec_size s1 = vec_size s" "vec_reserved s1 = vec_reserved s"
    "can_print s1" "live s1 = live s" "out s1 = out s" "s_devmem_drv_path s1 = s_devmem_drv_path s"
    "os_calls s1 = os_calls s @ ?un # (if ?fd \<ge> 0 then [Close ?fd] else [])"
    using pr by (auto simp: s1_def s0_def)
  have inv: "table_tight s1" and bl: "vec_blocks s1 = vec_blocks s"
    using tight v vec_cong [of s1 s] by (simp_all add: table_tight_def)
  have step: "wp fpga_devmem_platform_cleanup Q s = wp (thn release_table
      (thn (modify (\<lambda>s. s\<lparr>errno := -1\<rparr>)) (debug_line ''Completed fpga_platform_cleanup'' []))) Q s1"
    for Q
    by (simp add: fpga_devmem_platform_cleanup_def release_table_def wp_bnd wp_gets wp_thn wp_modify
        wp_ret wp_vec_size wp_syscall_ignored s1_def s0_def)
  show ?thesis
    unfolding step wp_thn [of release_table]
  proof (rule wp_mono [OF wp_release_table [OF inv]])
    fix x t
    assume t: "vec t = None \<and> vec_size t = 0 \<and> vec_inv t \<and> live t = live s1 - vec_blocks s1
      \<and> (\<exists>v n r l. t = s1\<lparr>g_common_fpga_interface_info_vec := v,
              g_common_fpga_interface_info_vec_size := n,
              g_common_fpga_interface_info_vec_reserved := r, live := l\<rparr>)"
    then have "can_print t" "out t = out s1" "os_calls t = os_calls s1" "s_devmem_drv_path t = s_devmem_drv_path s1"
      "s_devmem_start_addr t = 0" "s_devmem_addr_span t = 0" "s_devmem_single_component_mode t = 1"
      "s_devmem_drv_handle t = -1" "s_devmem_mmap_ptr t = 0"
      using v(4) by (auto simp: can_print_def s1_def)
    with t show "wp (thn (modify (\<lambda>s. s\<lparr>errno := -1\<rparr>))
        (debug_line ''Completed fpga_platform_cleanup'' [])) (\<lambda>_ t. devmem_cleaned t
      \<and> live t = live s - vec_blocks s \<and> s_devmem_drv_path t = s_devmem_drv_path s
      \<and> (\<exists>ev. out t = out s @ ev)
      \<and> os_calls t = os_calls s @ ?un # (if ?fd \<ge> 0 then [Close ?fd] else [])) t"
      by (simp add: wp_rules devmem_cleaned_def v bl)
  qed
qed

end
