(* ===== verification/Platform_Zephyr.thy ===== *)
theory Platform_Zephyr
  imports Platform_Table
begin

text \<open>
  The Zephyr platform: \<open>zephyr/src/intel_fpga_platform_api_zephyr.c\<close> (options, scan of the device
  table, initialisation and cleanup), \<open>zephyr/src/intel_fpga_api_zephyr.c\<close> (the interrupt API) and
  the register access of \<open>zephyr/inc/intel_fpga_api_zephyr.h\<close>.  The build is the one without
  \<open>ZEPHYR_UNIT_TEST_SW_MODEL_MODE\<close>.

  The device table \<open>fpga_ip_access_dev_table\<close> is made from the enabled syscon nodes of the device tree,
  which the build generates: the nodes are an argument of the model.  So is what Zephyr's own \<open>getopt_long\<close> delivers.  The calls into Zephyr's interrupt
  and syscon drivers are calls of \<open>Platform_Os\<close>; a device pointer is a number.
\<close>

section \<open>State\<close>

record dev_info =
  dev_dev :: nat
  dev_base_addr :: u64
  dev_size :: u32
  dev_irq :: int
  dev_type :: u32

text \<open>What the macros of the device tree say of a node: its device, its first register block, its first
  interrupt if it has one, and with which of the two bindings of the library it is compatible.\<close>

record dt_node =
  DEVICE_DT_GET :: nat
  DT_REG_ADDR :: u64
  DT_REG_SIZE :: u32
  DT_IRQN :: "int option"
  compat_fpga_ip_access_dfl :: bool
  compat_fpga_ip_access :: bool

text \<open>Of several initialisers of a member the last one counts.\<close>

definition FPGA_IP_ACCESS_DEV :: "dt_node \<Rightarrow> dev_info" where
  "FPGA_IP_ACCESS_DEV node =
     (let d = \<lparr>dev_dev = DEVICE_DT_GET node, dev_base_addr = DT_REG_ADDR node, dev_size = DT_REG_SIZE node,
               dev_irq = (case DT_IRQN node of Some i \<Rightarrow> i | None \<Rightarrow> -1), dev_type = 0\<rparr>;
          d = (if compat_fpga_ip_access_dfl node then d\<lparr>dev_type := 2\<rparr> else d)
      in if compat_fpga_ip_access node then d\<lparr>dev_type := 1\<rparr> else d)"

definition fpga_ip_access_dev_table :: "dt_node list \<Rightarrow> dev_info list" where
  "fpga_ip_access_dev_table nodes = map FPGA_IP_ACCESS_DEV nodes"

record zephyr_state = os_state +
  s_zephyr_addr_span :: u64
  s_zephyr_single_component_mode :: int
  s_zephyr_start_addr :: u64
  s_zephyr_mmap_ptr :: u64
  s_zephyr_dfl_addr :: u64
  s_zephyr_dfl_found :: bool

type_synonym ('e, 'a) zephyr = "('a, 'e zephyr_state_scheme) prog"

text \<open>The static initialisers.\<close>

definition zephyr_static :: "'e zephyr_state_scheme \<Rightarrow> bool" where
  "zephyr_static s \<longleftrightarrow>
     s_zephyr_addr_span s = 0 \<and> s_zephyr_single_component_mode s = 0 \<and> s_zephyr_start_addr s = 0
     \<and> s_zephyr_mmap_ptr s = 0 \<and> s_zephyr_dfl_addr s = 0 \<and> \<not> s_zephyr_dfl_found s"

section \<open>Options\<close>

definition zephyr_parse_integer_arg :: "string \<Rightarrow> string \<Rightarrow> ('e, int) zephyr" where
  "zephyr_parse_integer_arg name optarg = parse_integer_arg name optarg"

fun zephyr_parse_args :: "opt_event list \<Rightarrow> ('e, unit) zephyr" where
  "zephyr_parse_args [] = ret ()"
| "zephyr_parse_args (Opt_arg c optarg # evs) =
     thn (if c = CHR ''s'' then
            bnd (zephyr_parse_integer_arg ''Address span'' optarg) (\<lambda>v.
            modify (\<lambda>s. s\<lparr>s_zephyr_addr_span := word_of_int v\<rparr>))
          else ret ())
         (zephyr_parse_args evs)"
| "zephyr_parse_args (ev # evs) = zephyr_parse_args evs"

definition zephyr_validate_args :: "('e, bool) zephyr" where
  "zephyr_validate_args = ret True"

section \<open>The scan of the device table\<close>

definition zephyr_dfl_base_addr_decoder :: "u64 \<Rightarrow> ('e, u64) zephyr" where
  "zephyr_dfl_base_addr_decoder base_addr =
     bnd (gets s_zephyr_dfl_addr) (\<lambda>d. ret (base_addr - d))"

text \<open>A device of type 1: a new entry at the end of the table; the index is a \<open>uint32_t\<close>.\<close>

definition zephyr_add_device :: "dev_info \<Rightarrow> ('e, unit) zephyr" where
  "zephyr_add_device d =
     bnd (gets s_zephyr_start_addr) (\<lambda>start.
     bnd common_fpga_interface_info_vec_size (\<lambda>n.
     let index = (of_nat n :: u32) in
     thn (common_fpga_interface_info_vec_resize (unat (index + 1)))
    (thn (vec_upd (unat index) (\<lambda>x. x\<lparr>base_address := dev_base_addr d + start\<rparr>))
    (thn (vec_upd (unat index) (\<lambda>x. x\<lparr>dfl := False\<rparr>))
    (thn (vec_upd (unat index) (\<lambda>x. x\<lparr>dev := dev_dev d\<rparr>))
    (thn (vec_upd (unat index) (\<lambda>x. x\<lparr>irq := dev_irq d\<rparr>))
    (thn (vec_upd (unat index) (\<lambda>x. x\<lparr>is_mmio_opened := False\<rparr>))
         (vec_upd (unat index) (\<lambda>x. x\<lparr>is_interrupt_opened := False\<rparr>)))))))))"

text \<open>The loop over the table: type 1 is a device, type 2 the ROM of a Device Feature List, of which
  a second one ends the loop with \<open>false\<close>.  The fuel bounds the walk of the list.\<close>

fun zephyr_scan_devices :: "nat \<Rightarrow> dev_info list \<Rightarrow> ('e, bool) zephyr" where
  "zephyr_scan_devices fuel [] = ret True"
| "zephyr_scan_devices fuel (d # ds) =
     (if dev_type d = 1 then thn (zephyr_add_device d) (zephyr_scan_devices fuel ds)
      else if dev_type d = 2 then
        bnd (gets s_zephyr_dfl_found) (\<lambda>found.
        if found then ret False
        else
          bnd (gets s_zephyr_start_addr) (\<lambda>start.
          thn (modify (\<lambda>s. s\<lparr>s_zephyr_dfl_addr := dev_base_addr d\<rparr>))
         (thn (modify (\<lambda>s. s\<lparr>s_zephyr_dfl_found := True\<rparr>))
         (thn (common_dfl_scan_multi_interfaces fuel (dev_base_addr d + start)
                 (\<lambda>b. b - dev_base_addr d))
              (zephyr_scan_devices fuel ds)))))
      else zephyr_scan_devices fuel ds)"

text \<open>The number of devices is kept in a \<open>uint8_t\<close>; \<open>printk\<close> writes to the console.\<close>

definition zephyr_scan_interfaces :: "nat \<Rightarrow> dev_info list \<Rightarrow> ('e, bool) zephyr" where
  "zephyr_scan_interfaces fuel table =
     (if (of_nat (length table) :: u8) > 0 then
        bnd (gets s_zephyr_single_component_mode) (\<lambda>single.
        if single \<noteq> 0 then
          bnd (gets s_zephyr_start_addr) (\<lambda>start.
          thn (common_fpga_interface_info_vec_resize 1)
         (thn (vec_upd 0 (\<lambda>x. x\<lparr>base_address := dev_base_addr (hd table) + start\<rparr>))
         (thn (vec_upd 0 (\<lambda>x. x\<lparr>dev := dev_dev (hd table)\<rparr>))
         (thn (vec_upd 0 (\<lambda>x. x\<lparr>irq := dev_irq (hd table)\<rparr>))
         (thn (vec_upd 0 (\<lambda>x. x\<lparr>is_mmio_opened := False\<rparr>))
         (thn (vec_upd 0 (\<lambda>x. x\<lparr>is_interrupt_opened := False\<rparr>))
         (thn (emit (Stdout_puts ''SINGLE COMPONENT MODE : Only 1 device can be used!\<newline>''))
              (ret True))))))))
        else zephyr_scan_devices fuel table)
      else ret False)"

section \<open>Initialisation and cleanup\<close>

definition fpga_zephyr_platform_init ::
    "nat \<Rightarrow> dev_info list \<Rightarrow> opt_event list \<Rightarrow> ('e, bool) zephyr" where
  "fpga_zephyr_platform_init fuel table options =
     thn (zephyr_parse_args options)
    (bnd zephyr_validate_args (\<lambda>is_args_valid.
     if is_args_valid then zephyr_scan_interfaces fuel table else ret False))"

definition fpga_zephyr_platform_cleanup :: "('e, unit) zephyr" where
  "fpga_zephyr_platform_cleanup =
     thn (modify (\<lambda>s. s\<lparr>s_zephyr_start_addr := 0, s_zephyr_addr_span := 0,
                       s_zephyr_single_component_mode := 0, s_zephyr_mmap_ptr := 0\<rparr>))
    (bnd common_fpga_interface_info_vec_size (\<lambda>n.
     thn (if n > 0 then common_fpga_interface_info_vec_resize 0 else ret ())
    (thn (modify (\<lambda>s. s\<lparr>errno := -1\<rparr>))
         (debug_line ''Completed fpga_platform_cleanup'' []))))"

section \<open>The interrupt API\<close>

text \<open>\<open>irq_connect_dynamic\<close>, \<open>irq_enable\<close> and \<open>irq_disable\<close> give no result that is looked at.\<close>

definition fpga_zephyr_register_isr :: "int \<Rightarrow> u64 \<Rightarrow> u64 \<Rightarrow> ('e, int) zephyr" where
  "fpga_zephyr_register_isr handle isr context =
     bnd common_fpga_interface_info_vec_size (\<lambda>n.
     if valid_handle handle n then
       bnd (common_fpga_interface_info_vec_at (size_t_of_int handle)) (\<lambda>x.
       if irq x > -1 \<and> isr \<noteq> 0 then
         thn (vec_upd (size_t_of_int handle) (\<lambda>x. x\<lparr>isr_callback := isr\<rparr>))
        (thn (vec_upd (size_t_of_int handle) (\<lambda>x. x\<lparr>isr_context := context\<rparr>))
        (thn (syscall_ignored (Irq_connect (irq x) isr context))
             (ret (if isr_callback x \<noteq> 0 then 1 else 0))))
       else ret (-1))
     else ret (-1))"

definition fpga_zephyr_enable_interrupt :: "int \<Rightarrow> ('e, int) zephyr" where
  "fpga_zephyr_enable_interrupt handle =
     bnd common_fpga_interface_info_vec_size (\<lambda>n.
     if valid_handle handle n then
       bnd (common_fpga_interface_info_vec_at (size_t_of_int handle)) (\<lambda>x.
       if \<not> interrupt_enable x \<and> irq x \<ge> 0 then
         thn (syscall_ignored (Irq_enable (irq x)))
        (thn (vec_upd (size_t_of_int handle) (\<lambda>x. x\<lparr>interrupt_enable := True\<rparr>))
             (ret 0))
       else ret (-1))
     else ret (-1))"

definition fpga_zephyr_disable_interrupt :: "int \<Rightarrow> ('e, int) zephyr" where
  "fpga_zephyr_disable_interrupt handle =
     bnd common_fpga_interface_info_vec_size (\<lambda>n.
     if valid_handle handle n then
       bnd (common_fpga_interface_info_vec_at (size_t_of_int handle)) (\<lambda>x.
       if interrupt_enable x \<and> irq x \<ge> 0 then
         thn (syscall_ignored (Irq_disable (irq x)))
        (thn (vec_upd (size_t_of_int handle) (\<lambda>x. x\<lparr>interrupt_enable := False\<rparr>))
             (ret 0))
       else ret (-1))
     else ret (-1))"

text \<open>The features the platform does not have; null is returned if the exception handler comes
  back.\<close>

definition fpga_zephyr_malloc :: "int \<Rightarrow> u32 \<Rightarrow> ('e, u64) zephyr" where
  "fpga_zephyr_malloc handle bytes =
     thn (fpga_throw_runtime_exception ''fpga_malloc''
            ''Current platform doesn't support such feature.'' []) (ret 0)"

definition fpga_zephyr_free :: "int \<Rightarrow> u64 \<Rightarrow> ('e, unit) zephyr" where
  "fpga_zephyr_free handle address =
     fpga_throw_runtime_exception ''fpga_free''
       ''Current platform doesn't support such feature.'' []"

definition fpga_zephyr_get_physical_address :: "u64 \<Rightarrow> ('e, u64) zephyr" where
  "fpga_zephyr_get_physical_address address =
     thn (fpga_throw_runtime_exception ''fpga_get_physical_address''
            ''Current platform doesn't support such feature.'' []) (ret 0)"

section \<open>Register access\<close>

definition fpga_zephyr_get_base_address :: "int \<Rightarrow> ('e, u64) zephyr" where
  "fpga_zephyr_get_base_address handle =
     bnd (common_fpga_interface_info_vec_at (size_t_of_int handle)) (\<lambda>x.
     zephyr_dfl_base_addr_decoder (base_address x))"

text \<open>The 32-bit access asks the syscon driver for an interface that does not come from a Device
  Feature List; the driver's error result is not looked at, and \<open>val\<close>, which has no initial value, is
  returned as it is when a read fails.\<close>

definition fpga_zephyr_read_32 :: "int \<Rightarrow> u32 \<Rightarrow> ('e, u32) zephyr" where
  "fpga_zephyr_read_32 handle offset =
     bnd (common_fpga_interface_info_vec_at (size_t_of_int handle)) (\<lambda>x.
     if dfl x then
       bnd (fpga_zephyr_get_base_address handle) (\<lambda>b. bus_read 4 (b + ucast offset))
     else
       bnd (gets (\<lambda>s. os_word (os s) (os_calls s) (Syscon_read (dev x) offset))) (\<lambda>val.
       bnd (syscall (Syscon_read (dev x) offset)) (\<lambda>r.
       if r < 0 then gets (\<lambda>s. ucast (env_junk_word (env s))) else ret val)))"

definition fpga_zephyr_write_32 :: "int \<Rightarrow> u32 \<Rightarrow> u32 \<Rightarrow> ('e, unit) zephyr" where
  "fpga_zephyr_write_32 handle offset val =
     bnd (common_fpga_interface_info_vec_at (size_t_of_int handle)) (\<lambda>x.
     if dfl x then
       bnd (fpga_zephyr_get_base_address handle) (\<lambda>b. bus_write 4 (b + ucast offset) val)
     else syscall_ignored (Syscon_write (dev x) offset val))"

text \<open>The 8- and 16-bit accesses go through the base address for every interface.\<close>

definition fpga_zephyr_read_8 :: "int \<Rightarrow> u32 \<Rightarrow> ('e, u8) zephyr" where
  "fpga_zephyr_read_8 handle offset = fpga_read_8 fpga_zephyr_get_base_address handle offset"

definition fpga_zephyr_write_8 :: "int \<Rightarrow> u32 \<Rightarrow> u8 \<Rightarrow> ('e, unit) zephyr" where
  "fpga_zephyr_write_8 handle offset val = fpga_write_8 fpga_zephyr_get_base_address handle offset val"

definition fpga_zephyr_read_16 :: "int \<Rightarrow> u32 \<Rightarrow> ('e, u16) zephyr" where
  "fpga_zephyr_read_16 handle offset = fpga_read_16 fpga_zephyr_get_base_address handle offset"

definition fpga_zephyr_write_16 :: "int \<Rightarrow> u32 \<Rightarrow> u16 \<Rightarrow> ('e, unit) zephyr" where
  "fpga_zephyr_write_16 handle offset val = fpga_write_16 fpga_zephyr_get_base_address handle offset val"

text \<open>The emulation of the 64-bit access is made of the 32-bit ones.\<close>

definition fpga_zephyr_read_64 :: "int \<Rightarrow> u32 \<Rightarrow> ('e, u64) zephyr" where
  "fpga_zephyr_read_64 handle offset =
     fpga_read_64 fpga_zephyr_get_base_address fpga_zephyr_read_32 handle offset"

definition fpga_zephyr_write_64 :: "int \<Rightarrow> u32 \<Rightarrow> u64 \<Rightarrow> ('e, unit) zephyr" where
  "fpga_zephyr_write_64 handle offset val =
     fpga_write_64 fpga_zephyr_get_base_address fpga_zephyr_write_32 handle offset val"

definition fpga_zephyr_read_512 :: "int \<Rightarrow> u32 \<Rightarrow> ('e, u8 list) zephyr" where
  "fpga_zephyr_read_512 handle offset = fpga_read_512 (fpga_zephyr_read_64 handle) offset"

definition fpga_zephyr_write_512 :: "int \<Rightarrow> u32 \<Rightarrow> u8 list \<Rightarrow> ('e, unit) zephyr" where
  "fpga_zephyr_write_512 handle offset val = fpga_write_512 (fpga_zephyr_write_64 handle) offset val"

lemmas zephyr_access =
  fpga_zephyr_read_8_def fpga_zephyr_write_8_def fpga_zephyr_read_16_def fpga_zephyr_write_16_def
  fpga_zephyr_read_64_def [abs_def] fpga_zephyr_write_64_def [abs_def]
  fpga_zephyr_read_512_def fpga_zephyr_write_512_def

end
