(* ===== verification/Zephyr_Init.thy ===== *)
theory Zephyr_Init
  imports Platform_Zephyr
begin

text \<open>
  The Zephyr platform against an abstract table: what the scan of a device table computes, for every
  table and every Device Feature List in it, the cleanup, and what survives it.  Last, when the
  register access of a Zephyr handle is that of a window.
\<close>

section \<open>The abstract table\<close>

text \<open>The entry of a device that does not come from a Device Feature List.\<close>

definition zephyr_entry :: "u64 \<Rightarrow> dev_info \<Rightarrow> FPGA_INTERFACE_INFO" where
  "zephyr_entry start d =
     zero_info\<lparr>base_address := dev_base_addr d + start, dev := dev_dev d, irq := dev_irq d\<rparr>"

text \<open>The result, the flag and the entries after the device table, from the flag and the entries
  before.  \<open>tree\<close> gives the Device Feature List at an address.\<close>

fun zephyr_table :: "(u64 \<Rightarrow> dfl_level) \<Rightarrow> u64 \<Rightarrow> dev_info list \<Rightarrow> bool \<Rightarrow> FPGA_INTERFACE_INFO list
    \<Rightarrow> bool \<times> bool \<times> FPGA_INTERFACE_INFO list" where
  "zephyr_table tree start [] found v = (True, found, v)"
| "zephyr_table tree start (d # ds) found v =
     (if dev_type d = 1 then zephyr_table tree start ds found (v @ [zephyr_entry start d])
      else if dev_type d = 2 then
        (if found then (False, found, v)
         else zephyr_table tree start ds True
                (rows (dev_base_addr d + start) (tree (dev_base_addr d + start))))
      else zephyr_table tree start ds found v)"

text \<open>Every ROM of the table holds the list that \<open>tree\<close> says.\<close>

definition zephyr_roms :: "(u64 \<Rightarrow> u64 option) \<Rightarrow> nat \<Rightarrow> (u64 \<Rightarrow> dfl_level) \<Rightarrow> u64 \<Rightarrow> dev_info list \<Rightarrow> bool" where
  "zephyr_roms V fuel tree start ds \<longleftrightarrow>
     (\<forall>d \<in> set ds. dev_type d = 2 \<longrightarrow>
        (let a = dev_base_addr d + start in
         dfl_at V a (tree a) \<and> tree_fits (tree a) \<and> fuel_level (tree a) \<le> fuel))"

section \<open>One device\<close>

lemma zephyr_more:
  fixes s t :: "'e zephyr_state_scheme"
  assumes "cmn_state.more t = cmn_state.more s"
  shows "os_calls t = os_calls s" and "s_zephyr_dfl_found t = s_zephyr_dfl_found s"
    and "s_zephyr_start_addr t = s_zephyr_start_addr s" and "s_zephyr_dfl_addr t = s_zephyr_dfl_addr s"
    and "s_zephyr_single_component_mode t = s_zephyr_single_component_mode s" and "os t = os s"
  using assms by (cases s; cases t; simp)+

lemma entry_self:
  "zero_info\<lparr>base_address := b, dfl := False, dev := dv, irq := q, is_mmio_opened := False,
     is_interrupt_opened := False\<rparr> = zero_info\<lparr>base_address := b, dev := dv, irq := q\<rparr>"
  by (simp add: zero_info_def)

text \<open>Writing the last entry of a table that was grown by one.\<close>

lemma wp_append_entry:
  fixes s :: "'e cmn_state_scheme"
  assumes inv: "vec_inv s" and ok: "allocs_ok s"
    and keep: "\<And>x. parameters (f x) = parameters x" "\<And>x. num_of_parameters (f x) = num_of_parameters x"
  shows "wp (thn (common_fpga_interface_info_vec_resize (Suc (vec_size s))) (vec_upd (vec_size s) f))
    (\<lambda>_ t. vec_inv t \<and> vec_abs t = vec_abs s @ [f zero_info]
       \<and> live t - vec_blocks t = live s - vec_blocks s \<and> same_rest s t
       \<and> dfh_parent_stack t = dfh_parent_stack s) s"
proof -
  let ?n = "vec_size s" and ?r = "resized (Suc (vec_size s)) s"
  have len: "length (vec_abs s) = ?n" using inv by (rule length_vec_abs)
  have r: "vec_inv ?r" "?n < vec_size ?r" "vec_abs ?r = vec_abs s @ [zero_info]"
    using resized_inv [OF inv] by (simp_all add: resized_abs [OF inv] list_resize_def len)
  have "wp (vec_upd ?n f) (\<lambda>_ t. vec_inv t \<and> vec_abs t = (vec_abs ?r)[?n := f (vec_abs ?r ! ?n)]
      \<and> vec_size t = vec_size ?r \<and> vec_blocks t = vec_blocks ?r
      \<and> t = ?r\<lparr>g_common_fpga_interface_info_vec := vec t\<rparr>) ?r"
    by (rule vec_upd_abs [OF r(1,2) keep])
  moreover have last: "(vec_abs s @ [zero_info])[?n := f ((vec_abs s @ [zero_info]) ! ?n)]
      = vec_abs s @ [f zero_info]"
    by (simp add: len [symmetric])
  ultimately show ?thesis
    unfolding wp_thn wp_resize_ok [OF inv ok]
  proof (elim wp_mono)
    fix t
    assume t: "vec_inv t \<and> vec_abs t = (vec_abs ?r)[?n := f (vec_abs ?r ! ?n)]
      \<and> vec_size t = vec_size ?r \<and> vec_blocks t = vec_blocks ?r
      \<and> t = ?r\<lparr>g_common_fpga_interface_info_vec := vec t\<rparr>"
    define v where "v = vec t"
    have tv: "t = ?r\<lparr>g_common_fpga_interface_info_vec := v\<rparr>" using t by (simp add: v_def)
    have abs: "vec_abs t = vec_abs s @ [f zero_info]"
      using t last unfolding r(3) by simp
    have "live t = live ?r" "same_rest s t" "dfh_parent_stack t = dfh_parent_stack s"
      unfolding tv by (simp_all add: same_rest_def resized_def)
    with t abs resized_live [OF inv, of "Suc ?n"] show "vec_inv t
       \<and> vec_abs t = vec_abs s @ [f zero_info]
       \<and> live t - vec_blocks t = live s - vec_blocks s \<and> same_rest s t
       \<and> dfh_parent_stack t = dfh_parent_stack s" by simp
  qed
qed

text \<open>Several writes to one entry are one write.\<close>

lemma wp_vec_upd_upd:
  "wp (thn (vec_upd i f) (vec_upd i g)) Q = wp (vec_upd i (\<lambda>x. g (f x))) Q"
  "wp (thn (vec_upd i f) (thn (vec_upd i g) k)) Q = wp (thn (vec_upd i (\<lambda>x. g (f x))) k) Q"
  by (auto simp: fun_eq_iff wp_thn wp_vec_upd)

lemma wp_add_device:
  assumes ready: "scan_ready s" and n: "Suc (vec_size s) < 2 ^ 32"
  shows "wp (zephyr_add_device d) (\<lambda>_ t. scan_ready t
      \<and> vec_abs t = vec_abs s @ [zephyr_entry (s_zephyr_start_addr s) d]
      \<and> live t - vec_blocks t = live s - vec_blocks s \<and> same_rest s t) s"
proof -
  have inv: "vec_inv s" and ok: "allocs_ok s" and st: "dfh_parent_stack s = zero_stack"
    using ready by (simp_all add: scan_ready_def)
  let ?f = "\<lambda>x. x\<lparr>base_address := dev_base_addr d + s_zephyr_start_addr s, dfl := False,
      dev := dev_dev d, irq := dev_irq d, is_mmio_opened := False, is_interrupt_opened := False\<rparr>"
  have idx: "unat (of_nat (vec_size s) :: u32) = vec_size s"
    "unat (of_nat (vec_size s) + 1 :: u32) = Suc (vec_size s)"
    using n by (simp_all add: unat_of_nat unat_word_ariths mod_Suc)
  have "wp (thn (common_fpga_interface_info_vec_resize (Suc (vec_size s))) (vec_upd (vec_size s) ?f))
    (\<lambda>_ t. vec_inv t \<and> vec_abs t = vec_abs s @ [?f zero_info]
       \<and> live t - vec_blocks t = live s - vec_blocks s \<and> same_rest s t
       \<and> dfh_parent_stack t = dfh_parent_stack s) s"
    by (rule wp_append_entry [OF inv ok]) simp_all
  moreover have "wp (zephyr_add_device d) Q s = wp (thn
      (common_fpga_interface_info_vec_resize (Suc (vec_size s))) (vec_upd (vec_size s) ?f)) Q s" for Q
    by (simp add: zephyr_add_device_def wp_bnd wp_gets wp_vec_size Let_def idx wp_vec_upd_upd
        wp_thn [of "common_fpga_interface_info_vec_resize n" for n])
  ultimately show ?thesis
    using ok by (auto simp: st scan_ready_def entry_self zephyr_entry_def same_rest_def allocs_ok_def
        elim!: wp_mono)
qed

section \<open>The device table\<close>

lemma zephyr_roms_Cons:
  "zephyr_roms V fuel tree start (d # ds) \<longleftrightarrow>
     (dev_type d = 2 \<longrightarrow> (let a = dev_base_addr d + start in
         dfl_at V a (tree a) \<and> tree_fits (tree a) \<and> fuel_level (tree a) \<le> fuel))
     \<and> zephyr_roms V fuel tree start ds"
  by (auto simp: zephyr_roms_def Let_def)

lemma same_rest_view: "same_rest s t \<Longrightarrow> dfl_view t = dfl_view s"
  by (rule dfl_view_cong) (simp_all add: same_rest_def)

lemma scanned_ready: "scan_ready s \<Longrightarrow> scanned a x s t \<Longrightarrow> scan_ready t"
  by (simp add: scan_ready_def scanned_def same_rest_def allocs_ok_def)

text \<open>What a scan of the device table leaves besides the table, the flag and the address of the list.\<close>

definition kept_rest :: "'e zephyr_state_scheme \<Rightarrow> 'e zephyr_state_scheme \<Rightarrow> bool" where
  "kept_rest s t \<longleftrightarrow> os_calls t = os_calls s \<and> mem t = mem s \<and> can_print t = can_print s
     \<and> os t = os s \<and> env t = env s"

lemma kept_same_rest: "same_rest s t \<Longrightarrow> kept_rest s t"
  using zephyr_more(1,6) [of t s] by (simp add: kept_rest_def same_rest_def can_print_def)

text \<open>The address that the decoder takes off: the one of the first ROM, when none was found before.\<close>

definition rom_address :: "dev_info list \<Rightarrow> bool \<Rightarrow> u64 \<Rightarrow> u64" where
  "rom_address ds found a =
     (if found then a
      else case find (\<lambda>d. dev_type d = 2) ds of None \<Rightarrow> a | Some d \<Rightarrow> dev_base_addr d)"

lemma rom_address_simps [simp]:
  "rom_address [] found a = a" "rom_address ds True a = a"
  "rom_address (d # ds) False a = (if dev_type d = 2 then dev_base_addr d else rom_address ds False a)"
  by (simp_all add: rom_address_def)

lemma rom_address_other: "dev_type d \<noteq> 2 \<Longrightarrow> rom_address (d # ds) found a = rom_address ds found a"
  by (simp add: rom_address_def)

text \<open>What the loop over the devices \<open>ds\<close> does with the state.\<close>

definition devices_done ::
    "(u64 \<Rightarrow> dfl_level) \<Rightarrow> dev_info list \<Rightarrow> 'e zephyr_state_scheme \<Rightarrow> bool \<Rightarrow> 'e zephyr_state_scheme \<Rightarrow> bool" where
  "devices_done tree ds s r t \<longleftrightarrow> scan_ready t
     \<and> zephyr_table tree (s_zephyr_start_addr s) ds (s_zephyr_dfl_found s) (vec_abs s)
         = (r, s_zephyr_dfl_found t, vec_abs t)
     \<and> live t - vec_blocks t = live s - vec_blocks s \<and> kept_rest s t
     \<and> s_zephyr_dfl_addr t = rom_address ds (s_zephyr_dfl_found s) (s_zephyr_dfl_addr s)"

text \<open>The first two types of device; the rest of the loop starts in the state that they leave.\<close>

lemma wp_first_device:
  fixes s :: "'e zephyr_state_scheme"
  assumes "dev_type d = 1" and ready: "scan_ready s" and n: "Suc (vec_size s) < 2 ^ 32"
    and rest: "\<And>t :: 'e zephyr_state_scheme. scan_ready t \<Longrightarrow> vec_size t = Suc (vec_size s) \<Longrightarrow> dfl_view t = dfl_view s \<Longrightarrow>
      s_zephyr_start_addr t = s_zephyr_start_addr s \<Longrightarrow>
      wp (zephyr_scan_devices fuel ds) (devices_done tree ds t) t"
  shows "wp (zephyr_scan_devices fuel (d # ds)) (devices_done tree (d # ds) s) s"
  unfolding zephyr_scan_devices.simps if_P [OF assms(1)]
proof (rule wp_thn_then [OF wp_add_device [OF ready n]])
  fix t
  assume t: "scan_ready t \<and> vec_abs t = vec_abs s @ [zephyr_entry (s_zephyr_start_addr s) d]
    \<and> live t - vec_blocks t = live s - vec_blocks s \<and> same_rest s t"
  then have sz: "vec_size t = Suc (vec_size s)"
    using ready length_vec_abs [of t] length_vec_abs [of s] by (simp add: scan_ready_def)
  have more: "cmn_state.more t = cmn_state.more s" using t by (simp add: same_rest_def)
  have view: "dfl_view t = dfl_view s" using t same_rest_view by blast
  show "wp (zephyr_scan_devices fuel ds) (devices_done tree (d # ds) s) t"
    by (rule wp_mono [OF rest]) (use t sz view assms(1) zephyr_more [OF more] kept_same_rest [of s t] in
      \<open>simp_all add: devices_done_def kept_rest_def rom_address_other\<close>)
qed

lemma wp_first_rom:
  fixes s :: "'e zephyr_state_scheme"
  assumes rom: "dev_type d = 2" "\<not> s_zephyr_dfl_found s" and ready: "scan_ready s"
    and a: "a = dev_base_addr d + s_zephyr_start_addr s"
    and x: "dfl_at (dfl_view s) a (tree a)" "tree_fits (tree a)" "fuel_level (tree a) \<le> fuel"
    and rest: "\<And>t :: 'e zephyr_state_scheme. scan_ready t \<Longrightarrow> vec_size t = size_level (tree a) \<Longrightarrow>
      dfl_view t = dfl_view s \<Longrightarrow> s_zephyr_start_addr t = s_zephyr_start_addr s \<Longrightarrow>
      wp (zephyr_scan_devices fuel ds) (devices_done tree ds t) t"
  shows "wp (zephyr_scan_devices fuel (d # ds)) (devices_done tree (d # ds) s) s"
proof -
  define s1 where "s1 = s\<lparr>s_zephyr_dfl_addr := dev_base_addr d, s_zephyr_dfl_found := True\<rparr>"
  have v: "vec s1 = vec s" "vec_size s1 = vec_size s" "vec_reserved s1 = vec_reserved s"
    "env s1 = env s" "mem s1 = mem s" "dfh_parent_stack s1 = dfh_parent_stack s" "live s1 = live s"
    by (simp_all add: s1_def)
  have kept: "kept_rest s s1" "s_zephyr_start_addr s1 = s_zephyr_start_addr s" "s_zephyr_dfl_found s1"
    "s_zephyr_dfl_addr s1 = dev_base_addr d"
    by (simp_all add: s1_def kept_rest_def can_print_def)
  have ready1: "scan_ready s1" and bl: "vec_blocks s1 = vec_blocks s" and view: "dfl_view s1 = dfl_view s"
    using ready v vec_cong [of s1 s] dfl_view_cong [of s1 s]
    by (simp_all add: scan_ready_def allocs_ok_def)
  have "wp (thn (common_dfl_scan_multi_interfaces fuel a (\<lambda>b. b - dev_base_addr d))
      (zephyr_scan_devices fuel ds)) (devices_done tree (d # ds) s) s1"
  proof (rule wp_thn_then [OF wp_scan [OF ready1 _ x(2,3)]])
    fix t
    assume t: "scanned a (tree a) s1 t"
    then have more: "cmn_state.more t = cmn_state.more s1" and abs: "vec_abs t = rows a (tree a)"
      and lt: "live t - vec_blocks t = live s1 - vec_blocks s1" and same: "same_rest s1 t"
      by (auto simp: scanned_def same_rest_def)
    have rt: "scan_ready t" by (rule scanned_ready [OF ready1 t])
    then have sz: "vec_size t = size_level (tree a)"
      using length_vec_abs [of t] abs by (simp add: scan_ready_def rows_def length_rows)
    have "dfl_view t = dfl_view s" using same_rest_view [OF same] view by simp
    then show "wp (zephyr_scan_devices fuel ds) (devices_done tree (d # ds) s) t"
      by (intro wp_mono [OF rest]) (use rt sz zephyr_more [OF more] kept kept_same_rest [OF same]
        v(7) bl lt abs a rom in \<open>simp_all add: devices_done_def kept_rest_def\<close>)
  qed (use x(1) view in simp)
  with rom a show ?thesis by (simp add: wp_bnd wp_gets wp_thn wp_modify s1_def)
qed

lemma wp_scan_devices:
  assumes "scan_ready s" and "zephyr_roms (dfl_view s) fuel tree (s_zephyr_start_addr s) ds"
    and "vec_size s + length ds < 2 ^ 32" and "length ds < 2 ^ 31"
  shows "wp (zephyr_scan_devices fuel ds) (devices_done tree ds s) s"
  using assms
proof (induction ds arbitrary: s)
  case Nil
  then show ?case by (simp add: wp_ret devices_done_def kept_rest_def)
next
  case (Cons d ds)
  have roms: "zephyr_roms (dfl_view s) fuel tree (s_zephyr_start_addr s) ds"
    using Cons.prems(2) by (simp add: zephyr_roms_Cons)
  consider (dev) "dev_type d = 1" | (rom) "dev_type d = 2" "\<not> s_zephyr_dfl_found s"
    | (again) "dev_type d = 2" "s_zephyr_dfl_found s" | (other) "dev_type d \<noteq> 1" "dev_type d \<noteq> 2"
    by blast
  then show ?case
  proof cases
    case dev
    then show ?thesis
      by (rule wp_first_device [OF _ Cons.prems(1)]) (use Cons roms in simp_all)
  next
    case rom
    let ?a = "dev_base_addr d + s_zephyr_start_addr s"
    have x: "dfl_at (dfl_view s) ?a (tree ?a)" "tree_fits (tree ?a)" "fuel_level (tree ?a) \<le> fuel"
      using rom(1) Cons.prems(2) by (simp_all add: zephyr_roms_Cons Let_def)
    show ?thesis
      by (rule wp_first_rom [OF rom Cons.prems(1) refl, of tree fuel])
        (use Cons.IH Cons.prems roms x in \<open>simp_all add: tree_fits_def\<close>)
  next
    case again
    with Cons.prems show ?thesis by (simp add: wp_bnd wp_gets wp_ret devices_done_def kept_rest_def)
  next
    case other
    with Cons.IH [of s] Cons.prems roms show ?thesis by (simp add: devices_done_def rom_address_other)
  qed
qed

section \<open>Initialisation and cleanup\<close>

text \<open>The options of the platform change nothing but the span.\<close>

lemma wp_zephyr_init_done:
  assumes p: "zephyr_parse_args options s = Ret () s1" and ready: "scan_ready s1"
    and roms: "zephyr_roms (dfl_view s1) fuel tree (s_zephyr_start_addr s1) table"
    and n: "0 < length table" "length table < 256" "vec_size s1 = 0"
    and mode: "s_zephyr_single_component_mode s1 = 0"
  shows "wp (fpga_zephyr_platform_init fuel table options) (devices_done tree table s1) s" and "vec_abs s1 = []"
proof -
  have parse: "wp (zephyr_parse_args options) R s = R () s1" for R by (simp add: wp_def p)
  have "unat (of_nat (length table) :: u8) = length table" using n(2) by (simp add: unat_of_nat)
  then have pos: "0 < (of_nat (length table) :: u8)" using n(1) by (simp add: word_less_nat_alt)
  show "vec_abs s1 = []" using ready n(3) length_vec_abs [of s1] by (simp add: scan_ready_def)
  from wp_scan_devices [OF ready roms] n mode pos
  show "wp (fpga_zephyr_platform_init fuel table options) (devices_done tree table s1) s"
    by (simp add: fpga_zephyr_platform_init_def zephyr_validate_args_def zephyr_scan_interfaces_def
        wp_thn parse wp_bnd wp_ret wp_gets)
qed

lemma wp_zephyr_init:
  assumes "zephyr_parse_args options s = Ret () s1" and "scan_ready s1"
    and "zephyr_roms (dfl_view s1) fuel tree (s_zephyr_start_addr s1) table"
    and "0 < length table" and "length table < 256" and "vec_size s1 = 0"
    and "s_zephyr_single_component_mode s1 = 0"
  shows "wp (fpga_zephyr_platform_init fuel table options) (\<lambda>r t. scan_ready t
      \<and> zephyr_table tree (s_zephyr_start_addr s1) table (s_zephyr_dfl_found s1) []
          = (r, s_zephyr_dfl_found t, vec_abs t)
      \<and> live t - vec_blocks t = live s1 - vec_blocks s1 \<and> kept_rest s1 t) s"
  by (rule wp_mono [OF wp_zephyr_init_done(1) [OF assms]])
    (use wp_zephyr_init_done(2) [OF assms] in \<open>simp add: devices_done_def\<close>)

lemma wp_zephyr_cleanup:
  fixes s :: "'e zephyr_state_scheme"
  assumes pr: "can_print s" and tight: "table_tight s"
  shows "wp fpga_zephyr_platform_cleanup (\<lambda>_ t. vec t = None \<and> vec_size t = 0
      \<and> live t = live s - vec_blocks s \<and> os_calls t = os_calls s
      \<and> s_zephyr_dfl_found t = s_zephyr_dfl_found s \<and> s_zephyr_dfl_addr t = s_zephyr_dfl_addr s
      \<and> s_zephyr_single_component_mode t = 0 \<and> s_zephyr_start_addr t = 0 \<and> errno t = -1
      \<and> env t = env s \<and> mem t = mem s \<and> dfh_parent_stack t = dfh_parent_stack s
      \<and> vec_inv t) s"
proof -
  define s1 where "s1 = s\<lparr>s_zephyr_start_addr := 0, s_zephyr_addr_span := 0,
      s_zephyr_single_component_mode := 0, s_zephyr_mmap_ptr := 0\<rparr>"
  have v: "vec s1 = vec s" "vec_size s1 = vec_size s" "vec_reserved s1 = vec_reserved s"
    "can_print s1" "live s1 = live s" using pr by (simp_all add: s1_def can_print_def)
  have inv: "table_tight s1" and bl: "vec_blocks s1 = vec_blocks s"
    using tight v vec_cong [of s1 s] by (simp_all add: table_tight_def)
  have step: "wp fpga_zephyr_platform_cleanup Q s = wp (thn release_table
      (thn (modify (\<lambda>s. s\<lparr>errno := -1\<rparr>)) (debug_line ''Completed fpga_platform_cleanup'' []))) Q s1"
    for Q
    by (simp add: fpga_zephyr_platform_cleanup_def release_table_def wp_bnd wp_thn wp_modify
        wp_vec_size s1_def)
  show ?thesis
    unfolding step wp_thn [of release_table]
  proof (rule wp_mono [OF wp_release_table [OF inv]])
    fix t
    assume t: "vec t = None \<and> vec_size t = 0 \<and> vec_inv t \<and> live t = live s1 - vec_blocks s1
      \<and> (\<exists>v n r l. t = s1\<lparr>g_common_fpga_interface_info_vec := v,
              g_common_fpga_interface_info_vec_size := n,
              g_common_fpga_interface_info_vec_reserved := r, live := l\<rparr>)"
    then have "can_print t" "cmn_state.more t = cmn_state.more s1"
      "env t = env s" "mem t = mem s" "dfh_parent_stack t = dfh_parent_stack s"
      using v(4) by (auto simp: can_print_def s1_def)
    moreover from t have "vec t = None" and "vec_inv t" by simp_all
    then have "vec_reserved t = 0" by (simp add: vec_inv_def)
    ultimately show "wp (thn (modify (\<lambda>s. s\<lparr>errno := -1\<rparr>))
        (debug_line ''Completed fpga_platform_cleanup'' [])) (\<lambda>_ t. vec t = None \<and> vec_size t = 0
      \<and> live t = live s - vec_blocks s \<and> os_calls t = os_calls s
      \<and> s_zephyr_dfl_found t = s_zephyr_dfl_found s \<and> s_zephyr_dfl_addr t = s_zephyr_dfl_addr s
      \<and> s_zephyr_single_component_mode t = 0 \<and> s_zephyr_start_addr t = 0 \<and> errno t = -1
      \<and> env t = env s \<and> mem t = mem s \<and> dfh_parent_stack t = dfh_parent_stack s
      \<and> vec_inv t) t"
      using t zephyr_more [of t s1] by (simp add: wp_rules v bl vec_inv_def) (simp add: s1_def)
  qed
qed

section \<open>Register access\<close>

text \<open>A handle of an entry that comes from a Device Feature List opens a window, at the base address
  less the address of the ROM.\<close>

definition zephyr_window :: "int \<Rightarrow> u64 \<Rightarrow> u32 \<Rightarrow> 'e zephyr_state_scheme \<Rightarrow> bool" where
  "zephyr_window h b l s \<longleftrightarrow>
     window fpga_zephyr_get_base_address h b l s
     \<and> has_info s (size_t_of_int h) \<and> dfl (info_at s (size_t_of_int h))"

lemma zephyr_window_cong:
  "zephyr_window h b l s \<Longrightarrow> register_space m b (unat l) \<Longrightarrow> zephyr_window h b l (s\<lparr>mem := m, bus := ev\<rparr>)"
  using window_update [of fpga_zephyr_get_base_address h b l s m ev]
  by (simp add: zephyr_window_def has_info_def info_at_def)

lemma zephyr_32:
  assumes "zephyr_window h b l s"
  shows "fpga_zephyr_read_32 h a s = fpga_read_32 fpga_zephyr_get_base_address h a s"
    and "fpga_zephyr_write_32 h a v s = fpga_write_32 fpga_zephyr_get_base_address h a v s"
  using assms
  by (simp_all add: zephyr_window_def fpga_zephyr_read_32_def fpga_read_32_def
      fpga_zephyr_write_32_def fpga_write_32_def run_rules)

lemma zephyr_64:
  assumes w: "zephyr_window h b l s" and a: "unat a + 8 \<le> unat l" and d: "8 dvd unat a"
  shows "fpga_write_64 fpga_zephyr_get_base_address fpga_zephyr_write_32 h a v s
      = fpga_write_64 fpga_zephyr_get_base_address
          (fpga_write_32 fpga_zephyr_get_base_address) h a v s"
    and "fpga_read_64 fpga_zephyr_get_base_address fpga_zephyr_read_32 h a s
      = fpga_read_64 fpga_zephyr_get_base_address
          (fpga_read_32 fpga_zephyr_get_base_address) h a s"
proof -
  have win: "window fpga_zephyr_get_base_address h b l s" using w by (simp add: zephyr_window_def)
  have a4: "unat a + 4 \<le> unat l" using a by simp
  have d4: "4 dvd unat a" by (rule dvd_trans [OF _ d]) simp
  have map: "register_space (mem s) b (unat l)" using win by (simp add: window_def)
  have s1: "zephyr_window h b l (s\<lparr>mem := store_bytes (mem s) x bs, bus := ev\<rparr>)" for x bs ev
    by (rule zephyr_window_cong [OF w register_space_store [OF map]])
  have s2: "zephyr_window h b l (s\<lparr>bus := ev\<rparr>)" for ev
    using zephyr_window_cong [OF w map, of ev] by simp
  show "fpga_write_64 fpga_zephyr_get_base_address fpga_zephyr_write_32 h a v s
      = fpga_write_64 fpga_zephyr_get_base_address
          (fpga_write_32 fpga_zephyr_get_base_address) h a v s"
    by (simp add: fpga_write_64_def run_rules zephyr_32 [OF w] run_write_32 [OF win a4 d4]
        zephyr_32 [OF s1])
  show "fpga_read_64 fpga_zephyr_get_base_address fpga_zephyr_read_32 h a s
      = fpga_read_64 fpga_zephyr_get_base_address
          (fpga_read_32 fpga_zephyr_get_base_address) h a s"
    by (simp add: fpga_read_64_def run_rules zephyr_32 [OF w] run_read_32 [OF win a4 d4]
        zephyr_32 [OF s2])
qed

lemma zephyr_port_write:
  assumes w: "zephyr_window h b l s" and a: "unat a + 8 \<le> unat l" and d: "8 dvd unat a"
  shows "wp (fpga_write_64 fpga_zephyr_get_base_address fpga_zephyr_write_32 h a v) (\<lambda>_ t.
      zephyr_window h b l t \<and> port_word b t a = v
      \<and> (\<forall>c. unat c + 8 \<le> unat l \<longrightarrow> unat c + 8 \<le> unat a \<or> unat a + 8 \<le> unat c
             \<longrightarrow> port_word b t c = port_word b s c)) s"
proof -
  have win: "window fpga_zephyr_get_base_address h b l s" using w by (simp add: zephyr_window_def)
  have map: "register_space (mem s) b (unat l)" using win by (simp add: window_def)
  have "zephyr_window h b l (s\<lparr>mem := store_bytes (mem s) x bs, bus := ev\<rparr>)" for x bs ev
    by (rule zephyr_window_cong [OF w register_space_store [OF map]])
  with port_write [OF win a d, of v] show ?thesis
    by (simp add: wp_def zephyr_64 [OF w a d] run_write_64 [OF win a d])
qed

lemma zephyr_port_read:
  assumes w: "zephyr_window h b l s" and a: "unat a + 8 \<le> unat l" and d: "8 dvd unat a"
  shows "wp (fpga_read_64 fpga_zephyr_get_base_address fpga_zephyr_read_32 h a) (\<lambda>x t.
      zephyr_window h b l t \<and> x = port_word b s a \<and> (\<forall>c. port_word b t c = port_word b s c)) s"
proof -
  have win: "window fpga_zephyr_get_base_address h b l s" using w by (simp add: zephyr_window_def)
  have map: "register_space (mem s) b (unat l)" using win by (simp add: window_def)
  have "zephyr_window h b l (s\<lparr>bus := ev\<rparr>)" for ev
    using zephyr_window_cong [OF w map, of ev] by simp
  with port_read [OF win a d] show ?thesis
    by (simp add: wp_def zephyr_64 [OF w a d] run_read_64 [OF win a d])
qed

interpretation zephyr_port: word_port
  "fpga_read_64 fpga_zephyr_get_base_address fpga_zephyr_read_32 h"
  "fpga_write_64 fpga_zephyr_get_base_address fpga_zephyr_write_32 h"
  "zephyr_window h b l" "port_word b" "unat l"
  for h b l
  by unfold_locales (use zephyr_port_write zephyr_port_read unat_u32 [of l] in \<open>blast | simp\<close>)+

end
