(* ===== verification/Demo_Platforms.thy ===== *)
theory Demo_Platforms
  imports Demo Devmem_Init Zephyr_Init
begin

text \<open>
  Concrete processes of the three platforms, on which the properties of the register access, of
  initialisation and of cleanup are evaluated.
\<close>

section \<open>A process with one open register file\<close>

text \<open>Every byte of memory is mapped and reads as zero; the table has one entry, at 0x1000.\<close>

definition register_process :: "read_mode \<Rightarrow> uio_state" where
  "register_process mode = (uio_process (\<lambda>a. 0) demo_os)
     \<lparr>env := (demo_env (\<lambda>a. 0))\<lparr>env_read_mode := mode\<rparr>, mem := (\<lambda>a. Some 0),
      g_common_fpga_interface_info_vec := Some [single_entry 0x1000],
      g_common_fpga_interface_info_vec_size := 1, g_common_fpga_interface_info_vec_reserved := 1\<rparr>"

lemma register_process_simps [simp]:
  "mem (register_process mode) = (\<lambda>a. Some 0)" "vec (register_process mode) = Some [single_entry 0x1000]"
  "vec_size (register_process mode) = 1" "vec_reserved (register_process mode) = 1"
  "bus (register_process mode) = []" "env_read_mode (env (register_process mode)) = mode"
  by (simp_all add: register_process_def uio_process_def)

lemma mapped_all: "mapped (\<lambda>a. Some 0) b n"
  by (simp add: mapped_def)

lemma register_space_all: "register_space (\<lambda>a. Some 0) b n \<longleftrightarrow> 8 dvd unat b"
  by (simp add: register_space_def aligned_def mapped_all)

lemma register_window: "has_info (register_process mode) 0"
  "base_address (info_at (register_process mode) 0) = 0x1000"
  by (simp_all add: has_info_def info_at_def single_entry_def)

section \<open>A process of the devmem platform\<close>

definition devmem_process :: "(u64 \<Rightarrow> u32) \<Rightarrow> os_env \<Rightarrow> devmem_state" where
  "devmem_process rd osys =
     \<lparr>env = demo_env rd, mem = (\<lambda>a. None), out = [],
      g_common_fpga_platform_printf = Default_printf,
      g_common_fpga_platform_runtime_exception_handler = Default_handler,
      g_common_show_dbg_msg = 0, live = 0, alloc_no = 0,
      g_common_fpga_interface_info_vec = None, g_common_fpga_interface_info_vec_size = 0,
      g_common_fpga_interface_info_vec_reserved = 0, dfh_parent_stack = zero_stack,
      s_scanned_interface_count = 0, s_interface_index = 0, bus = [], os = osys, os_calls = [],
      errno = 0, s_devmem_drv_path = ''/dev/mem'', s_devmem_addr_span = 0,
      s_devmem_dfl_entry_addr = 0, s_devmem_single_component_mode = 1, s_devmem_start_addr = 0,
      s_devmem_drv_handle = -1, s_devmem_mmap_ptr = 0\<rparr>"

lemma devmem_process_static: "devmem_static (devmem_process rd osys)"
  by (simp add: devmem_static_def devmem_process_def)

section \<open>A process of the Zephyr platform\<close>

definition zephyr_process :: "(u64 \<Rightarrow> u32) \<Rightarrow> zephyr_state" where
  "zephyr_process rd =
     \<lparr>env = demo_env rd, mem = (\<lambda>a. Some 0), out = [],
      g_common_fpga_platform_printf = Default_printf,
      g_common_fpga_platform_runtime_exception_handler = Default_handler,
      g_common_show_dbg_msg = 0, live = 0, alloc_no = 0,
      g_common_fpga_interface_info_vec = None, g_common_fpga_interface_info_vec_size = 0,
      g_common_fpga_interface_info_vec_reserved = 0, dfh_parent_stack = zero_stack,
      s_scanned_interface_count = 0, s_interface_index = 0, bus = [], os = demo_os, os_calls = [],
      errno = 0, s_zephyr_addr_span = 0, s_zephyr_single_component_mode = 0, s_zephyr_start_addr = 0,
      s_zephyr_mmap_ptr = 0, s_zephyr_dfl_addr = 0, s_zephyr_dfl_found = False\<rparr>"

lemma zephyr_process_static: "zephyr_static (zephyr_process rd)"
  by (simp add: zephyr_static_def zephyr_process_def)

lemma zephyr_process_simps [simp]:
  "env (zephyr_process rd) = demo_env rd" "vec (zephyr_process rd) = None"
  "vec_size (zephyr_process rd) = 0" "vec_reserved (zephyr_process rd) = 0"
  "dfh_parent_stack (zephyr_process rd) = zero_stack" "mem (zephyr_process rd) = (\<lambda>a. Some 0)"
  "s_zephyr_dfl_found (zephyr_process rd) = False" "s_zephyr_start_addr (zephyr_process rd) = 0"
  "s_zephyr_single_component_mode (zephyr_process rd) = 0" "live (zephyr_process rd) = 0"
  "os_calls (zephyr_process rd) = []"
  by (simp_all add: zephyr_process_def)

lemma zephyr_process_ready: "scan_ready (zephyr_process rd)" "vec_abs (zephyr_process rd) = []"
  "vec_blocks (zephyr_process rd) = 0" "can_print (zephyr_process rd)"
  by (simp_all add: scan_ready_def allocs_ok_def vec_inv_def vec_abs_def vec_blocks_def can_print_def
      zephyr_process_def)

text \<open>A table of the device tree: a ROM, and a device at 0x9000 with interrupt 5.\<close>

definition demo_devices :: "dev_info list" where
  "demo_devices =
     [\<lparr>dev_dev = 1, dev_base_addr = 0x1000, dev_size = 0x1000, dev_irq = -1, dev_type = 2\<rparr>,
      \<lparr>dev_dev = 2, dev_base_addr = 0x9000, dev_size = 0x100, dev_irq = 5, dev_type = 1\<rparr>]"

text \<open>After a start: the entries of the list and of the device.\<close>

definition zephyr_started :: zephyr_state where
  "zephyr_started = (zephyr_process (\<lambda>a. 0))
     \<lparr>g_common_fpga_interface_info_vec := Some [zero_info\<lparr>base_address := 0x3000, dfl := True\<rparr>,
        zero_info\<lparr>base_address := 0x9000, dev := 2, irq := 5\<rparr>],
      g_common_fpga_interface_info_vec_size := 2, g_common_fpga_interface_info_vec_reserved := 2,
      s_zephyr_dfl_addr := 0x1000, s_zephyr_dfl_found := True\<rparr>"

lemma zephyr_started_window: "zephyr_window 0 0x2000 0x100 zephyr_started"
  by (simp add: zephyr_window_def window_def register_space_all has_info_def info_at_def zephyr_started_def
      fpga_zephyr_get_base_address_def zephyr_dfl_base_addr_decoder_def run_rules
      common_fpga_interface_info_vec_at_def)

end
