(* ===== verification/Mmio_Properties.thy ===== *)
theory Mmio_Properties
  imports Demo_Platforms
begin

text \<open>
  The properties of the register access: \<open>uio/inc/intel_fpga_api_uio.h\<close>,
  \<open>devmem/inc/intel_fpga_api_devmem.h\<close> and \<open>zephyr/inc/intel_fpga_api_zephyr.h\<close>.
\<close>

section \<open>Windows\<close>

lemma window_of_handle:
  assumes "0 \<le> h" and "h \<le> INT_MAX" and "has_info s (nat h)"
    and "register_space (mem s) (base_address (info_at s (nat h))) (unat (l :: u32))"
  shows "window fpga_uio_get_base_address h (base_address (info_at s (nat h))) l s"
    and "window fpga_devmem_get_base_address h (base_address (info_at s (nat h))) l s"
  using window_of_entry [of s h "base_address (info_at s (nat h))" l] assms by simp_all

section \<open>Builds and byte order\<close>

text \<open>C13: The two builds of the 64-bit access agree on memory.  A 64-bit write through a handle of the
  table followed by a 64-bit read of the same register gives the value back and leaves the same memory
  in both builds; on the bus the native build makes one 64-bit access each and the emulation two 32-bit
  ones, the low half first.  The register is aligned; in the native build an access to any other offset
  is the undefined one.\<close>

theorem write_read_64:
  assumes "0 \<le> h" and "h \<le> INT_MAX" and "has_info s (nat h)"
    and "b = base_address (info_at s (nat h))" and "register_space (mem s) b (unat (l :: u32))"
    and "unat a + 8 \<le> unat l"
  shows "if 8 dvd unat a then thn (fpga_write_64 fpga_uio_get_base_address (fpga_write_32 fpga_uio_get_base_address) h a v)
      (fpga_read_64 fpga_uio_get_base_address (fpga_read_32 fpga_uio_get_base_address) h a) s =
    Ret v (s\<lparr>mem := store_bytes (mem s) (b + ucast a) (bytes_le 8 v),
      bus := bus s @
        (if env_read_mode (env s) = Emulated_32
         then [Bus_write 4 (b + ucast a) (take_bit 32 v), Bus_write 4 (b + ucast a + 4) (drop_bit 32 v),
               Bus_read 4 (b + ucast a), Bus_read 4 (b + ucast a + 4)]
         else [Bus_write 8 (b + ucast a) v, Bus_read 8 (b + ucast a)])\<rparr>)
    else env_read_mode (env s) = Native_64 \<longrightarrow>
      fpga_write_64 fpga_uio_get_base_address (fpga_write_32 fpga_uio_get_base_address) h a v s
        = Stop (Undefined_behaviour Misaligned_access) s
      \<and> fpga_read_64 fpga_uio_get_base_address (fpga_read_32 fpga_uio_get_base_address) h a s
        = Stop (Undefined_behaviour Misaligned_access) s"
proof -
  let ?g = fpga_uio_get_base_address
  let ?m = "store_bytes (mem s) (b + ucast a) (bytes_le 8 v)"
  have w: "window ?g h b l s" using window_of_handle(1) [of h s l] assms by simp
  have w2: "window ?g h b l (s\<lparr>mem := ?m, bus := ev\<rparr>)" for ev
    by (rule window_update [OF w register_space_store [OF assms(5)]])
  have "load_bytes ?m (b + ucast a) 8 = Some (bytes_le 8 v)"
    unfolding offset_nat by (rule load_store_same) (use assms(6) unat_u32 [of l] in simp_all)
  then have word: "port_word b (s\<lparr>mem := ?m, bus := ev\<rparr>) a = v" for ev
    by (simp add: port_word_def le_word_bytes_le)
  have off: "\<not> aligned 8 (b + ucast a)" if "\<not> 8 dvd unat a"
    using assms(5) that unaligned_offset [of b 8 "unat a"] by (simp add: register_space_def)
  show ?thesis
  proof (cases "8 dvd unat a")
    case True
    with word show ?thesis
      by (simp add: run_rules run_write_64 [OF w assms(6)] run_read_64 [OF w2 assms(6)]
          write_events_def read_events_def)
  next
    case False
    with off window_base [OF w] show ?thesis
      by (simp add: run_rules fpga_write_64_def fpga_read_64_def bus_write_def bus_read_def)
  qed
qed

lemma write_read_64_witness:
  "(case thn (fpga_write_64 fpga_uio_get_base_address (fpga_write_32 fpga_uio_get_base_address) 0 8 0x1122334455667788)
      (fpga_read_64 fpga_uio_get_base_address (fpga_read_32 fpga_uio_get_base_address) 0 8)
      (register_process Emulated_32) of
     Ret x t \<Rightarrow> x = 0x1122334455667788
       \<and> take 2 (bus t) = [Bus_write 4 0x1008 0x55667788, Bus_write 4 0x100C 0x11223344]
   | Stop e t \<Rightarrow> False)"
proof -
  have "take_bit 32 (0x1122334455667788 :: u64) = 0x55667788"
    "drop_bit 32 (0x1122334455667788 :: u64) = 0x11223344"
    by (simp_all add: take_bit_eq_mask mask_eq_exp_minus_1 drop_bit_eq_div)
  then show ?thesis
    using write_read_64 [of 0 "register_process Emulated_32" "0x1000" "0x100" 8 "0x1122334455667788"]
    by (simp add: register_window register_space_all)
qed

text \<open>The access that is not aligned.\<close>

lemma run_unaligned:
  assumes "\<not> aligned n a"
  shows "bus_read n a s = Stop (Undefined_behaviour Misaligned_access) s"
  using assms by (simp add: bus_read_def run_rules)

text \<open>The bytes \<open>i\<close> to \<open>i + n - 1\<close> of a word that was written.\<close>

lemma le_word_part:
  fixes v :: u64
  assumes "LENGTH('w) = 8 * n" and "i + n \<le> 8"
  shows "le_word (take n (drop i (bytes_le 8 v))) = (ucast (drop_bit (8 * i) v) :: 'w::len word)"
proof (rule bit_word_eqI)
  fix k assume "k < LENGTH('w)"
  then have k: "k < 8 * n" using assms(1) by simp
  then have "k div 8 < n" by linarith
  moreover have "8 * (i + k div 8) + k mod 8 = 8 * i + k" by simp
  moreover have "8 * i + k < 64" using k assms(2) by linarith
  ultimately show "bit (le_word (take n (drop i (bytes_le 8 v))) :: 'w word) k
      = bit (ucast (drop_bit (8 * i) v) :: 'w word) k"
    using k assms by (simp add: bit_le_word bytes_le_def bit_simps add.commute [of "8 * i"])
qed

lemma read_part:
  fixes v :: u64
  assumes m: "m = store_bytes m0 (b + of_nat y) (bytes_le 8 v)" and "register_space m b lim"
    and "n dvd y + i" and "n dvd 8" and "y + 8 \<le> lim" and "lim \<le> 2 ^ 32" and "LENGTH('w) = 8 * n" and "i + n \<le> 8" and "mem s = m"
  shows "bus_read n (b + of_nat (y + i)) s
    = Ret (ucast (drop_bit (8 * i) v) :: 'w::len word)
        (s\<lparr>bus := bus s @ [Bus_read n (b + of_nat (y + i))]\<rparr>)"
proof -
  have "m (b + of_nat (y + i) + of_nat k) = Some (take n (drop i (bytes_le 8 v)) ! k)" if "k < n" for k
    using store_bytes_at [of "y + i + k" y "bytes_le 8 v" m0 b] that assms by (simp add: add.assoc)
  then have "load_bytes m (b + of_nat (y + i)) n = Some (take n (drop i (bytes_le 8 v)))"
    using assms(8) by (simp add: load_bytes_iff)
  then have ld: "le_word (the (load_bytes m (b + of_nat (y + i)) n))
      = (ucast (drop_bit (8 * i) v) :: 'w word)"
    using le_word_part [OF assms(7,8), of v] by simp
  have "bus_read n (b + of_nat (y + i)) s
    = Ret (le_word (the (load_bytes (mem s) (b + of_nat (y + i)) n)) :: 'w word)
        (s\<lparr>bus := bus s @ [Bus_read n (b + of_nat (y + i))]\<rparr>)"
    by (rule run_bus_read [where lim = lim]) (use assms in simp_all)
  then show ?thesis unfolding assms(9) ld .
qed

text \<open>C14: Little-endian byte order, for every width.  After a write of an aligned 64-bit register, in
  either build, the 8-bit reads at its bytes, the 16-bit reads at its even bytes and the 32-bit reads at its
  two halves give the bytes of the value from that byte on, counted from the least significant one.
  These are all the aligned reads inside the register: any other 16- or 32-bit read is the
  undefined access, and is so here.\<close>

theorem byte_order:
  assumes "0 \<le> h" and "h \<le> INT_MAX" and "has_info s (nat h)"
    and "register_space (mem s) (base_address (info_at s (nat h))) (unat (l :: u32))"
    and "unat a + 8 \<le> unat l" and "8 dvd unat a"
  shows "wp (fpga_devmem_write_64 h a v) (\<lambda>_ t.
      (\<forall>i < 8. wp (fpga_devmem_read_8 h (a + of_nat i)) (\<lambda>x u. x = ucast (drop_bit (8 * i) v)) t)
      \<and> (\<forall>i < 7. if even i
          then wp (fpga_devmem_read_16 h (a + of_nat i)) (\<lambda>x u. x = ucast (drop_bit (8 * i) v)) t
          else fpga_devmem_read_16 h (a + of_nat i) t = Stop (Undefined_behaviour Misaligned_access) t)
      \<and> (\<forall>i < 5. if 4 dvd i
          then wp (fpga_devmem_read_32 h (a + of_nat i)) (\<lambda>x u. x = ucast (drop_bit (8 * i) v)) t
          else fpga_devmem_read_32 h (a + of_nat i) t = Stop (Undefined_behaviour Misaligned_access) t)) s"
proof -
  let ?g = fpga_devmem_get_base_address and ?b = "base_address (info_at s (nat h))"
  let ?m = "store_bytes (mem s) (?b + of_nat (unat a)) (bytes_le 8 v)"
  have w: "window ?g h ?b l s" using window_of_handle(2) [of h s l] assms by simp
  have map: "register_space ?m ?b (unat l)" by (rule register_space_store [OF assms(4)])
  have w2: "window ?g h ?b l (s\<lparr>mem := ?m, bus := ev\<rparr>)" for ev
    by (rule window_update [OF w map])
  have lim: "unat l \<le> 2 ^ 32" using unat_u32 [of l] by simp
  have at: "(ucast (a + of_nat i) :: u64) = of_nat (unat a + i)" if "i < 8" for i
  proof -
    have "unat (a + of_nat i) = unat a + i"
      using assms(5) lim that by (simp add: unat_word_ariths unat_of_nat)
    then show ?thesis unfolding offset_nat by simp
  qed
  note part = read_part [OF refl map _ _ assms(5) lim]
  have even: "2 dvd unat a + i \<longleftrightarrow> even i" and four: "4 dvd unat a + i \<longleftrightarrow> 4 dvd i" for i
    using dvd_trans [OF _ assms(6), of 2] dvd_trans [OF _ assms(6), of 4] by (simp_all add: dvd_add_right_iff)
  have odd: "\<not> aligned 2 (?b + of_nat (unat a + i))" if "odd i" for i
    using assms(4) that even [of i] unaligned_offset [of ?b 2 "unat a + i"] by (simp add: register_space_def)
  have part_word: "\<not> aligned 4 (?b + of_nat (unat a + i))" if "\<not> 4 dvd i" for i
    using assms(4) that four [of i] unaligned_offset [of ?b 4 "unat a + i"] by (simp add: register_space_def)
  have "wp (fpga_devmem_read_8 h (a + of_nat i)) (\<lambda>x u. x = ucast (drop_bit (8 * i) v))
      (s\<lparr>mem := ?m, bus := ev\<rparr>)" if "i < 8" for i ev
    using that part [where 'w = 8 and n = 1 and i = i and s = "s\<lparr>mem := ?m, bus := ev\<rparr>"] window_base [OF w2, of ev] at [of i]
    by (simp add: devmem_access fpga_read_8_def wp_def run_rules del: of_nat_add One_nat_def)
  moreover have "if even i
      then wp (fpga_devmem_read_16 h (a + of_nat i)) (\<lambda>x u. x = ucast (drop_bit (8 * i) v)) (s\<lparr>mem := ?m, bus := ev\<rparr>)
      else fpga_devmem_read_16 h (a + of_nat i) (s\<lparr>mem := ?m, bus := ev\<rparr>)
        = Stop (Undefined_behaviour Misaligned_access) (s\<lparr>mem := ?m, bus := ev\<rparr>)" if "i < 7" for i ev
    using that part [where 'w = 16 and n = 2 and i = i and s = "s\<lparr>mem := ?m, bus := ev\<rparr>"]
      window_base [OF w2, of ev] at [of i] odd [of i] even [of i]
    by (simp add: devmem_access fpga_read_16_def wp_def run_rules run_unaligned del: of_nat_add)
  moreover have "if 4 dvd i
      then wp (fpga_devmem_read_32 h (a + of_nat i)) (\<lambda>x u. x = ucast (drop_bit (8 * i) v)) (s\<lparr>mem := ?m, bus := ev\<rparr>)
      else fpga_devmem_read_32 h (a + of_nat i) (s\<lparr>mem := ?m, bus := ev\<rparr>)
        = Stop (Undefined_behaviour Misaligned_access) (s\<lparr>mem := ?m, bus := ev\<rparr>)" if "i < 5" for i ev
    using that part [where 'w = 32 and n = 4 and i = i and s = "s\<lparr>mem := ?m, bus := ev\<rparr>"]
      window_base [OF w2, of ev] at [of i] part_word [of i] four [of i]
    by (simp add: devmem_access fpga_read_32_def wp_def run_rules run_unaligned del: of_nat_add)
  moreover have "fpga_devmem_write_64 h a v s = Ret () (s\<lparr>mem := ?m,
      bus := bus s @ write_events (env_read_mode (env s)) (?b + ucast a) v\<rparr>)"
    using run_write_64 [OF w assms(5,6), of v] unfolding devmem_access offset_nat .
  ultimately show ?thesis by (simp only: wp_def outcome.case) blast
qed

lemma byte_order_witness:
  "wp (fpga_devmem_write_64 0 8 0x1122334455667788) (\<lambda>_ t.
      wp (fpga_devmem_read_8 0 (8 + of_nat 7)) (\<lambda>x u. x = 0x11) t
      \<and> wp (fpga_devmem_read_16 0 (8 + of_nat 2)) (\<lambda>x u. x = 0x5566) t) (register_process Native_64)"
proof (rule wp_mono [OF byte_order [where l = "0x100"]])
  fix x :: unit and t :: uio_state
  assume t: "(\<forall>i < 8. wp (fpga_devmem_read_8 0 (8 + of_nat i))
        (\<lambda>x u. x = ucast (drop_bit (8 * i) (0x1122334455667788 :: u64))) t)
      \<and> (\<forall>i < 7. if even i
          then wp (fpga_devmem_read_16 0 (8 + of_nat i))
            (\<lambda>x u. x = ucast (drop_bit (8 * i) (0x1122334455667788 :: u64))) t
          else fpga_devmem_read_16 0 (8 + of_nat i) t = Stop (Undefined_behaviour Misaligned_access) t)
      \<and> (\<forall>i < 5. if 4 dvd i
          then wp (fpga_devmem_read_32 0 (8 + of_nat i))
            (\<lambda>x u. x = ucast (drop_bit (8 * i) (0x1122334455667788 :: u64))) t
          else fpga_devmem_read_32 0 (8 + of_nat i) t = Stop (Undefined_behaviour Misaligned_access) t)"
  have c: "(ucast (drop_bit (8 * 7) (0x1122334455667788 :: u64)) :: u8) = 0x11"
    "(ucast (drop_bit (8 * 2) (0x1122334455667788 :: u64)) :: u16) = 0x5566"
    by (simp_all add: drop_bit_eq_div)
  have "wp (fpga_devmem_read_8 0 (8 + of_nat 7))
      (\<lambda>x u. x = ucast (drop_bit (8 * 7) (0x1122334455667788 :: u64))) t"
    by (rule t [THEN conjunct1, rule_format]) simp
  moreover have "wp (fpga_devmem_read_16 0 (8 + of_nat 2))
      (\<lambda>x u. x = ucast (drop_bit (8 * 2) (0x1122334455667788 :: u64))) t"
    using t [THEN conjunct2, THEN conjunct1, rule_format, of 2] by simp
  ultimately show "wp (fpga_devmem_read_8 0 (8 + of_nat 7)) (\<lambda>x u. x = 0x11) t
      \<and> wp (fpga_devmem_read_16 0 (8 + of_nat 2)) (\<lambda>x u. x = 0x5566) t" unfolding c ..
qed (simp_all add: register_window register_space_all)

section \<open>Blocks\<close>

text \<open>C15: The 512-bit transfers of the UIO and the devmem platform.  A block of 64 bytes that is written
  to aligned registers of the window and read back comes back byte by byte, in either build.\<close>

theorem block_round_trip_512:
  assumes "0 \<le> h" and "h \<le> INT_MAX" and "has_info s (nat h)"
    and "register_space (mem s) (base_address (info_at s (nat h))) (unat (l :: u32))"
    and "unat a + 64 \<le> unat l" and "8 dvd unat a" and "length bs = 64"
    and "g = fpga_uio_get_base_address \<or> g = fpga_devmem_get_base_address"
  shows "wp (thn (fpga_write_512 (fpga_write_64 g (fpga_write_32 g) h) a bs)
               (fpga_read_512 (fpga_read_64 g (fpga_read_32 g) h) a)) (\<lambda>x t. x = bs) s"
  using assms(8)
proof
  assume g: "g = fpga_uio_get_base_address"
  show ?thesis unfolding g
    by (rule wp_mono [OF uio_port.block_round_trip [OF window_of_handle(1) [OF assms(1-4)] assms(5-7)]])
      simp
next
  assume g: "g = fpga_devmem_get_base_address"
  show ?thesis unfolding g
    by (rule wp_mono [OF devmem_port.block_round_trip [OF window_of_handle(2) [OF assms(1-4)] assms(5-7)]])
      simp
qed

lemma block_round_trip_512_witness:
  "wp (thn (fpga_write_512 (fpga_write_64 fpga_uio_get_base_address
               (fpga_write_32 fpga_uio_get_base_address) 0) 0x40 (map of_nat [0..<64]))
         (fpga_read_512 (fpga_read_64 fpga_uio_get_base_address
               (fpga_read_32 fpga_uio_get_base_address) 0) 0x40))
    (\<lambda>x t. x = map of_nat [0..<64]) (register_process Emulated_32)"
  by (rule block_round_trip_512 [where l = "0x100"])
    (simp_all add: register_window register_space_all del: upt_conv_Cons)

text \<open>The 512-bit transfers of the Zephyr platform, through a handle of an interface that comes
  from a Device Feature List.\<close>

lemma zephyr_block_round_trip:
  assumes "zephyr_window h b l s" and "unat a + 64 \<le> unat l" and "8 dvd unat a" and "length bs = 64"
  shows "wp (thn (fpga_zephyr_write_512 h a bs) (fpga_zephyr_read_512 h a))
    (\<lambda>x t. x = bs \<and> zephyr_window h b l t) s"
  unfolding zephyr_access by (rule wp_mono [OF zephyr_port.block_round_trip [OF assms]]) simp

lemma zephyr_block_round_trip_witness:
  "wp (thn (fpga_zephyr_write_512 0 0x40 (map of_nat [0..<64])) (fpga_zephyr_read_512 0 0x40))
    (\<lambda>x t. x = map of_nat [0..<64]) zephyr_started"
  by (rule wp_mono [OF zephyr_block_round_trip [OF zephyr_started_window]])
    (simp_all del: upt_conv_Cons)

text \<open>A device of the Zephyr device table that does not come from a Device Feature List.  Its 32-bit
  accesses are calls of the syscon driver and touch neither memory nor the bus; the 64-bit access of
  the emulating build is two of them, the low half first; the native 64-bit access reads memory at the
  base address less the address of the ROM.\<close>

lemma zephyr_device_access:
  assumes "0 \<le> h" and "h \<le> INT_MAX" and "has_info s (nat h)" and "\<not> dfl (info_at s (nat h))"
    and "d = dev (info_at s (nat h))"
  shows "fpga_zephyr_write_32 h a v s = syscall_ignored (Syscon_write d a v) s
    \<and> fpga_zephyr_write_64 h a w s =
      (if env_read_mode (env s) = Emulated_32
       then thn (syscall_ignored (Syscon_write d a (ucast w)))
              (syscall_ignored (Syscon_write d (a + 4) (ucast (drop_bit 32 w)))) s
       else bus_write 8 (base_address (info_at s (nat h)) - s_zephyr_dfl_addr s + ucast a) w s)"
proof -
  have at: "common_fpga_interface_info_vec_at (nat h) t = Ret (info_at s (nat h)) t"
    if "vec t = vec s" for t :: "'a zephyr_state_scheme"
    using assms(3) that
    by (auto simp: common_fpga_interface_info_vec_at_def has_info_def info_at_def run_rules
        split: option.splits)
  have one: "fpga_zephyr_write_32 h x y t = syscall_ignored (Syscon_write d x y) t"
    if "vec t = vec s" for t :: "'a zephyr_state_scheme" and x y
    using assms by (simp add: fpga_zephyr_write_32_def run_rules at [OF that])
  show ?thesis
    using assms(1,2)
    by (simp add: zephyr_access fpga_write_64_def run_rules one at fpga_zephyr_get_base_address_def
        zephyr_dfl_base_addr_decoder_def)
qed

lemma zephyr_device_access_witness:
  "fpga_zephyr_write_32 1 4 9 zephyr_started = syscall_ignored (Syscon_write 2 4 9) zephyr_started"
  by (rule zephyr_device_access [THEN conjunct1])
    (simp_all add: has_info_def info_at_def zephyr_started_def)

end
