(* ===== verification/Uio_Interrupts.thy ===== *)
theory Uio_Interrupts
  imports Uio_Init
begin

text \<open>
  The interrupt thread of the UIO platform (\<open>uio_interrupt_thread\<close> in
  \<open>uio/src/intel_fpga_platform_api_uio.c\<close>) next to an application that calls the interrupt API
  (\<open>uio/src/intel_fpga_api_uio.c\<close>) and, last, \<open>fpga_platform_cleanup\<close>.  The two are interleaved at
  the accesses to what they share: the exit flag under its lock, the semaphore, and the members of
  entry 0 of the table.  Memory is sequentially consistent.  A call of an ISR comes back.  The
  application has one thread, as the library asks for; the error branches of the cleanup, where a
  lock or the semaphore fails, are in the sequential model of \<open>Platform_Uio\<close>.
\<close>

section \<open>State\<close>

text \<open>Where the thread is.  The \<open>int\<close> is the descriptor it has opened; \<open>Done\<close> tells a clean exit from
  one with an error.\<close>

datatype thread_pc =
    At_lock
  | Flags_read bool
  | Test_enable
  | Before_wait
  | Opened int
  | Armed int
  | Interrupted int
  | Isr_tested int
  | Isr_loaded int u64
  | Context_loaded int u64
  | Isr_returned int
  | Done bool

text \<open>Where the application is: between two calls, inside one, or in the cleanup.\<close>

datatype app_pc =
    Idle
  | Registering u64
  | Enabling
  | Posting
  | Exit_flag_set
  | Joining
  | Joined

record irq_state =
  thread :: thread_pc
  app :: app_pc
  exit_flag :: bool
  sem :: nat
  enabled :: bool
  callback :: u64
  callback_context :: u64
  isr_calls :: "(u64 \<times> u64) list"
  open_fds :: "int list"
  registered :: "(u64 \<times> u64) list"

text \<open>When the thread has just been created: entry 0 is blank.  \<open>registered\<close> is a ghost: the pairs
  that registrations have begun to store, after the blank one.\<close>

definition irq_start :: irq_state where
  "irq_start = \<lparr>thread = At_lock, app = Idle, exit_flag = False, sem = 0, enabled = False,
     callback = 0, callback_context = 0, isr_calls = [], open_fds = [], registered = [(0, 0)]\<rparr>"

section \<open>Steps\<close>

text \<open>The thread, in the order of its loop.  The flag is read with the lock held.  A failing system
  call leads to \<open>Done False\<close>; \<open>poll\<close> may report an event or a timeout.  The pointer to the ISR and its
  argument are loaded in either order.\<close>

inductive thread_step :: "irq_state \<Rightarrow> irq_state \<Rightarrow> bool" where
  rdlock_fails: "thread s = At_lock \<Longrightarrow> thread_step s (s\<lparr>thread := Done False\<rparr>)"
| rdlock: "thread s = At_lock \<Longrightarrow> thread_step s (s\<lparr>thread := Flags_read (exit_flag s)\<rparr>)"
| unlock_fails: "thread s = Flags_read f \<Longrightarrow> thread_step s (s\<lparr>thread := Done False\<rparr>)"
| unlock_exit: "thread s = Flags_read True \<Longrightarrow> thread_step s (s\<lparr>thread := Done True\<rparr>)"
| unlock: "thread s = Flags_read False \<Longrightarrow> thread_step s (s\<lparr>thread := Test_enable\<rparr>)"
| not_enabled: "thread s = Test_enable \<Longrightarrow> \<not> enabled s \<Longrightarrow>
    thread_step s (s\<lparr>thread := Before_wait\<rparr>)"
| sem_wait: "thread s = Before_wait \<Longrightarrow> 0 < sem s \<Longrightarrow>
    thread_step s (s\<lparr>thread := At_lock, sem := sem s - 1\<rparr>)"
| sem_wait_fails: "thread s = Before_wait \<Longrightarrow> thread_step s (s\<lparr>thread := Done False\<rparr>)"
| open_fails: "thread s = Test_enable \<Longrightarrow> enabled s \<Longrightarrow> thread_step s (s\<lparr>thread := Done False\<rparr>)"
| open_uio: "thread s = Test_enable \<Longrightarrow> enabled s \<Longrightarrow> 0 \<le> fd \<Longrightarrow> fd \<notin> set (open_fds s) \<Longrightarrow>
    thread_step s (s\<lparr>thread := Opened fd, open_fds := fd # open_fds s\<rparr>)"
| write_fails: "thread s = Opened fd \<Longrightarrow>
    thread_step s (s\<lparr>thread := Done False, open_fds := remove1 fd (open_fds s)\<rparr>)"
| write_arm: "thread s = Opened fd \<Longrightarrow> thread_step s (s\<lparr>thread := Armed fd\<rparr>)"
| poll_nothing: "thread s = Armed fd \<Longrightarrow> thread_step s (s\<lparr>thread := Isr_returned fd\<rparr>)"
| poll_event: "thread s = Armed fd \<Longrightarrow> thread_step s (s\<lparr>thread := Interrupted fd\<rparr>)"
| no_isr: "thread s = Interrupted fd \<Longrightarrow> callback s = 0 \<Longrightarrow>
    thread_step s (s\<lparr>thread := Done False, open_fds := remove1 fd (open_fds s)\<rparr>)"
| some_isr: "thread s = Interrupted fd \<Longrightarrow> callback s \<noteq> 0 \<Longrightarrow>
    thread_step s (s\<lparr>thread := Isr_tested fd\<rparr>)"
| load_isr: "thread s = Isr_tested fd \<Longrightarrow> thread_step s (s\<lparr>thread := Isr_loaded fd (callback s)\<rparr>)"
| load_context: "thread s = Isr_tested fd \<Longrightarrow>
    thread_step s (s\<lparr>thread := Context_loaded fd (callback_context s)\<rparr>)"
| call_isr: "thread s = Isr_loaded fd f \<Longrightarrow>
    thread_step s (s\<lparr>thread := Isr_returned fd, isr_calls := isr_calls s @ [(f, callback_context s)]\<rparr>)"
| call_isr': "thread s = Context_loaded fd c \<Longrightarrow>
    thread_step s (s\<lparr>thread := Isr_returned fd, isr_calls := isr_calls s @ [(callback s, c)]\<rparr>)"
| close_fd: "thread s = Isr_returned fd \<Longrightarrow>
    thread_step s (s\<lparr>thread := At_lock,
      open_fds := if fd > 0 then remove1 fd (open_fds s) else open_fds s\<rparr>)"

text \<open>The application, by call: \<open>fpga_register_isr\<close>, \<open>fpga_enable_interrupt\<close>, \<open>fpga_disable_interrupt\<close> on
  handle 0, and the cleanup.  The exit flag is written with the lock held, so not while the thread
  holds it; the join waits for the thread.\<close>

definition holds_lock :: "thread_pc \<Rightarrow> bool" where
  "holds_lock p \<longleftrightarrow> (case p of Flags_read f \<Rightarrow> True | _ \<Rightarrow> False)"

datatype irq_call =
    Register u64 u64
  | Enable
  | Disable
  | Cleanup

inductive app_step :: "irq_call \<Rightarrow> irq_state \<Rightarrow> irq_state \<Rightarrow> bool" where
  register_callback: "app s = Idle \<Longrightarrow>
    app_step (Register f c) s (s\<lparr>app := Registering c, callback := f, registered := registered s @ [(f, c)]\<rparr>)"
| register_context: "app s = Registering c \<Longrightarrow>
    app_step (Register f c) s (s\<lparr>app := Idle, callback_context := c\<rparr>)"
| enable: "app s = Idle \<Longrightarrow> app_step Enable s (s\<lparr>app := Enabling, enabled := True\<rparr>)"
| enable_awake: "app s = Enabling \<Longrightarrow> 0 < sem s \<Longrightarrow> app_step Enable s (s\<lparr>app := Idle\<rparr>)"
| enable_asleep: "app s = Enabling \<Longrightarrow> sem s = 0 \<Longrightarrow> app_step Enable s (s\<lparr>app := Posting\<rparr>)"
| enable_post: "app s = Posting \<Longrightarrow> app_step Enable s (s\<lparr>app := Idle, sem := sem s + 1\<rparr>)"
| disable: "app s = Idle \<Longrightarrow> app_step Disable s (s\<lparr>enabled := False\<rparr>)"
| cleanup_flag: "app s = Idle \<Longrightarrow> \<not> holds_lock (thread s) \<Longrightarrow>
    app_step Cleanup s (s\<lparr>app := Exit_flag_set, exit_flag := True\<rparr>)"
| cleanup_post: "app s = Exit_flag_set \<Longrightarrow>
    app_step Cleanup s (s\<lparr>app := Joining, sem := sem s + 1\<rparr>)"
| cleanup_join: "app s = Joining \<Longrightarrow> thread s = Done ok \<Longrightarrow>
    app_step Cleanup s (s\<lparr>app := Joined\<rparr>)"

text \<open>The branches of \<open>fpga_enable_interrupt\<close> where \<open>sem_getvalue\<close> or \<open>sem_post\<close> fails: the call comes
  back without a post.  POSIX has \<open>sem_getvalue\<close> fail for an invalid semaphore only, and \<open>sem_post\<close>
  for an invalid or a full one; this one is initialised before the thread is created, and
  \<open>sem_bounded\<close> shows that it never exceeds two.  So these steps are not in the executions below.\<close>

inductive app_error_step :: "irq_state \<Rightarrow> irq_state \<Rightarrow> bool" where
  getvalue_fails: "app s = Enabling \<Longrightarrow> app_error_step s (s\<lparr>app := Idle\<rparr>)"
| post_fails: "app s = Posting \<Longrightarrow> app_error_step s (s\<lparr>app := Idle\<rparr>)"

text \<open>The states that can be reached with the calls of \<open>P\<close>, and with all.\<close>

inductive irq_reachable_by :: "(irq_call \<Rightarrow> bool) \<Rightarrow> irq_state \<Rightarrow> bool" for P where
  start_by: "irq_reachable_by P irq_start"
| thread_by: "irq_reachable_by P s \<Longrightarrow> thread_step s t \<Longrightarrow> irq_reachable_by P t"
| app_by: "irq_reachable_by P s \<Longrightarrow> app_step c s t \<Longrightarrow> P c \<Longrightarrow> irq_reachable_by P t"

inductive irq_reachable :: "irq_state \<Rightarrow> bool" where
  start: "irq_reachable irq_start"
| thread: "irq_reachable s \<Longrightarrow> thread_step s t \<Longrightarrow> irq_reachable t"
| app: "irq_reachable s \<Longrightarrow> app_step c s t \<Longrightarrow> irq_reachable t"

inductive_cases thread_stepE: "thread_step s t"
inductive_cases app_stepE: "app_step c s t"
inductive_cases app_error_stepE: "app_error_step s t"

text \<open>What holds at the start and is kept by every step holds in every reachable state.\<close>

lemma irq_invariant [consumes 1, case_names start thread app]:
  assumes "irq_reachable s" and "I irq_start"
    and "\<And>s t. irq_reachable s \<Longrightarrow> I s \<Longrightarrow> thread_step s t \<Longrightarrow> I t"
    and "\<And>s t c. irq_reachable s \<Longrightarrow> I s \<Longrightarrow> app_step c s t \<Longrightarrow> I t"
  shows "I s"
  using assms by (induction rule: irq_reachable.induct) blast+

section \<open>The semaphore and the end of the thread\<close>

text \<open>Once the cleanup has set the flag, only a thread that read the old one can go to sleep, and then
  the post of the cleanup is still there for it.\<close>

definition stale :: "thread_pc \<Rightarrow> bool" where
  "stale p \<longleftrightarrow> (case p of At_lock \<Rightarrow> False | Flags_read f \<Rightarrow> \<not> f | Done ok \<Rightarrow> False | _ \<Rightarrow> True)"

definition cleaning :: "app_pc \<Rightarrow> bool" where
  "cleaning a \<longleftrightarrow> a = Exit_flag_set \<or> a = Joining \<or> a = Joined"

definition wakeup_inv :: "irq_state \<Rightarrow> bool" where
  "wakeup_inv s \<longleftrightarrow>
     (exit_flag s \<longleftrightarrow> cleaning (app s))
     \<and> (thread s = Flags_read True \<longrightarrow> exit_flag s)
     \<and> (enabled s \<and> thread s = Before_wait
          \<longrightarrow> 0 < sem s \<or> app s = Enabling \<or> app s = Posting)
     \<and> (app s = Joining \<and> stale (thread s) \<longrightarrow> 0 < sem s)
     \<and> (app s = Joined \<longrightarrow> (\<exists>ok. thread s = Done ok))"

lemma wakeup_start: "wakeup_inv irq_start"
  by (simp add: wakeup_inv_def irq_start_def cleaning_def)

lemma wakeup_thread: "wakeup_inv s \<Longrightarrow> thread_step s t \<Longrightarrow> wakeup_inv t"
  by (erule thread_stepE) (auto simp: wakeup_inv_def cleaning_def stale_def split: if_splits)

lemma wakeup_app: "wakeup_inv s \<Longrightarrow> app_step c s t \<Longrightarrow> wakeup_inv t"
  by (erule app_stepE) (auto simp: wakeup_inv_def cleaning_def stale_def holds_lock_def)

lemma wakeup: "irq_reachable s \<Longrightarrow> wakeup_inv s"
  by (induction rule: irq_invariant) (auto intro: wakeup_start wakeup_thread wakeup_app)

text \<open>How many steps a thread can still make once the flag is set.\<close>

fun steps_left :: "thread_pc \<Rightarrow> nat" where
  "steps_left (Done ok) = 0"
| "steps_left (Flags_read f) = (if f then 1 else 10)"
| "steps_left At_lock = 2"
| "steps_left (Isr_returned fd) = 3"
| "steps_left Before_wait = 3"
| "steps_left (Isr_loaded fd f) = 4"
| "steps_left (Context_loaded fd c) = 4"
| "steps_left (Isr_tested fd) = 5"
| "steps_left (Interrupted fd) = 6"
| "steps_left (Armed fd) = 7"
| "steps_left (Opened fd) = 8"
| "steps_left Test_enable = 9"

lemma steps_left_le: "steps_left p \<le> 10"
  by (cases p) auto

lemma thread_step_left:
  "thread_step s t \<Longrightarrow> exit_flag s \<Longrightarrow> steps_left (thread t) < steps_left (thread s) \<and> exit_flag t"
  by (erule thread_stepE) auto

lemma thread_steps_left:
  "(thread_step ^^ n) s t \<Longrightarrow> exit_flag s \<Longrightarrow> n + steps_left (thread t) \<le> steps_left (thread s)"
proof (induction n arbitrary: t)
  case (Suc n)
  then obtain u where u: "(thread_step ^^ n) s u" "thread_step u t" by auto
  have "exit_flag u" using u(1) Suc.prems(2)
    by (induction n arbitrary: u) (auto dest: thread_step_left)
  with Suc.IH [OF u(1) Suc.prems(2)] thread_step_left [OF u(2)] show ?case by simp
qed simp

section \<open>Bounds and resources\<close>

text \<open>The semaphore never exceeds one before the cleanup, and two after it.\<close>

definition sem_inv :: "irq_state \<Rightarrow> bool" where
  "sem_inv s \<longleftrightarrow> sem s \<le> (if app s = Joining \<or> app s = Joined then 2 else 1)
     \<and> (app s = Posting \<longrightarrow> sem s = 0)"

lemma sem_bounded: "irq_reachable s \<Longrightarrow> sem_inv s"
proof (induction rule: irq_invariant)
  case start
  then show ?case by (simp add: sem_inv_def irq_start_def)
next
  case (thread s t)
  from thread show ?case by (elim thread_stepE) (auto simp: sem_inv_def)
next
  case (app s t c)
  from app show ?case by (elim app_stepE) (auto simp: sem_inv_def split: if_splits)
qed

text \<open>The descriptor that the thread works with.\<close>

definition pc_fd :: "thread_pc \<Rightarrow> int set" where
  "pc_fd p = (case p of Opened fd \<Rightarrow> {fd} | Armed fd \<Rightarrow> {fd} | Interrupted fd \<Rightarrow> {fd}
     | Isr_tested fd \<Rightarrow> {fd} | Isr_loaded fd f \<Rightarrow> {fd} | Context_loaded fd c \<Rightarrow> {fd}
     | Isr_returned fd \<Rightarrow> {fd} | _ \<Rightarrow> {})"

definition fds_inv :: "irq_state \<Rightarrow> bool" where
  "fds_inv s \<longleftrightarrow>
     distinct (open_fds s) \<and> set (open_fds s) \<subseteq> insert 0 (pc_fd (thread s)) \<and> (\<forall>fd \<in> pc_fd (thread s). 0 \<le> fd)"

lemma fds: "irq_reachable s \<Longrightarrow> fds_inv s"
proof (induction rule: irq_invariant)
  case start
  then show ?case by (simp add: fds_inv_def irq_start_def pc_fd_def)
next
  case (thread s t)
  from thread show ?case by (elim thread_stepE) (auto simp: fds_inv_def pc_fd_def)
next
  case (app s t c)
  from app show ?case by (elim app_stepE) (auto simp: fds_inv_def)
qed

section \<open>The calls of the ISR\<close>

text \<open>Every value that is called or passed was stored by some registration.\<close>

definition from_registered :: "irq_state \<Rightarrow> bool" where
  "from_registered s \<longleftrightarrow>
     callback s \<in> fst ` set (registered s) \<and> callback_context s \<in> snd ` set (registered s)
     \<and> (\<forall>c. app s = Registering c \<longrightarrow> c \<in> snd ` set (registered s))
     \<and> (\<forall>fd f. thread s = Isr_loaded fd f \<longrightarrow> f \<in> fst ` set (registered s))
     \<and> (\<forall>fd c. thread s = Context_loaded fd c \<longrightarrow> c \<in> snd ` set (registered s))
     \<and> set (isr_calls s) \<subseteq> fst ` set (registered s) \<times> snd ` set (registered s)"

lemma calls_from_registered: "irq_reachable s \<Longrightarrow> from_registered s"
proof (induction rule: irq_invariant)
  case start
  then show ?case by (simp add: from_registered_def irq_start_def)
next
  case (thread s t)
  from thread show ?case by (elim thread_stepE) (auto simp: from_registered_def)
next
  case (app s t c)
  from app show ?case by (elim app_stepE) (auto simp: from_registered_def)
qed

text \<open>No null call as long as null is never registered: then the pointer that was tested can only have
  been replaced by another non-null one.\<close>

definition no_null :: "irq_state \<Rightarrow> bool" where
  "no_null s \<longleftrightarrow> (0 \<notin> fst ` set (tl (registered s)) \<longrightarrow>
     (\<forall>(f, c) \<in> set (isr_calls s). f \<noteq> 0)
     \<and> (callback s = 0 \<longrightarrow> tl (registered s) = [])
     \<and> (\<forall>fd f. thread s = Isr_loaded fd f \<longrightarrow> f \<noteq> 0)
     \<and> (\<forall>fd. thread s = Isr_tested fd \<longrightarrow> callback s \<noteq> 0)
     \<and> (\<forall>fd c. thread s = Context_loaded fd c \<longrightarrow> callback s \<noteq> 0))
     \<and> registered s \<noteq> []"

lemma no_null_calls: "irq_reachable s \<Longrightarrow> no_null s"
proof (induction rule: irq_invariant)
  case start
  then show ?case by (simp add: no_null_def irq_start_def)
next
  case (thread s t)
  from thread show ?case by (elim thread_stepE) (auto simp: no_null_def)
next
  case (app s t c)
  from app show ?case by (elim app_stepE) (auto simp: no_null_def)
qed

section \<open>The calls of the API as steps\<close>

text \<open>What the two models share, for entry 0.\<close>

definition irq_view :: "'e uio_state_scheme \<Rightarrow> irq_state \<Rightarrow> bool" where
  "irq_view s u \<longleftrightarrow>
     app u = Idle \<and> exit_flag u = odd (s_intFlags s) \<and> int (sem u) = g_intSem s
     \<and> enabled u = interrupt_enable (vec_abs s ! 0) \<and> callback u = isr_callback (vec_abs s ! 0)
     \<and> callback_context u = isr_context (vec_abs s ! 0)"

lemma irq_view_entry:
  assumes "irq_view s u" and "only_entry s 0 f t" and "0 < vec_size s" and "vec_inv s"
    and "app v = Idle" and "exit_flag v = exit_flag u" and "int (sem v) = g_intSem t"
    and "enabled v = interrupt_enable (f (vec_abs s ! 0))"
    and "callback v = isr_callback (f (vec_abs s ! 0))"
    and "callback_context v = isr_context (f (vec_abs s ! 0))"
  shows "irq_view t v"
proof -
  have "0 < length (vec_abs s)" using assms(3,4) by (simp add: length_vec_abs)
  with assms show ?thesis by (simp add: irq_view_def only_entry_def)
qed

text \<open>A call of the API from its first step to its last, with the steps of \<open>R\<close> and nothing in between.\<close>

definition between_calls :: "app_pc \<Rightarrow> bool" where
  "between_calls a \<longleftrightarrow> a = Idle \<or> a = Joined"

inductive call_run :: "(irq_state \<Rightarrow> irq_state \<Rightarrow> bool) \<Rightarrow> irq_state \<Rightarrow> irq_state \<Rightarrow> bool" for R where
  last_step: "R s t \<Longrightarrow> between_calls (app t) \<Longrightarrow> call_run R s t"
| inner_step: "R s t \<Longrightarrow> \<not> between_calls (app t) \<Longrightarrow> call_run R t u \<Longrightarrow> call_run R s u"

lemma register_run:
  assumes "app u = Idle"
  shows "call_run (app_step (Register f c)) u (u\<lparr>callback := f, callback_context := c,
     registered := registered u @ [(f, c)]\<rparr>)"
proof (rule inner_step [where R = "app_step (Register f c)"])
  let ?v = "u\<lparr>app := Registering c, callback := f, registered := registered u @ [(f, c)]\<rparr>"
  show "app_step (Register f c) u ?v" using assms by (rule register_callback)
  have "?v\<lparr>app := Idle, callback_context := c\<rparr>
      = u\<lparr>callback := f, callback_context := c, registered := registered u @ [(f, c)]\<rparr>"
    using assms by (cases u) simp
  then have "app_step (Register f c) ?v
      (u\<lparr>callback := f, callback_context := c, registered := registered u @ [(f, c)]\<rparr>)"
    using register_context [of ?v c f] by simp
  then show "call_run (app_step (Register f c)) ?v
      (u\<lparr>callback := f, callback_context := c, registered := registered u @ [(f, c)]\<rparr>)"
    by (rule last_step) (simp add: between_calls_def assms)
qed (simp add: between_calls_def)

lemma enable_run:
  assumes "app u = Idle"
  shows "call_run (app_step Enable) u (u\<lparr>enabled := True, sem := if sem u = 0 then 1 else sem u\<rparr>)"
    (is "call_run _ _ ?t")
proof (rule inner_step [where R = "app_step Enable"])
  let ?v = "u\<lparr>app := Enabling, enabled := True\<rparr>"
  show "app_step Enable u ?v" using assms by (rule enable)
  show "call_run (app_step Enable) ?v ?t"
  proof (cases "sem u = 0")
    case True
    let ?w = "?v\<lparr>app := Posting\<rparr>"
    have "?w\<lparr>app := Idle, sem := sem ?w + 1\<rparr> = ?t" using assms True by (cases u) simp
    then have "app_step Enable ?w ?t" using enable_post [of ?w] by simp
    then have w: "call_run (app_step Enable) ?w ?t"
      by (rule last_step) (simp add: between_calls_def assms)
    have v: "app_step Enable ?v ?w" by (rule enable_asleep) (simp_all add: True)
    show ?thesis by (rule inner_step [where R = "app_step Enable", OF v _ w]) (simp add: between_calls_def)
  next
    case False
    have "?v\<lparr>app := Idle\<rparr> = ?t" using assms False by (cases u) simp
    then have "app_step Enable ?v ?t" using enable_awake [of ?v] False by simp
    then show ?thesis by (rule last_step) (simp add: between_calls_def assms)
  qed
qed (simp add: between_calls_def)

text \<open>An enable whose semaphore calls may fail leaves the semaphore alone when they do.\<close>

definition enable_or_fail :: "irq_state \<Rightarrow> irq_state \<Rightarrow> bool" where
  "enable_or_fail s t \<longleftrightarrow> app_step Enable s t \<or> app_error_step s t"

lemma enable_fails_run:
  assumes "app u = Idle"
  shows "call_run enable_or_fail u (u\<lparr>enabled := True\<rparr>)"
proof (rule inner_step [where R = enable_or_fail])
  let ?v = "u\<lparr>app := Enabling, enabled := True\<rparr>"
  show "enable_or_fail u ?v" using enable [OF assms] by (simp add: enable_or_fail_def)
  have "?v\<lparr>app := Idle\<rparr> = u\<lparr>enabled := True\<rparr>" using assms by (cases u) simp
  then have "enable_or_fail ?v (u\<lparr>enabled := True\<rparr>)"
    using getvalue_fails [of ?v] by (simp add: enable_or_fail_def)
  then show "call_run enable_or_fail ?v (u\<lparr>enabled := True\<rparr>)"
    by (rule last_step) (simp add: between_calls_def assms)
qed (simp add: between_calls_def)

lemma call_run_mono: "call_run R s t \<Longrightarrow> (\<And>s t. R s t \<Longrightarrow> R' s t) \<Longrightarrow> call_run R' s t"
  by (induction rule: call_run.induct) (auto intro: call_run.intros)

lemma disable_run:
  assumes "app u = Idle"
  shows "call_run (app_step Disable) u (u\<lparr>enabled := False\<rparr>)"
  using disable [OF assms] by (rule last_step) (simp add: between_calls_def assms)

lemma call_run_reachable: "call_run (app_step c) s t \<Longrightarrow> irq_reachable s \<Longrightarrow> irq_reachable t"
  by (induction rule: call_run.induct) (auto intro: irq_reachable.app)

section \<open>Executions\<close>

text \<open>The application makes the calls of a list, one after the other; the thread makes any number of steps
  before, between, during and after them.\<close>

inductive interleaved :: "irq_call list \<Rightarrow> irq_state \<Rightarrow> irq_state \<Rightarrow> bool" where
  at_rest: "interleaved [] s s"
| thread_runs: "thread_step s t \<Longrightarrow> interleaved cs t u \<Longrightarrow> interleaved cs s u"
| call_goes_on: "app_step c s t \<Longrightarrow> \<not> between_calls (app t) \<Longrightarrow> interleaved (c # cs) t u \<Longrightarrow>
    interleaved (c # cs) s u"
| call_ends: "app_step c s t \<Longrightarrow> between_calls (app t) \<Longrightarrow> interleaved cs t u \<Longrightarrow>
    interleaved (c # cs) s u"

lemma interleaved_reachable: "interleaved cs s t \<Longrightarrow> irq_reachable s \<Longrightarrow> irq_reachable t"
  by (induction rule: interleaved.induct) (auto intro: irq_reachable.intros)

lemma interleaved_by:
  "interleaved cs s t \<Longrightarrow> irq_reachable_by P s \<Longrightarrow> list_all P cs \<Longrightarrow> irq_reachable_by P t"
  by (induction rule: interleaved.induct) (auto intro: irq_reachable_by.intros)

lemma interleaved_append:
  "interleaved cs s t \<Longrightarrow> interleaved ds t u \<Longrightarrow> interleaved (cs @ ds) s u"
  by (induction rule: interleaved.induct) (auto intro: interleaved.intros)

lemma interleaved_thread: "thread_step\<^sup>*\<^sup>* s t \<Longrightarrow> interleaved [] s t"
  by (induction rule: converse_rtranclp_induct) (auto intro: interleaved.intros)

lemma interleaved_call: "call_run (app_step c) s t \<Longrightarrow> interleaved [c] s t"
  by (induction rule: call_run.induct) (auto intro: interleaved.intros)

lemma reachable_thread_steps: "thread_step\<^sup>*\<^sup>* s t \<Longrightarrow> irq_reachable s \<Longrightarrow> irq_reachable t"
  by (induction rule: rtranclp_induct) (auto intro: irq_reachable.intros)

lemma two_steps: "r s t \<Longrightarrow> r t u \<Longrightarrow> r\<^sup>*\<^sup>* s u"
  by (meson r_into_rtranclp rtranclp.rtrancl_into_rtrancl)

text \<open>The calls of the ISR only accumulate.\<close>

lemma isr_calls_grow: "interleaved cs s t \<Longrightarrow> \<exists>xs. isr_calls t = isr_calls s @ xs"
proof (induction rule: interleaved.induct)
  case (thread_runs s t cs u)
  then show ?case by (auto elim!: thread_stepE)
next
  case (call_goes_on c s t cs u)
  then show ?case by (auto elim!: app_stepE)
next
  case (call_ends c s t cs u)
  then show ?case by (auto elim!: app_stepE)
qed simp

text \<open>While the application does not enable the interrupt, the thread opens nothing and calls nothing.\<close>

definition never_enabled :: "irq_state \<Rightarrow> bool" where
  "never_enabled s \<longleftrightarrow> \<not> enabled s \<and> isr_calls s = [] \<and> open_fds s = []
     \<and> (thread s = At_lock \<or> (\<exists>f. thread s = Flags_read f) \<or> thread s = Test_enable
        \<or> thread s = Before_wait \<or> (\<exists>ok. thread s = Done ok))
     \<and> app s \<noteq> Enabling \<and> app s \<noteq> Posting \<and> (\<not> exit_flag s \<longrightarrow> sem s = 0)
     \<and> (app s = Joining \<or> app s = Joined \<or> app s = Exit_flag_set \<longrightarrow> exit_flag s)"

lemma disabled_thread: "irq_reachable_by (\<lambda>c. c \<noteq> Enable) s \<Longrightarrow> never_enabled s"
proof (induction rule: irq_reachable_by.induct)
  case start_by
  then show ?case by (simp add: never_enabled_def irq_start_def)
next
  case (thread_by s t)
  from thread_by(2,3) show ?case by (elim thread_stepE) (auto simp: never_enabled_def)
next
  case (app_by s c t)
  from app_by(2-4) show ?case by (elim app_stepE) (auto simp: never_enabled_def)
qed

text \<open>A thread that finds the interrupt enabled and an event pending reaches the test of the ISR.\<close>

lemma thread_to_interrupted:
  assumes "thread s = At_lock" and "\<not> exit_flag s" and "enabled s" and "0 \<le> fd"
    and "fd \<notin> set (open_fds s)"
  shows "thread_step\<^sup>*\<^sup>* s (s\<lparr>thread := Interrupted fd, open_fds := fd # open_fds s\<rparr>)"
proof -
  let ?b = "s\<lparr>thread := Test_enable\<rparr>"
  let ?c = "s\<lparr>thread := Opened fd, open_fds := fd # open_fds s\<rparr>"
  let ?d = "?c\<lparr>thread := Armed fd\<rparr>"
  have "thread_step\<^sup>*\<^sup>* s ?b"
    using two_steps [of thread_step, OF rdlock [OF assms(1)] unlock] assms(2) by simp
  also have "thread_step ?b ?c" using open_uio [of ?b fd] assms(3-5) by simp
  also have "thread_step ?c ?d" by (rule write_arm) simp
  also have "thread_step ?d (?d\<lparr>thread := Interrupted fd\<rparr>)" by (rule poll_event) simp
  also have "?d\<lparr>thread := Interrupted fd\<rparr> = s\<lparr>thread := Interrupted fd, open_fds := fd # open_fds s\<rparr>"
    by (cases s) simp
  finally show ?thesis .
qed

text \<open>From the test on: the ISR that is stored is called with the context that is stored.\<close>

lemma thread_calls:
  assumes "thread s = Interrupted fd" and "callback s \<noteq> 0"
  shows "thread_step\<^sup>*\<^sup>* s (s\<lparr>thread := Isr_returned fd,
     isr_calls := isr_calls s @ [(callback s, callback_context s)]\<rparr>)"
proof -
  let ?b = "s\<lparr>thread := Isr_loaded fd (callback s)\<rparr>"
  have "thread_step\<^sup>*\<^sup>* s ?b"
    using two_steps [of thread_step, OF some_isr [OF assms] load_isr [of _ fd]] by simp
  also have "thread_step ?b (s\<lparr>thread := Isr_returned fd,
      isr_calls := isr_calls s @ [(callback s, callback_context s)]\<rparr>)"
    using call_isr [of ?b fd "callback s"] by simp
  finally show ?thesis .
qed

end
