(* ===== verification/Interrupt_Properties.thy ===== *)
theory Interrupt_Properties
  imports Uio_Interrupts Demo_Platforms
begin

text \<open>
  The properties of the UIO interrupt thread next to the application, \<open>uio_interrupt_thread\<close> in
  \<open>uio/src/intel_fpga_platform_api_uio.c\<close> and \<open>uio/src/intel_fpga_api_uio.c\<close>: for every
  interleaving of the two.
\<close>

section \<open>Executions that reach the corners\<close>

text \<open>The first steps: the application registers and enables, the thread gets as far as the test of the
  ISR.\<close>

definition after_enable :: "u64 \<Rightarrow> u64 \<Rightarrow> irq_state" where
  "after_enable f c = irq_start\<lparr>callback := f, callback_context := c, registered := [(0, 0), (f, c)],
     enabled := True, sem := 1\<rparr>"

lemma after_enable_interleaved: "interleaved [Register f c, Enable] irq_start (after_enable f c)"
proof -
  let ?u = "irq_start\<lparr>callback := f, callback_context := c, registered := registered irq_start @ [(f, c)]\<rparr>"
  have "interleaved [Register f c] irq_start ?u"
    by (intro interleaved_call register_run) (simp add: irq_start_def)
  moreover have "interleaved [Enable] ?u (?u\<lparr>enabled := True, sem := if sem ?u = 0 then 1 else sem ?u\<rparr>)"
    by (intro interleaved_call enable_run) (simp add: irq_start_def)
  moreover have "?u\<lparr>enabled := True, sem := if sem ?u = 0 then 1 else sem ?u\<rparr> = after_enable f c"
    by (simp add: after_enable_def irq_start_def)
  ultimately show ?thesis using interleaved_append [of "[Register f c]" irq_start ?u "[Enable]"] by simp
qed

lemma after_enable_reachable: "irq_reachable (after_enable f c)"
  by (rule interleaved_reachable [OF after_enable_interleaved irq_reachable.start])

definition at_test :: "int \<Rightarrow> u64 \<Rightarrow> u64 \<Rightarrow> irq_state" where
  "at_test fd f c = (after_enable f c)\<lparr>thread := Interrupted fd, open_fds := [fd]\<rparr>"

lemma at_test_reachable: "0 \<le> fd \<Longrightarrow> irq_reachable (at_test fd f c)"
  using reachable_thread_steps [OF thread_to_interrupted [of "after_enable f c" fd] after_enable_reachable]
  by (simp add: after_enable_def irq_start_def at_test_def)

section \<open>Sleeping and waking\<close>

text \<open>C10: No lost wake-up.  Whenever the interrupt is enabled, the application is not in the middle of a
  call, and the thread is about to wait on the semaphore, the semaphore is up: the wait comes back and
  the thread goes on to look at the enable flag again, however the calls and the thread interleave.\<close>

theorem no_lost_wakeup:
  assumes "irq_reachable s" and "enabled s" and "app s = Idle" and "thread s = Before_wait"
  shows "0 < sem s \<and> thread_step s (s\<lparr>thread := At_lock, sem := sem s - 1\<rparr>)"
proof -
  have "0 < sem s" using wakeup [OF assms(1)] assms(2-4) by (simp add: wakeup_inv_def)
  then show ?thesis using sem_wait [OF assms(4)] by simp
qed

text \<open>A thread that saw the interrupt disabled before it was enabled.\<close>

definition raced :: irq_state where
  "raced = irq_start\<lparr>thread := Before_wait, enabled := True, sem := 1\<rparr>"

lemma raced_reachable: "irq_reachable raced"
proof -
  let ?a = "irq_start\<lparr>thread := Flags_read False\<rparr>"
  let ?b = "irq_start\<lparr>thread := Test_enable\<rparr>" and ?c = "irq_start\<lparr>thread := Before_wait\<rparr>"
  have 1: "thread_step irq_start ?a" using rdlock [of irq_start] by (simp add: irq_start_def)
  have 2: "thread_step ?a ?b" using unlock [of ?a] by simp
  have 3: "thread_step ?b ?c" using not_enabled [of ?b] by (simp add: irq_start_def)
  have "irq_reachable ?c"
    by (rule irq_reachable.thread [OF irq_reachable.thread [OF irq_reachable.thread
      [OF irq_reachable.start 1] 2] 3])
  moreover have "call_run (app_step Enable) ?c (?c\<lparr>enabled := True, sem := if sem ?c = 0 then 1 else sem ?c\<rparr>)"
    by (rule enable_run) (simp add: irq_start_def)
  ultimately show ?thesis
    using call_run_reachable [of Enable ?c] by (simp add: raced_def irq_start_def)
qed

lemma no_lost_wakeup_witness: "0 < sem raced \<and> thread raced = Before_wait"
  using no_lost_wakeup [OF raced_reachable] by (simp add: raced_def irq_start_def)

text \<open>C9: The cleanup ends the thread.  Once the cleanup waits for the thread, the thread makes at most
  ten more steps, never blocks on the semaphore on the way, and stops only when it is done; so the join
  comes back.\<close>

theorem cleanup_ends_thread:
  assumes "irq_reachable s" and "app s = Joining" and "(thread_step ^^ n) s t"
  shows "n \<le> 10 \<and> (thread t = Before_wait \<longrightarrow> 0 < sem t)
    \<and> ((\<exists>ok. thread t = Done ok) \<or> (\<exists>u. thread_step t u))"
proof -
  have flag: "exit_flag s" using wakeup [OF assms(1)] assms(2) by (simp add: wakeup_inv_def cleaning_def)
  have "n + steps_left (thread t) \<le> 10"
    using thread_steps_left [OF assms(3) flag] steps_left_le [of "thread s"] by simp
  moreover have "irq_reachable t \<and> app t = Joining"
    using assms(3)
  proof (induction n arbitrary: t)
    case (Suc n)
    then obtain u where "irq_reachable u \<and> app u = Joining" and ut: "thread_step u t" by auto
    then show ?case by (auto intro: irq_reachable.thread elim: thread_stepE)
  qed (use assms in simp)
  then have t: "irq_reachable t" "app t = Joining" by simp_all
  have sem: "thread t = Before_wait \<longrightarrow> 0 < sem t"
    using wakeup [OF t(1)] t(2) by (simp add: wakeup_inv_def stale_def)
  moreover have "(\<exists>ok. thread t = Done ok) \<or> (\<exists>u. thread_step t u)"
  proof (cases "thread t")
    case Before_wait
    with sem sem_wait [of t] show ?thesis by blast
  qed (blast intro: thread_step.intros)+
  ultimately show ?thesis by simp
qed

text \<open>The application in the join while the thread is at its lock.\<close>

definition joining :: irq_state where
  "joining = irq_start\<lparr>app := Joining, exit_flag := True, sem := 1\<rparr>"

lemma joining_reachable: "irq_reachable joining"
proof -
  let ?a = "irq_start\<lparr>app := Exit_flag_set, exit_flag := True\<rparr>"
  have "app_step Cleanup irq_start ?a"
    using cleanup_flag [of irq_start] by (simp add: irq_start_def holds_lock_def)
  moreover have "app_step Cleanup ?a joining"
    using cleanup_post [of ?a] by (simp add: joining_def irq_start_def)
  ultimately show ?thesis by (meson irq_reachable.intros)
qed

lemma joining_two_steps: "(thread_step ^^ 2) joining (joining\<lparr>thread := Done True\<rparr>)"
proof -
  let ?a = "joining\<lparr>thread := Flags_read True\<rparr>"
  have "thread_step joining ?a" using rdlock [of joining] by (simp add: joining_def irq_start_def)
  moreover have "thread_step ?a (joining\<lparr>thread := Done True\<rparr>)" using unlock_exit [of ?a] by simp
  ultimately show ?thesis by (auto simp: numeral_2_eq_2)
qed

lemma cleanup_ends_thread_witness:
  "(thread_step ^^ 2) joining (joining\<lparr>thread := Done True\<rparr>) \<and> (2::nat) \<le> 10
   \<and> ((\<exists>ok. thread (joining\<lparr>thread := Done True\<rparr>) = Done ok)
      \<or> (\<exists>u. thread_step (joining\<lparr>thread := Done True\<rparr>) u))"
proof -
  have "app joining = Joining" by (simp add: joining_def)
  from cleanup_ends_thread [OF joining_reachable this joining_two_steps] joining_two_steps
  show ?thesis by blast
qed

section \<open>Resources\<close>

text \<open>What becomes of a descriptor.\<close>

lemma own_descriptor_closed:
  assumes "fds_inv s" and "fd \<in> pc_fd (thread s)" and "thread_step s t" and "thread t = Done ok"
  shows "fd \<notin> set (open_fds t)"
  using assms(3,1,2,4) by (elim thread_stepE) (auto simp: pc_fd_def fds_inv_def)

lemma zero_stays:
  assumes "0 \<in> set (open_fds s)" and "0 \<notin> pc_fd (thread s)" and "thread_step s t \<or> (\<exists>c. app_step c s t)"
  shows "0 \<in> set (open_fds t) \<and> 0 \<notin> pc_fd (thread t)"
  using assms(3)
proof
  assume "thread_step s t"
  then show ?thesis using assms(1,2) by (elim thread_stepE) (auto simp: pc_fd_def)
next
  assume "\<exists>c. app_step c s t"
  then obtain c where "app_step c s t" ..
  then show ?thesis using assms(1,2) by (elim app_stepE) auto
qed

lemma zero_left_open: "\<exists>u. irq_reachable u \<and> thread u = At_lock \<and> open_fds u = [0]"
proof -
  have "irq_reachable ((at_test 0 1 0)\<lparr>thread := Isr_returned 0,
      isr_calls := isr_calls (at_test 0 1 0) @ [(callback (at_test 0 1 0), callback_context (at_test 0 1 0))]\<rparr>)"
    (is "irq_reachable ?v")
    by (rule reachable_thread_steps [OF thread_calls at_test_reachable])
      (simp_all add: at_test_def after_enable_def)
  moreover have "thread_step ?v (?v\<lparr>thread := At_lock,
      open_fds := if (0::int) > 0 then remove1 0 (open_fds ?v) else open_fds ?v\<rparr>)"
    by (rule close_fd) simp
  ultimately show ?thesis
    using irq_reachable.thread [of ?v] by (fastforce simp: at_test_def)
qed

text \<open>C36: Bounds.  The semaphore is at most one until the cleanup posts it, and at most two after.  The
  descriptors that are open are the one the thread works with and possibly 0.  When the thread stops, its
  own descriptor has been closed, whatever its value.  But the end of a round closes the descriptor only
  if it is positive: a round that was given 0 leaves it open, and then it stays open in every later
  step.\<close>

theorem irq_resources:
  assumes "irq_reachable s"
  shows "sem s \<le> (if app s = Joining \<or> app s = Joined then 2 else 1)
    \<and> distinct (open_fds s) \<and> set (open_fds s) \<subseteq> insert 0 (pc_fd (thread s))
    \<and> (\<forall>ok. thread s = Done ok \<longrightarrow> set (open_fds s) \<subseteq> {0})
    \<and> (\<forall>fd t ok. fd \<in> pc_fd (thread s) \<and> thread_step s t \<and> thread t = Done ok
        \<longrightarrow> fd \<notin> set (open_fds t))
    \<and> (\<exists>u. irq_reachable u \<and> thread u = At_lock \<and> open_fds u = [0])
    \<and> (\<forall>t. 0 \<in> set (open_fds s) \<and> 0 \<notin> pc_fd (thread s) \<and> (thread_step s t \<or> (\<exists>c. app_step c s t))
        \<longrightarrow> 0 \<in> set (open_fds t) \<and> 0 \<notin> pc_fd (thread t))"
proof (intro conjI allI impI)
  show "sem s \<le> (if app s = Joining \<or> app s = Joined then 2 else 1)"
    using sem_bounded [OF assms] by (simp add: sem_inv_def)
  have inv: "fds_inv s" by (rule fds [OF assms])
  then show "distinct (open_fds s)" and sub: "set (open_fds s) \<subseteq> insert 0 (pc_fd (thread s))"
    by (simp_all add: fds_inv_def)
  show "set (open_fds s) \<subseteq> {0}" if "thread s = Done ok" for ok
    using sub that by (simp add: pc_fd_def)
  show "fd \<notin> set (open_fds t)"
    if "fd \<in> pc_fd (thread s) \<and> thread_step s t \<and> thread t = Done ok" for fd t ok
    using own_descriptor_closed [OF inv] that by blast
  show "\<exists>u. irq_reachable u \<and> thread u = At_lock \<and> open_fds u = [0]" by (rule zero_left_open)
qed (use zero_stays in blast)+

lemma irq_resources_witness: "sem raced \<le> 1"
  using irq_resources [OF raced_reachable] by (simp add: raced_def irq_start_def)

section \<open>The calls of the ISR\<close>

text \<open>What the thread calls.  Every function it calls and every argument it passes was given in some
  registration, and it never calls null as long as the application does not register null.\<close>

lemma isr_calls_registered:
  assumes "irq_reachable s" and "(f, c) \<in> set (isr_calls s)"
  shows "f \<in> fst ` set (registered s) \<and> c \<in> snd ` set (registered s)
    \<and> (0 \<notin> fst ` set (tl (registered s)) \<longrightarrow> f \<noteq> 0)"
  using calls_from_registered [OF assms(1)] no_null_calls [OF assms(1)] assms(2)
  by (auto simp: from_registered_def no_null_def)

lemma isr_called:
  "irq_reachable ((at_test 3 f c)\<lparr>thread := Isr_returned 3, isr_calls := [(f, c)]\<rparr>)" if "f \<noteq> 0"
proof -
  have "irq_reachable ((at_test 3 f c)\<lparr>thread := Isr_returned 3,
      isr_calls := isr_calls (at_test 3 f c) @ [(callback (at_test 3 f c), callback_context (at_test 3 f c))]\<rparr>)"
    by (rule reachable_thread_steps [OF thread_calls at_test_reachable])
      (use that in \<open>simp_all add: at_test_def after_enable_def\<close>)
  then show ?thesis by (simp add: at_test_def after_enable_def irq_start_def)
qed

lemma isr_calls_registered_witness:
  "\<exists>s. irq_reachable s \<and> isr_calls s = [(1, 7)] \<and> 1 \<in> fst ` set (registered s)"
proof -
  let ?s = "(at_test 3 1 7)\<lparr>thread := Isr_returned 3, isr_calls := [(1, 7)]\<rparr>"
  have r: "irq_reachable ?s" by (rule isr_called) simp
  have "1 \<in> fst ` set (registered ?s)"
    by (rule isr_calls_registered [OF r, of 1 7, THEN conjunct1]) simp
  with r show ?thesis by (intro exI [of _ ?s]) simp
qed

text \<open>C37: What is not guaranteed.  The two members of a registration are stored and loaded one by one, so
  the thread can call the new function with the old argument, a pair that was never registered; and it
  can still call the ISR after the application has disabled the interrupt and the call has come
  back.\<close>

theorem isr_races:
  assumes "f \<noteq> 0" and "f' \<noteq> 0" and "f \<noteq> f'" and "c \<noteq> c'"
  shows "(\<exists>s. irq_reachable s \<and> registered s = [(0, 0), (f, c), (f', c')]
        \<and> isr_calls s = [(f', c)] \<and> (f', c) \<notin> set (registered s))
    \<and> (\<exists>s t. irq_reachable s \<and> app s = Idle \<and> \<not> enabled s \<and> thread_step s t
        \<and> isr_calls t \<noteq> isr_calls s)"
proof (intro conjI)
  let ?a = "at_test 3 f c"
  let ?b = "?a\<lparr>app := Registering c', callback := f', registered := registered ?a @ [(f', c')]\<rparr>"
  have "app_step (Register f' c') ?a ?b" by (rule register_callback) (simp add: at_test_def after_enable_def irq_start_def)
  then have b: "irq_reachable ?b" using at_test_reachable [of 3 f c] by (meson irq_reachable.app zero_le_numeral)
  have "thread_step\<^sup>*\<^sup>* ?b (?b\<lparr>thread := Isr_returned 3,
      isr_calls := isr_calls ?b @ [(callback ?b, callback_context ?b)]\<rparr>)"
    by (rule thread_calls) (use assms(2) in \<open>simp_all add: at_test_def\<close>)
  from reachable_thread_steps [OF this b] show "\<exists>s. irq_reachable s
      \<and> registered s = [(0, 0), (f, c), (f', c')]
      \<and> isr_calls s = [(f', c)] \<and> (f', c) \<notin> set (registered s)"
    by (intro exI conjI) (use assms in \<open>auto simp: at_test_def after_enable_def irq_start_def\<close>)
next
  let ?a = "(at_test 3 f c)\<lparr>thread := Isr_loaded 3 f\<rparr>" and ?b = "(at_test 3 f c)\<lparr>thread := Isr_tested 3\<rparr>"
  have "thread_step (at_test 3 f c) ?b"
    using some_isr [of "at_test 3 f c" 3] assms(1) by (simp add: at_test_def after_enable_def)
  moreover have "thread_step ?b ?a"
    using load_isr [of ?b 3] by (simp add: at_test_def after_enable_def)
  ultimately have a: "irq_reachable ?a" using at_test_reachable [of 3] by (meson irq_reachable.thread zero_le_numeral)
  let ?d = "?a\<lparr>enabled := False\<rparr>"
  have "app_step Disable ?a ?d" by (rule disable) (simp add: at_test_def after_enable_def irq_start_def)
  then have d: "irq_reachable ?d" by (rule irq_reachable.app [OF a])
  have "thread_step ?d (?d\<lparr>thread := Isr_returned 3, isr_calls := isr_calls ?d @ [(f, callback_context ?d)]\<rparr>)"
    by (rule call_isr) simp
  with d show "\<exists>s t. irq_reachable s \<and> app s = Idle \<and> \<not> enabled s \<and> thread_step s t
      \<and> isr_calls t \<noteq> isr_calls s"
    by (intro exI [of _ ?d] exI conjI) (auto simp: at_test_def after_enable_def irq_start_def)
qed

lemma isr_races_witness:
  "\<exists>s. irq_reachable s \<and> registered s = [(0, 0), (1, 5), (2, 6)] \<and> isr_calls s = [(2, 5)]"
  using isr_races [of 1 2 5 6] by auto

section \<open>The sequential functions\<close>

text \<open>C21: The functions of the sequential model are the calls of the step relation.  On handle 0 of a
  table with entries, \<open>fpga_register_isr\<close>, \<open>fpga_enable_interrupt\<close> (when the semaphore works) and
  \<open>fpga_disable_interrupt\<close> each change what the thread shares with the application (the semaphore, the
  enable flag, the pointer and the argument of the ISR) exactly as the steps of that one call do, from its
  first to its last; an enable whose semaphore calls may fail does what those steps do together with the
  error branches.\<close>

theorem api_refines_steps:
  assumes "vec_inv s" and "0 < vec_size s" and "irq_view s u"
  shows "wp (fpga_register_isr 0 f c) (\<lambda>r t. \<exists>v. call_run (app_step (Register f c)) u v \<and> irq_view t v) s
    \<and> (os_result (os s) (os_calls s) Sem_getvalue = 0
        \<and> os_result (os s) (os_calls s @ [Sem_getvalue]) Sem_post = 0 \<longrightarrow>
       wp (fpga_enable_interrupt 0) (\<lambda>r t. \<exists>v. call_run (app_step Enable) u v \<and> irq_view t v) s)
    \<and> wp (fpga_enable_interrupt 0) (\<lambda>r t. \<exists>v. call_run enable_or_fail u v \<and> irq_view t v) s
    \<and> wp (fpga_disable_interrupt 0) (\<lambda>r t. \<exists>v. call_run (app_step Disable) u v \<and> irq_view t v) s"
proof (intro conjI impI)
  have idle: "app u = Idle" and sem: "int (sem u) = g_intSem s" using assms(3) by (simp_all add: irq_view_def)
  have h: "0 \<le> (0::int)" "(0::int) \<le> INT_MAX" "nat 0 < vec_size s" using assms(2) by simp_all
  note view = irq_view_entry [OF assms(3) _ assms(2,1)]
  show "wp (fpga_register_isr 0 f c) (\<lambda>r t. \<exists>v. call_run (app_step (Register f c)) u v \<and> irq_view t v) s"
  proof (rule wp_mono [OF wp_register_isr [OF assms(1) h]])
    fix r t
    assume t: "only_entry s (nat 0) (\<lambda>x. x\<lparr>isr_callback := f, isr_context := c\<rparr>) t
      \<and> g_intSem t = g_intSem s \<and> r = (if isr_callback (vec_abs s ! nat 0) \<noteq> 0 then 1 else 0)"
    then have "irq_view t (u\<lparr>callback := f, callback_context := c, registered := registered u @ [(f, c)]\<rparr>)"
      using idle sem assms(3)
      by (intro view [where f = "\<lambda>x. x\<lparr>isr_callback := f, isr_context := c\<rparr>"])
        (simp_all add: irq_view_def)
    with register_run [OF idle, of f c] show "\<exists>v. call_run (app_step (Register f c)) u v \<and> irq_view t v" by blast
  qed
  show "wp (fpga_disable_interrupt 0) (\<lambda>r t. \<exists>v. call_run (app_step Disable) u v \<and> irq_view t v) s"
  proof (rule wp_mono [OF wp_disable_interrupt [OF assms(1) h]])
    fix r t
    assume t: "only_entry s (nat 0) (\<lambda>x. x\<lparr>interrupt_enable := False\<rparr>) t \<and> r = 0
      \<and> g_intSem t = g_intSem s"
    then have "irq_view t (u\<lparr>enabled := False\<rparr>)"
      using idle sem assms(3)
      by (intro view [where f = "\<lambda>x. x\<lparr>interrupt_enable := False\<rparr>"]) (simp_all add: irq_view_def)
    with disable_run [OF idle] show "\<exists>v. call_run (app_step Disable) u v \<and> irq_view t v" by blast
  qed
  have posted: "irq_view t (u\<lparr>enabled := True, sem := if sem u = 0 then 1 else sem u\<rparr>)"
    if "only_entry s (nat 0) (\<lambda>x. x\<lparr>interrupt_enable := True\<rparr>) t"
      "g_intSem t = (if g_intSem s \<le> 0 then g_intSem s + 1 else g_intSem s)" for t
    using that idle sem assms(3)
    by (intro view [where f = "\<lambda>x. x\<lparr>interrupt_enable := True\<rparr>"]) (auto simp: irq_view_def)
  have unposted: "irq_view t (u\<lparr>enabled := True\<rparr>)"
    if "only_entry s (nat 0) (\<lambda>x. x\<lparr>interrupt_enable := True\<rparr>) t" "g_intSem t = g_intSem s" for t
    using that idle sem assms(3)
    by (intro view [where f = "\<lambda>x. x\<lparr>interrupt_enable := True\<rparr>"]) (auto simp: irq_view_def)
  note runs = enable_run [OF idle] enable_fails_run [OF idle]
  show "wp (fpga_enable_interrupt 0) (\<lambda>r t. \<exists>v. call_run enable_or_fail u v \<and> irq_view t v) s"
  proof (rule wp_mono [OF wp_enable_exact [OF assms(1) h]])
    fix r t
    assume t: "only_entry s (nat 0) (\<lambda>x. x\<lparr>interrupt_enable := True\<rparr>) t \<and> r = 0
      \<and> g_intSem t = (if os_result (os s) (os_calls s) Sem_getvalue = 0
         \<and> os_result (os s) (os_calls s @ [Sem_getvalue]) Sem_post = 0 \<and> g_intSem s \<le> 0
         then g_intSem s + 1 else g_intSem s)"
    have "call_run enable_or_fail u (u\<lparr>enabled := True, sem := if sem u = 0 then 1 else sem u\<rparr>)"
      by (rule call_run_mono [OF runs(1)]) (simp add: enable_or_fail_def)
    with t runs(2) posted [of t] unposted [of t] show "\<exists>v. call_run enable_or_fail u v \<and> irq_view t v"
      by (auto split: if_splits)
  qed
  assume ok: "os_result (os s) (os_calls s) Sem_getvalue = 0
        \<and> os_result (os s) (os_calls s @ [Sem_getvalue]) Sem_post = 0"
  show "wp (fpga_enable_interrupt 0) (\<lambda>r t. \<exists>v. call_run (app_step Enable) u v \<and> irq_view t v) s"
    by (rule wp_mono [OF wp_enable_exact [OF assms(1) h]]) (use ok runs(1) posted in auto)
qed

lemma api_refines_steps_witness:
  "wp (fpga_enable_interrupt 0) (\<lambda>r t. \<exists>v. call_run (app_step Enable) irq_start v \<and> irq_view t v)
     (register_process Native_64)"
proof -
  let ?s = "register_process Native_64"
  have "vec_inv ?s" by (simp add: vec_inv_def)
  moreover have "vec_abs ?s = [single_entry 0x1000]" by (simp add: vec_abs_def)
  then have "irq_view ?s irq_start"
    by (simp add: irq_view_def irq_start_def single_entry_def zero_info_def)
      (simp add: register_process_def uio_process_def)
  moreover have "os ?s = demo_os" "os_calls ?s = []"
    by (simp_all add: register_process_def uio_process_def)
  ultimately show ?thesis using api_refines_steps [of ?s irq_start] by (simp add: demo_os_def)
qed

end
