(* ===== verification/Uio_Interrupt_Main.thy ===== *)
theory Uio_Interrupt_Main
  imports Uio_Interrupts
begin

text \<open>
  The program \<open>uio/test/interrupt/main.c\<close>: it starts the UIO platform, registers an ISR, enables the
  interrupt, waits, disables it and ends.  The ISR is called by the interrupt thread of
  \<open>Uio_Interrupts\<close>.  It prints a line and increments a counter, which nothing else touches until the
  thread has been joined, so what matters of its calls for \<open>main\<close> is how many of them come before,
  between and after the lines that \<open>main\<close> prints; these three numbers are arguments, and
  \<open>Uio_Properties\<close> takes them from an execution of the two threads.  \<open>sleep\<close> changes nothing.
\<close>

section \<open>The program\<close>

record interrupt_test_state = uio_state +
  isr_count :: int

type_synonym ('e, 'a) itest = "('a, 'e interrupt_test_state_scheme) prog"

definition print_std :: "string \<Rightarrow> msg_arg list \<Rightarrow> ('e, unit) cmn" where
  "print_std fmt args = bnd (vprintf fmt args) (\<lambda>_. ret ())"

definition argv_valid :: "string list" where
  "argv_valid = [''--single-component-mode'', ''--uio-driver-path=/dev/uio0'', ''--address-span=4096'']"

definition my_isr :: "('e, unit) itest" where
  "my_isr =
     thn (print_std ''UIO interrupt triggered by user.\<newline>'' [])
    (bnd (gets isr_count) (\<lambda>n.
     bnd (int_succ n) (\<lambda>m. modify (\<lambda>s. s\<lparr>isr_count := m\<rparr>))))"

text \<open>The thread calls the ISR \<open>n\<close> times.\<close>

fun isr_runs :: "nat \<Rightarrow> ('e, unit) itest" where
  "isr_runs 0 = ret ()"
| "isr_runs (Suc n) = thn my_isr (isr_runs n)"

text \<open>What \<open>main\<close> does after a successful start: \<open>isr\<close> is the address of the ISR, and the thread calls
  it \<open>n0\<close> times before the line about the enabled interrupt is printed, \<open>n1\<close> times from then on until
  the line about the disabled one, and \<open>n2\<close> times after that, until it is joined.\<close>

definition session :: "u64 \<Rightarrow> nat \<Rightarrow> nat \<Rightarrow> nat \<Rightarrow> ('e, int) itest" where
  "session isr n0 n1 n2 =
     bnd (fpga_open 0) (\<lambda>m_handle.
     if m_handle = INVALID_HANDLE then thn (print_std ''Test Error: fpga_open\<newline>'' []) (ret (-1))
     else
       bnd (fpga_register_isr m_handle isr 0) (\<lambda>_.
       bnd (fpga_enable_interrupt m_handle) (\<lambda>_.
       thn (isr_runs n0)
      (thn (print_std ''UIO interrupt enabled. Please trigger at least 1 interrupt within 20s.\<newline>'' [])
      (thn (isr_runs n1)
      (bnd (fpga_disable_interrupt m_handle) (\<lambda>_.
       thn (print_std ''UIO interrupt disabled\<newline>'' [])
      (thn (isr_runs n2)
      (thn (fpga_close 0)
      (thn fpga_platform_cleanup
      (bnd (gets isr_count) (\<lambda>isr_count.
       thn (if isr_count > 0
            then print_std ''Interrupt test PASS. %d interrupt was triggered.\<newline>'' [Arg_int isr_count]
            else print_std ''Interrupt test FAIL. No interrupt was triggered.\<newline>'' [])
      (thn (print_std ''############################\<newline>'' [])
      (thn (print_std ''###End of interrupt test####\<newline>'' [])
      (thn (print_std ''############################\<newline>'' [])
           (ret 0))))))))))))))))"

definition uio_interrupt_main :: "nat \<Rightarrow> u64 \<Rightarrow> nat \<Rightarrow> nat \<Rightarrow> nat \<Rightarrow> ('e, int) itest" where
  "uio_interrupt_main fuel isr n0 n1 n2 =
     thn (print_std ''############################\<newline>'' [])
    (thn (print_std ''###Interrupt test started###\<newline>'' [])
    (thn (print_std ''############################\<newline>'' [])
    (thn (print_std ''Fpga platform init\<newline>'' [])
    (bnd (fpga_platform_init fuel argv_valid) (\<lambda>rc.
     if \<not> rc then thn (print_std ''Test Error: fpga_platform_init\<newline>'' []) (ret (-1))
     else session isr n0 n1 n2)))))"

lemma wp_print_std [wp_rules]:
  "wp (print_std fmt args) Q s = Q () (s\<lparr>out := out s @ [Stdout_vprintf fmt args]\<rparr>)"
  by (simp add: print_std_def wp_rules)

section \<open>Its arguments\<close>

lemma show_4096: "show_nat 4096 = ''4096''"
  by code_simp

lemma argv_options: "getopt_long uio_short_options uio_long_options argv_valid
    = [Opt_flag (CHR ''c''), Opt_arg (CHR ''p'') ''/dev/uio0'', Opt_arg (CHR ''s'') (show_nat 4096)]"
  unfolding show_4096 by code_simp

lemma parse_argv:
  fixes s :: "'e uio_state_scheme"
  assumes "errno s \<noteq> ERANGE" and "can_print s"
  shows "uio_parse_args argv_valid s = Ret () (s\<lparr>s_uio_single_component_mode := int (code_of (CHR ''c'')),
      s_uio_drv_path := Some ''/dev/uio0'', s_uio_addr_span := 4096\<rparr>)"
proof -
  let ?t = "s\<lparr>s_uio_single_component_mode := int (code_of (CHR ''c'')), s_uio_drv_path := Some ''/dev/uio0''\<rparr>"
  have "uio_parse_integer_arg ''Address span'' (show_nat 4096) ?t = Ret 4096 ?t"
    unfolding uio_parse_integer_arg_def
    using run_parse_show [of 4096 ?t "''Address span''"] assms by (simp add: LONG_MAX_def)
  then show ?thesis
    unfolding uio_parse_args_def argv_options uio_options.simps uio_option.simps
    by (simp add: run_rules)
qed

section \<open>A start with a thread\<close>

text \<open>Locks, semaphores and threads work.\<close>

definition locks_work :: "os_env \<Rightarrow> bool" where
  "locks_work osys \<longleftrightarrow> (\<forall>cs. (\<forall>c \<in> {Sem_init, Sem_getvalue, Sem_post, Rwlock_init, Rwlock_wrlock,
      Rwlock_unlock, Thread_create}. os_result osys cs c = 0) \<and> (\<forall>t. os_result osys cs (Thread_join t) = 0))"

lemma locks_workD:
  assumes "locks_work osys"
  shows "os_result osys cs Sem_init = 0" "os_result osys cs Sem_getvalue = 0"
    "os_result osys cs Sem_post = 0" "os_result osys cs Rwlock_init = 0"
    "os_result osys cs Rwlock_wrlock = 0" "os_result osys cs Rwlock_unlock = 0"
    "os_result osys cs Thread_create = 0" "os_result osys cs (Thread_join t) = 0"
  using assms by (simp_all add: locks_work_def)

definition create_calls :: "os_call list" where
  "create_calls = [Sem_init, Rwlock_init, Rwlock_wrlock, Rwlock_unlock, Thread_create]"

definition ready :: "u64 \<Rightarrow> int \<Rightarrow> os_call list \<Rightarrow> 'e uio_state_scheme \<Rightarrow> 'e uio_state_scheme \<Rightarrow> bool" where
  "ready b fd cs s t \<longleftrightarrow> vec_inv t \<and> vec_abs t = [single_entry b]
     \<and> live t - vec_blocks t = live s - vec_blocks s \<and> s_uio_drv_handle t = fd \<and> can_print t
     \<and> os t = os s \<and> os_calls t = os_calls s @ cs \<and> s_intThread_id t \<noteq> 0 \<and> g_intSem t = 0
     \<and> mem t = mem s \<and> env t = env s \<and> only_prints s t"

lemma wp_create_works:
  assumes "locks_work (os s)"
  shows "wp uio_create_interrupt_thread (\<lambda>r t. r \<and> os t = os s
      \<and> os_calls t = os_calls s @ create_calls \<and> can_print t = can_print s \<and> only_prints s t) s"
proof -
  have l: "os_result (os s) cs c = 0" if "c \<in> set create_calls" for cs c
    using locks_workD [OF assms] that by (auto simp: create_calls_def)
  show ?thesis
    by (simp add: uio_create_interrupt_thread_def wp_rules l create_calls_def only_prints_def called_def)
qed

lemma wp_bring_up_thread:
  fixes s :: "'e uio_state_scheme"
  assumes res: "uio_resources path fd p s" and pr: "can_print s"
    and mode: "s_uio_single_component_mode s \<noteq> 0" and inv: "vec_inv s" and empty: "vec_abs s = []"
    and ok: "allocs_ok s" and locks: "locks_work (os s)"
  shows "wp (uio_bring_up fuel) (\<lambda>r t. r \<and> ready (p + s_uio_start_addr s) fd
      ([Open path False, Mmap (s_uio_addr_span s) fd 0] @ create_calls) s t) s"
proof -
  let ?s = "mapped_state path fd p s"
  have inv': "vec_inv ?s" "vec_abs ?s = []" "vec_blocks ?s = vec_blocks s" "allocs_ok ?s" "can_print ?s"
    using inv empty ok pr vec_cong [of ?s s] by (simp_all add: allocs_ok_def mapped_state_def)
  show ?thesis
    unfolding wp_bring_up_mapped [OF res pr] wp_bnd [of "uio_scan_interfaces fuel"]
  proof (rule wp_mono [OF wp_scan_single [OF _ inv'(1,2,4)]])
    fix r and t :: "'e uio_state_scheme"
    assume t: "r \<and> vec_inv t \<and> vec_abs t = [single_entry (s_uio_mmap_ptr ?s + s_uio_start_addr ?s)]
      \<and> live t - vec_blocks t = live ?s - vec_blocks ?s
      \<and> (\<exists>v n r l al. t = ?s\<lparr>g_common_fpga_interface_info_vec := v,
              g_common_fpga_interface_info_vec_size := n,
              g_common_fpga_interface_info_vec_reserved := r, live := l, alloc_no := al\<rparr>)"
    then have f: "can_print t" "os t = os s" "s_uio_drv_handle t = fd"
      "os_calls t = os_calls s @ [Open path False, Mmap (s_uio_addr_span s) fd 0]"
      "s_uio_single_component_mode t \<noteq> 0" "mem t = mem s" "env t = env s" "only_prints s t"
      using inv'(5) mode by (auto simp: can_print_def mapped_state_def only_prints_def called_def)
    have "wp uio_create_interrupt_thread (\<lambda>c u. ready (p + s_uio_start_addr s) fd
        ([Open path False, Mmap (s_uio_addr_span s) fd 0] @ create_calls) s u) t"
    proof (rule wp_mono [OF wp_conj [OF wp_create_thread wp_create_works]])
      fix c and u :: "'e uio_state_scheme"
      assume u: "(vec u = vec t \<and> vec_size u = vec_size t \<and> vec_reserved u = vec_reserved t
        \<and> s_uio_drv_handle u = s_uio_drv_handle t \<and> live u = live t \<and> env u = env t \<and> mem u = mem t
        \<and> dfh_parent_stack u = dfh_parent_stack t \<and> s_uio_mmap_ptr u = s_uio_mmap_ptr t
        \<and> (\<not> c \<longrightarrow> s_intThread_id u = s_intThread_id t)
        \<and> (c \<longrightarrow> s_intThread_id u \<noteq> 0 \<and> s_intFlags u = 0 \<and> g_intSem u = 0))
        \<and> c \<and> os u = os t \<and> os_calls u = os_calls t @ create_calls \<and> can_print u = can_print t
        \<and> only_prints t u"
      then have "vec_inv u = vec_inv t" "vec_abs u = vec_abs t" "vec_blocks u = vec_blocks t"
        using vec_cong [of u t] by simp_all
      with t f u inv'(3) show "ready (p + s_uio_start_addr s) fd
        ([Open path False, Mmap (s_uio_addr_span s) fd 0] @ create_calls) s u"
        by (auto simp: ready_def intro: only_prints_trans)
    qed (use locks f in simp)
    with t f(5) show "wp (if \<not> r then
           bnd (gets s_uio_mmap_ptr) (\<lambda>p.
           bnd (gets s_uio_addr_span) (\<lambda>span.
           bnd (gets s_uio_drv_handle) (\<lambda>fd.
           thn (syscall_ignored (Munmap p span))
          (thn (syscall_ignored (Close fd)) (ret False)))))
         else
           bnd (gets s_uio_single_component_mode) (\<lambda>single.
           if single \<noteq> 0 then bnd uio_create_interrupt_thread (\<lambda>created. ret True)
           else ret True)) (\<lambda>r t. r \<and> ready (p + s_uio_start_addr s) fd
      ([Open path False, Mmap (s_uio_addr_span s) fd 0] @ create_calls) s t) t"
      by (simp add: wp_bnd wp_gets wp_ret_eta)
  qed (use mode in simp)
qed

text \<open>What \<open>main\<close> asks of its process and of the operating system, and its initialisation.\<close>

definition test_ready :: "int \<Rightarrow> u64 \<Rightarrow> 'e uio_state_scheme \<Rightarrow> bool" where
  "test_ready fd p s \<longleftrightarrow> can_print s \<and> errno s \<noteq> ERANGE \<and> vec_inv s \<and> vec_abs s = [] \<and> allocs_ok s
     \<and> locks_work (os s) \<and> 0 \<le> fd \<and> p \<noteq> MAP_FAILED
     \<and> os_result (os s) (os_calls s) (Open ''/dev/uio0'' False) = fd
     \<and> os_pointer (os s) (os_calls s @ [Open ''/dev/uio0'' False]) (Mmap 4096 fd 0) = p"

lemma test_ready_out:
  assumes "test_ready fd p s"
  shows "test_ready fd p (s\<lparr>out := ev\<rparr>)"
  using assms vec_cong [of "s\<lparr>out := ev\<rparr>" s] by (simp add: test_ready_def can_print_def allocs_ok_def)

lemma wp_test_init:
  fixes s :: "'e uio_state_scheme"
  assumes s: "test_ready fd p s"
  shows "wp (fpga_platform_init fuel argv_valid) (\<lambda>r t. r \<and> ready (p + s_uio_start_addr s) fd
      ([Open ''/dev/uio0'' False, Mmap 4096 fd 0] @ create_calls) s t) s"
proof -
  let ?s1 = "s\<lparr>s_uio_single_component_mode := int (code_of (CHR ''c'')),
      s_uio_drv_path := Some ''/dev/uio0'', s_uio_addr_span := 4096\<rparr>"
  have conf: "uio_configured argv_valid s ?s1"
    using s parse_argv [of s] by (simp add: uio_configured_def test_ready_def can_print_def)
  show ?thesis
  proof (rule wp_init_configured [OF conf])
    fix t
    assume "but_out (?s1\<lparr>s_uio_inThread_timeout := 100\<rparr>) t"
    then obtain ev where t: "t = ?s1\<lparr>s_uio_inThread_timeout := 100, out := out s @ ev\<rparr>"
      by (auto simp: but_out_def)
    then have vec: "vec_inv t = vec_inv s" "vec_abs t = vec_abs s" "vec_blocks t = vec_blocks s"
      using vec_cong [of t s] by simp_all
    have res: "uio_resources ''/dev/uio0'' fd p t" and pr: "can_print t"
      and mode: "s_uio_single_component_mode t \<noteq> 0" and inv: "vec_inv t" "vec_abs t = []"
      and ok: "allocs_ok t" and locks: "locks_work (os t)"
      using s vec by (simp_all add: t uio_resources_def test_ready_def can_print_def allocs_ok_def code_of_def)
    show "wp (uio_bring_up fuel) (\<lambda>r t. r \<and> ready (p + s_uio_start_addr s) fd
      ([Open ''/dev/uio0'' False, Mmap 4096 fd 0] @ create_calls) s t) t"
      by (rule wp_mono [OF wp_bring_up_thread [OF res pr mode inv ok locks]])
        (use vec in \<open>auto simp: ready_def t only_prints_def\<close>)
  qed
qed

section \<open>A session\<close>

definition std_line :: "string \<Rightarrow> out_event" where
  "std_line fmt = Stdout_vprintf fmt []"

definition isr_line :: out_event where
  "isr_line = std_line ''UIO interrupt triggered by user.\<newline>''"

definition verdict :: "int \<Rightarrow> out_event" where
  "verdict n =
     (if n > 0
      then Stdout_vprintf ''Interrupt test PASS. %d interrupt was triggered.\<newline>'' [Arg_int n]
      else std_line ''Interrupt test FAIL. No interrupt was triggered.\<newline>'')"

definition start_lines :: "out_event list" where
  "start_lines = [std_line ''############################\<newline>'', std_line ''###Interrupt test started###\<newline>'',
     std_line ''############################\<newline>'', std_line ''Fpga platform init\<newline>'']"

definition end_lines :: "out_event list" where
  "end_lines = [std_line ''############################\<newline>'', std_line ''###End of interrupt test####\<newline>'',
     std_line ''############################\<newline>'']"

text \<open>What \<open>main\<close> and its ISR print between the messages of the initialisation and of the cleanup.\<close>

definition session_lines :: "nat \<Rightarrow> nat \<Rightarrow> nat \<Rightarrow> out_event list" where
  "session_lines n0 n1 n2 =
     replicate n0 isr_line
     @ [std_line ''UIO interrupt enabled. Please trigger at least 1 interrupt within 20s.\<newline>'']
     @ replicate n1 isr_line @ [std_line ''UIO interrupt disabled\<newline>''] @ replicate n2 isr_line"

lemma wp_isr_runs:
  "isr_count s + int n \<le> INT_MAX \<Longrightarrow> wp (isr_runs n) Q s
    = Q () (s\<lparr>out := out s @ replicate n isr_line, isr_count := isr_count s + int n\<rparr>)"
proof (induction n arbitrary: s)
  case 0
  have "s\<lparr>out := out s, isr_count := isr_count s\<rparr> = s" by (cases s) simp
  then show ?case by (simp add: wp_ret)
next
  case (Suc n)
  then show ?case
    by (simp add: my_isr_def int_succ_def wp_rules std_line_def isr_line_def add.assoc)
qed

definition session_calls :: "nat \<Rightarrow> int \<Rightarrow> os_call list" where
  "session_calls tid fd = [Sem_getvalue, Sem_post] @ stop_calls tid @ [Close fd]"

text \<open>A table of one entry stays well formed and owns one block when the entry changes.\<close>

lemma table_of_one:
  assumes "vec_inv u" and "vec u = Some xs" and "vec_size u = 1" and "xs ! 0 = single_entry b"
    and "vec t = Some (xs[0 := e])" and "vec_size t = 1" and "vec_reserved t = vec_reserved u"
    and "parameters e = None" and "num_of_parameters e = 0"
  shows "table_tight t" and "vec_blocks t = vec_blocks u"
proof -
  from assms(1-3) obtain x ys where "xs = x # ys" by (cases xs) (auto simp: vec_inv_def)
  with assms show "table_tight t" "vec_blocks t = vec_blocks u"
    by (auto simp: table_tight_def vec_inv_def vec_blocks_def blocks_of_info_def info_ok_def single_entry_def
        zero_info_def)
qed

lemma wp_end:
  "wp (thn (print_std fmt args)
      (thn (print_std ''############################\<newline>'' [])
      (thn (print_std ''###End of interrupt test####\<newline>'' [])
      (thn (print_std ''############################\<newline>'' [])
           (ret 0))))) Q
   = (\<lambda>t. Q 0 (t\<lparr>out := out t @ Stdout_vprintf fmt args # end_lines\<rparr>))"
  by (rule ext) (simp add: wp_rules end_lines_def std_line_def)

text \<open>The process when the session has closed its handle.\<close>

definition used_state ::
    "u64 \<Rightarrow> u64 \<Rightarrow> FPGA_INTERFACE_INFO list \<Rightarrow> nat \<Rightarrow> nat \<Rightarrow> nat
      \<Rightarrow> 'e interrupt_test_state_scheme \<Rightarrow> 'e interrupt_test_state_scheme" where
  "used_state b isr xs n0 n1 n2 u =
     u\<lparr>os_calls := os_calls u @ [Sem_getvalue, Sem_post], g_intSem := 1,
       out := out u @ session_lines n0 n1 n2, isr_count := isr_count u + int (n0 + n1 + n2),
       g_common_fpga_interface_info_vec := Some (xs[0 := (single_entry b)
         \<lparr>isr_callback := isr, isr_context := 0, interrupt_enable := False, is_mmio_opened := False\<rparr>])\<rparr>"

lemma wp_session_used:
  fixes u :: "'e interrupt_test_state_scheme"
  assumes "vec u = Some xs" and "0 < length xs" and "xs ! 0 = single_entry b" and "vec_size u = 1"
    and "locks_work (os u)" and "g_intSem u = 0" and "isr_count u = 0" and "int (n0 + n1 + n2) \<le> INT_MAX"
  shows "wp (session isr n0 n1 n2) Q u
    = wp fpga_platform_cleanup (\<lambda>_ t. Q 0 (t\<lparr>out := out t @ verdict (isr_count t) # end_lines\<rparr>))
      (used_state b isr xs n0 n1 n2 u)"
proof -
  have valid: "valid_handle 0 1" by (simp add: valid_handle_def size_t_of_int_def)
  have tail: "wp (bnd (gets isr_count) (\<lambda>isr_count.
       thn (if isr_count > 0
            then print_std ''Interrupt test PASS. %d interrupt was triggered.\<newline>'' [Arg_int isr_count]
            else print_std ''Interrupt test FAIL. No interrupt was triggered.\<newline>'' [])
      (thn (print_std ''############################\<newline>'' [])
      (thn (print_std ''###End of interrupt test####\<newline>'' [])
      (thn (print_std ''############################\<newline>'' [])
           (ret 0)))))) Q
    = (\<lambda>t. Q 0 (t\<lparr>out := out t @ verdict (isr_count t) # end_lines\<rparr>))" for Q
    by (rule ext) (simp add: wp_bnd wp_gets wp_end std_line_def verdict_def)
  show ?thesis
    using assms valid locks_workD [OF assms(5)]
    by (simp add: session_def fpga_open_def fpga_register_isr_def fpga_enable_interrupt_def
        fpga_disable_interrupt_def fpga_close_def sem_getvalue_def sem_post_def wp_rules tail
        wp_isr_runs INVALID_HANDLE_def single_entry_def used_state_def called_def session_lines_def
        std_line_def)
qed

lemma more_isr_count:
  fixes s t :: "'e interrupt_test_state_scheme"
  assumes "uio_state.more t = uio_state.more s"
  shows "isr_count t = isr_count s"
  using assms by (cases s; cases t) simp

lemma wp_session:
  fixes s u :: "'e interrupt_test_state_scheme"
  assumes u: "ready b fd cs s u" and locks: "locks_work (os s)" and fd: "0 \<le> fd"
    and n: "isr_count s = 0" "int (n0 + n1 + n2) \<le> INT_MAX"
  shows "wp (session isr n0 n1 n2) (\<lambda>r t. r = 0 \<and> uio_cleaned t \<and> live t = live u - vec_blocks u
      \<and> os_calls t = os_calls u @ session_calls (s_intThread_id u) fd
      \<and> isr_count t = int (n0 + n1 + n2)
      \<and> (\<exists>fin. out t = out u @ session_lines n0 n1 n2 @ fin @ verdict (int (n0 + n1 + n2)) # end_lines)) u"
proof -
  have inv: "vec_inv u" and sz: "vec_size u = 1"
    using u length_vec_abs [of u] by (simp_all add: ready_def)
  from inv sz obtain xs where xs: "vec u = Some xs" "0 < length xs" "xs ! 0 = single_entry b"
    using u by (auto simp: ready_def elim!: vec_inv_Some [of u 0])
  let ?v = "used_state b isr xs n0 n1 n2 u"
  have v: "table_tight ?v" "vec_blocks ?v = vec_blocks u"
    using table_of_one [OF inv xs(1) sz xs(3), of ?v] sz by (simp_all add: used_state_def single_entry_def zero_info_def)
  have f: "os u = os s" "g_intSem u = 0" "s_intThread_id u \<noteq> 0" "s_uio_drv_handle u = fd" "can_print u"
    "isr_count u = 0"
    using u more_isr_count [of u s] n(1) by (simp_all add: ready_def only_prints_def)
  have w: "os ?v = os s" "s_intThread_id ?v = s_intThread_id u" "s_uio_drv_handle ?v = fd" "live ?v = live u"
    "os_calls ?v = os_calls u @ [Sem_getvalue, Sem_post]" "out ?v = out u @ session_lines n0 n1 n2"
    "isr_count ?v = int (n0 + n1 + n2)" "can_print ?v"
    using f by (simp_all add: used_state_def can_print_def)
  have count: "isr_count t = int (n0 + n1 + n2)" if "only_prints ?v t" for t
    using more_isr_count [of t ?v] that w(7) by (simp add: only_prints_def)
  have "wp fpga_platform_cleanup (\<lambda>_ t. only_prints ?v t
      \<and> uio_cleaned t \<and> live t = live ?v - vec_blocks ?v \<and> s_intThread_id t = s_intThread_id ?v
      \<and> os_calls t = os_calls ?v @ stop_calls (s_intThread_id ?v)
          @ (if s_uio_drv_handle ?v \<ge> 0 then [Close (s_uio_drv_handle ?v)] else [])) ?v"
    by (rule wp_conj [OF cleanup_only_prints wp_cleanup_thread])
      (use v(1) w f(3) locks_workD [OF locks] in simp_all)
  then show ?thesis
    unfolding wp_session_used [OF xs sz locks [folded f(1)] f(2,6) n(2)] w v(2)
  proof (rule wp_mono)
    fix x :: unit and t :: "'e interrupt_test_state_scheme"
    assume t: "only_prints ?v t
      \<and> uio_cleaned t \<and> live t = live u - vec_blocks u \<and> s_intThread_id t = s_intThread_id u
      \<and> os_calls t = (os_calls u @ [Sem_getvalue, Sem_post]) @ stop_calls (s_intThread_id u)
          @ (if fd \<ge> 0 then [Close fd] else [])"
    let ?t = "t\<lparr>out := out t @ verdict (isr_count t) # end_lines\<rparr>"
    from t obtain fin where "out t = out u @ session_lines n0 n1 n2 @ fin"
      by (auto simp: only_prints_def w(6))
    moreover have "uio_cleaned ?t" using t by (simp add: uio_cleaned_def)
    ultimately show "0 = (0::int) \<and> uio_cleaned ?t \<and> live ?t = live u - vec_blocks u
        \<and> os_calls ?t = os_calls u @ session_calls (s_intThread_id u) fd
        \<and> isr_count ?t = int (n0 + n1 + n2)
        \<and> (\<exists>fin. out ?t = out u @ session_lines n0 n1 n2 @ fin @ verdict (int (n0 + n1 + n2)) # end_lines)"
      using t count [of t] fd by (simp add: session_calls_def)
  qed
qed

section \<open>The two threads\<close>

text \<open>Every function the thread calls, and every argument it passes, was given by the application or is
  null.\<close>

lemma interleaved_registered:
  "interleaved cs s t \<Longrightarrow> \<exists>rs. registered t = registered s @ rs \<and> set rs \<subseteq> {(f, c). Register f c \<in> set cs}"
proof (induction rule: interleaved.induct)
  case (thread_runs s t cs u)
  then show ?case by (auto elim!: thread_stepE)
next
  case (call_goes_on c s t cs u)
  then show ?case by (auto elim!: app_stepE)
next
  case (call_ends c s t cs u)
  then show ?case by (auto elim!: app_stepE)
qed simp

lemma test_calls_isr:
  assumes "interleaved [Register isr 0, Enable, Disable, Cleanup] irq_start u" and "isr \<noteq> 0"
  shows "set (isr_calls u) \<subseteq> {(isr, 0)}"
proof -
  have u: "irq_reachable u" by (rule interleaved_reachable [OF assms(1) irq_reachable.start])
  from interleaved_registered [OF assms(1)] obtain rs where
    rs: "registered u = (0, 0) # rs" "set rs \<subseteq> {(isr, 0)}" by (auto simp: irq_start_def)
  have stored: "fst ` set (registered u) \<subseteq> {0, isr}" "snd ` set (registered u) \<subseteq> {0}"
    using rs by auto
  have "0 \<notin> fst ` set (tl (registered u))" using rs assms(2) by auto
  then have null: "\<forall>(f, c) \<in> set (isr_calls u). f \<noteq> 0"
    using no_null_calls [OF u] by (simp add: no_null_def)
  have from_reg: "set (isr_calls u) \<subseteq> fst ` set (registered u) \<times> snd ` set (registered u)"
    using calls_from_registered [OF u] by (simp add: from_registered_def)
  show ?thesis
  proof
    fix p assume p: "p \<in> set (isr_calls u)"
    then have "p \<in> fst ` set (registered u) \<times> snd ` set (registered u)" by (rule subsetD [OF from_reg])
    then have "fst p \<in> {0, isr}" "snd p \<in> {0}"
      unfolding mem_Times_iff using subsetD [OF stored(1)] subsetD [OF stored(2)] by blast+
    moreover have "fst p \<noteq> 0" using null p by (auto simp: case_prod_beta)
    ultimately show "p \<in> {(isr, 0)}" by (cases p) simp
  qed
qed

end
