(* ===== verification/Uio_Properties.thy ===== *)
theory Uio_Properties
  imports Interrupt_Properties Uio_Interrupt_Main
begin

text \<open>
  The properties of the UIO platform, \<open>uio/src/intel_fpga_platform_api_uio.c\<close> and
  \<open>uio/src/intel_fpga_api_uio.c\<close>, as a sequential program: the argument parser, initialisation,
  cleanup, what a second start does, and the interrupt functions.
\<close>

section \<open>Arguments\<close>

text \<open>C31: The integer parser of the options.  A decimal number is read back when it fits a \<open>long\<close> and
  \<open>errno\<close> does not already hold \<open>ERANGE\<close>; otherwise the value is 0 and an error is reported: the
  parser does not clear \<open>errno\<close>, so an earlier failure rejects a valid argument.  A string with a
  character that is no digit, and no \<open>0x\<close> in front, is rejected with another message.\<close>

theorem parse_decimal:
  assumes "can_print s"
  shows "parse_integer_arg name (show_nat n) s =
      (if int n \<le> LONG_MAX \<and> errno s \<noteq> ERANGE then Ret (int n) s
       else Ret 0 (s\<lparr>errno := ERANGE, out := out s @ msg_events s FPGA_MSG_PRINTF_ERROR
              ''%s value is too big. %s is provided; maximum accepted is %ld''
              [Arg_str name, Arg_str (show_nat n), Arg_int LONG_MAX]\<rparr>))
    \<and> (\<not> has_0x cs \<and> \<not> list_all isdigit cs \<longrightarrow> parse_integer_arg name cs s =
         Ret 0 (s\<lparr>out := out s @ msg_events s FPGA_MSG_PRINTF_ERROR
           ''Invalid argument value type is provided. A integer value is expected. %s is provided.''
           [Arg_str cs]\<rparr>))"
proof -
  have self: "errno s = ERANGE \<Longrightarrow> s\<lparr>errno := ERANGE\<rparr> = s" by (cases s) simp
  have ev: "msg_events (s\<lparr>errno := e\<rparr>) ty f a = msg_events s ty f a" for e ty f a
    by (simp add: msg_events_def split: FPGA_MSG_PRINTF.split)
  have cp: "can_print (s\<lparr>errno := ERANGE\<rparr>)" using assms by simp
  have "parse_integer_arg name (show_nat n) s =
      (if int n \<le> LONG_MAX \<and> errno s \<noteq> ERANGE then Ret (int n) s
       else Ret 0 (s\<lparr>errno := ERANGE, out := out s @ msg_events s FPGA_MSG_PRINTF_ERROR
              ''%s value is too big. %s is provided; maximum accepted is %ld''
              [Arg_str name, Arg_str (show_nat n), Arg_int LONG_MAX]\<rparr>))"
  proof (cases "int n \<le> LONG_MAX")
    case True
    have "s\<lparr>errno := ERANGE, out := x\<rparr> = s\<lparr>out := x\<rparr>" if "errno s = ERANGE" for x
      using that by (cases s) simp
    with True assms show ?thesis by (simp add: run_parse_show)
  next
    case False
    then show ?thesis
      by (simp add: parse_integer_arg_def has_0x_show show_nat_digits strtol_show run_rules
          run_lines(2) [OF cp] ev)
  qed
  with assms show ?thesis by (simp add: parse_integer_arg_def run_rules run_lines)
qed

lemma parse_decimal_witness:
  "parse_integer_arg ''Address span'' (show_nat 4096) (uio_process (\<lambda>a. 0) demo_os)
     = Ret 4096 (uio_process (\<lambda>a. 0) demo_os)
   \<and> (\<exists>t. parse_integer_arg ''Address span'' ''12k'' (uio_process (\<lambda>a. 0) demo_os) = Ret 0 t)"
proof -
  have "can_print (uio_process (\<lambda>a. 0) demo_os)" "errno (uio_process (\<lambda>a. 0) demo_os) = 0"
    by (simp_all add: can_print_def uio_process_def)
  moreover have "\<not> has_0x ''12k''" "\<not> list_all isdigit ''12k''"
    by (simp_all add: has_0x_def isdigit_def code_of_def)
  ultimately show ?thesis
    using parse_decimal [of "uio_process (\<lambda>a. 0) demo_os" "''Address span''" 4096 "''12k''"]
    by (auto simp: LONG_MAX_def ERANGE_def)
qed

section \<open>Initialisation\<close>

lemma but_outD:
  assumes "but_out (s1\<lparr>s_uio_inThread_timeout := 100\<rparr>) t"
  shows "os_calls t = os_calls s1" and "os t = os s1" and "vec t = vec s1"
    and "vec_size t = vec_size s1" and "vec_reserved t = vec_reserved s1" and "live t = live s1"
    and "env t = env s1" and "mem t = mem s1" and "dfh_parent_stack t = dfh_parent_stack s1"
    and "s_uio_drv_path t = s_uio_drv_path s1" and "s_uio_addr_span t = s_uio_addr_span s1"
    and "s_uio_start_addr t = s_uio_start_addr s1" and "s_dfl_entry_addr t = s_dfl_entry_addr s1"
    and "s_uio_single_component_mode t = s_uio_single_component_mode s1"
    and "s_intThread_id t = s_intThread_id s1" and "can_print t = can_print s1"
  using assms by (auto simp: but_out_def can_print_def)

text \<open>A start without an address span.  When neither the arguments nor sysfs give a span,
  initialisation fails after nothing but the size file of sysfs has been read, and the table is left
  alone.\<close>

lemma uio_start_rejected:
  assumes "uio_parse_args args s = Ret () s1" and "can_print s1"
    and "s_uio_addr_span s1 = 0" and "s_uio_drv_path s1 = Some path"
    and "strrchr path (CHR ''/'') = Some t" and "4 \<le> length t"
    and "\<And>cs p. os_result (os s1) cs (Fscanf p ''%lx'') \<noteq> 1"
  shows "wp (fpga_platform_init fuel args) (\<lambda>r t. \<not> r \<and> vec t = vec s1
      \<and> (\<exists>cs. os_calls t = os_calls s1 @ cs \<and> list_all sysfs_call cs)) s"
  by (rule wp_init_rejected [OF assms])

lemma default_path_suffix: "strrchr ''/dev/uio0'' (CHR ''/'') = Some ''/uio0''"
  by code_simp

lemma uio_start_rejected_witness:
  "wp (fpga_platform_init fuel []) (\<lambda>r t. \<not> r \<and> list_all sysfs_call (os_calls t)) (uio_process (\<lambda>a. 0) demo_os)"
  by (rule wp_mono [OF uio_start_rejected [OF parse_no_args _ _ _ default_path_suffix]])
    (simp_all add: uio_process_def can_print_def demo_os_def)

text \<open>C38: A start whose map fails, and the cleanup after it.  Initialisation opens the driver, fails to
  map it and closes the descriptor, but keeps it as the driver handle; the cleanup that follows closes
  the same descriptor a second time.\<close>

theorem uio_no_map_cleanup:
  assumes "uio_configured args s s1" and "s_uio_drv_path s1 = Some path"
    and "os_result (os s1) (os_calls s1) (Open path False) = fd" and "0 \<le> fd"
    and "os_pointer (os s1) (os_calls s1 @ [Open path False]) (Mmap (s_uio_addr_span s1) fd 0)
       = MAP_FAILED"
    and "s_intThread_id s1 = 0" and "table_tight s1"
  shows "wp (bnd (fpga_platform_init fuel args) (\<lambda>r. thn fpga_platform_cleanup (ret r)))
    (\<lambda>r t. \<not> r \<and> uio_cleaned t \<and> live t = live s1 - vec_blocks s1 \<and> os_calls t = os_calls s1
       @ [Open path False, Mmap (s_uio_addr_span s1) fd 0, Close fd, Close fd]) s"
  unfolding wp_bnd
proof (rule wp_init_configured [OF assms(1)])
  fix t
  assume t: "but_out (s1\<lparr>s_uio_inThread_timeout := 100\<rparr>) t"
  note f = but_outD [OF t]
  have pr: "can_print t" using assms(1) f by (simp add: uio_configured_def)
  show "wp (uio_bring_up fuel) (\<lambda>r. wp (thn fpga_platform_cleanup (ret r)) (\<lambda>r t. \<not> r \<and> uio_cleaned t
       \<and> live t = live s1 - vec_blocks s1 \<and> os_calls t = os_calls s1
       @ [Open path False, Mmap (s_uio_addr_span s1) fd 0, Close fd, Close fd])) t"
  proof (rule wp_mono [OF wp_bring_up_no_map [OF pr]])
    show "s_uio_drv_path t = Some path" "os_result (os t) (os_calls t) (Open path False) = fd"
      "fd \<noteq> -1"
      "os_pointer (os t) (os_calls t @ [Open path False]) (Mmap (s_uio_addr_span t) fd 0) = MAP_FAILED"
      using assms f by simp_all
  next
    fix r u
    assume u: "\<not> r \<and> os_calls u = os_calls t @ [Open path False, Mmap (s_uio_addr_span t) fd 0, Close fd]
      \<and> vec u = vec t \<and> s_uio_drv_handle u = fd \<and> s_intThread_id u = s_intThread_id t
      \<and> can_print u \<and> vec_size u = vec_size t \<and> vec_reserved u = vec_reserved t
      \<and> live u = live t"
    then have "table_tight u" "vec_blocks u = vec_blocks s1"
      using assms(7) f vec_cong [of u s1] by (simp_all add: table_tight_def)
    with u f assms(4,6) show "wp (thn fpga_platform_cleanup (ret r)) (\<lambda>r t. \<not> r \<and> uio_cleaned t
       \<and> live t = live s1 - vec_blocks s1 \<and> os_calls t = os_calls s1
       @ [Open path False, Mmap (s_uio_addr_span s1) fd 0, Close fd, Close fd]) u"
      unfolding wp_thn wp_ret_eta
      by (intro wp_mono [OF wp_cleanup_no_thread [of u]]) simp_all
  qed
qed

lemma demo_configured:
  "uio_configured [''-s'', show_nat 4096] (uio_process rd osys)
     ((uio_process rd osys)\<lparr>s_uio_addr_span := 4096\<rparr>)"
proof -
  have "uio_parse_args [''-s'', show_nat 4096] (uio_process rd osys)
      = Ret () ((uio_process rd osys)\<lparr>s_uio_addr_span := of_nat 4096\<rparr>)"
    by (rule parse_span) (simp_all add: uio_process_def LONG_MAX_def ERANGE_def can_print_def)
  then show ?thesis by (simp add: uio_configured_def uio_process_def can_print_def)
qed

lemma uio_process_simps [simp]:
  "env (uio_process rd osys) = demo_env rd" "vec (uio_process rd osys) = None"
  "vec_size (uio_process rd osys) = 0" "vec_reserved (uio_process rd osys) = 0"
  "dfh_parent_stack (uio_process rd osys) = zero_stack" "os (uio_process rd osys) = osys"
  "os_calls (uio_process rd osys) = []" "s_uio_drv_path (uio_process rd osys) = Some ''/dev/uio0''"
  "s_intThread_id (uio_process rd osys) = 0" "live (uio_process rd osys) = 0"
  "s_uio_single_component_mode (uio_process rd osys) = 1" "s_uio_start_addr (uio_process rd osys) = 0"
  "s_dfl_entry_addr (uio_process rd osys) = 0" "s_uio_drv_handle (uio_process rd osys) = -1"
  by (simp_all add: uio_process_def)

text \<open>An operating system that refuses the map.\<close>

definition no_map_os :: os_env where
  "no_map_os = demo_os\<lparr>os_pointer := (\<lambda>cs c. MAP_FAILED)\<rparr>"

lemma uio_no_map_cleanup_witness:
  "wp (bnd (fpga_platform_init 0 [''-s'', show_nat 4096]) (\<lambda>r. thn fpga_platform_cleanup (ret r)))
    (\<lambda>r t. \<not> r \<and> os_calls t = [Open ''/dev/uio0'' False, Mmap 4096 3 0, Close 3, Close 3])
    (uio_process (\<lambda>a. 0) no_map_os)"
  by (rule wp_mono [OF uio_no_map_cleanup [OF demo_configured, where path = "''/dev/uio0''" and fd = 3]])
    (simp_all add: no_map_os_def demo_os_def table_tight_def vec_inv_def)

text \<open>C16: A start in single-component mode.  From a process whose mode is set, as it is when the process
  starts, every complete configuration brings up one interface, whatever the arguments say about a
  Device Feature List: initialisation returns true, also when the interrupt thread could not be
  created; the library then reports one interface, whose first claim gives handle 0, and the base
  address of that handle is the map plus the start address.\<close>

theorem uio_start_single:
  assumes "can_print s" and "s_uio_single_component_mode s \<noteq> 0" and "uio_configured args s s1"
    and "uio_resources path fd p s1" and "vec_inv s1" and "vec_abs s1 = []" and "allocs_ok s1"
  shows "wp (bnd (fpga_platform_init fuel args) (\<lambda>r.
        bnd fpga_get_num_of_interfaces (\<lambda>n. bnd (fpga_open 0) (\<lambda>h.
        bnd (fpga_uio_get_base_address h) (\<lambda>b. ret (r, n, h, b))))))
    (\<lambda>(r, n, h, b) t. r \<and> n = 1 \<and> h = 0 \<and> b = p + s_uio_start_addr s1
       \<and> s_uio_drv_handle t = fd \<and> s_uio_mmap_ptr t = p) s"
  unfolding wp_bnd [of "fpga_platform_init fuel args"]
proof (rule wp_init_configured [OF assms(3)])
  fix t
  assume t: "but_out (s1\<lparr>s_uio_inThread_timeout := 100\<rparr>) t"
  note f = but_outD [OF t]
  have mode: "s_uio_single_component_mode t \<noteq> 0"
    using parse_args_mode [OF assms(1,2), of args s1] assms(3) f by (simp add: uio_configured_def)
  have pr: "can_print t" using assms(3) f by (simp add: uio_configured_def)
  have res: "uio_resources path fd p t" using assms(4) f by (simp add: uio_resources_def)
  have tab: "vec_inv t" "vec_abs t = []" "allocs_ok t"
    using assms(5-7) f vec_cong [of t s1] by (simp_all add: allocs_ok_def)
  show "wp (uio_bring_up fuel) (\<lambda>r. wp (bnd fpga_get_num_of_interfaces (\<lambda>n. bnd (fpga_open 0) (\<lambda>h.
        bnd (fpga_uio_get_base_address h) (\<lambda>b. ret (r, n, h, b)))))
    (\<lambda>(r, n, h, b) t. r \<and> n = 1 \<and> h = 0 \<and> b = p + s_uio_start_addr s1
       \<and> s_uio_drv_handle t = fd \<and> s_uio_mmap_ptr t = p)) t"
  proof (rule wp_mono [OF wp_bring_up_single [OF res pr mode tab]])
    fix r u
    assume u: "r \<and> vec_inv u \<and> vec_abs u = [single_entry (p + s_uio_start_addr t)]
      \<and> live u - vec_blocks u = live t - vec_blocks t \<and> s_uio_drv_handle u = fd \<and> s_uio_mmap_ptr u = p"
    then have n: "vec_size u = 1" using length_vec_abs [of u] by simp
    with u obtain xs where "vec u = Some xs" "0 < length xs" "xs ! 0 = single_entry (p + s_uio_start_addr t)"
      by (auto elim!: vec_inv_Some [of u 0])
    with u n f show "wp (bnd fpga_get_num_of_interfaces (\<lambda>n. bnd (fpga_open 0) (\<lambda>h.
        bnd (fpga_uio_get_base_address h) (\<lambda>b. ret (r, n, h, b)))))
      (\<lambda>(r, n, h, b) t. r \<and> n = 1 \<and> h = 0 \<and> b = p + s_uio_start_addr s1
       \<and> s_uio_drv_handle t = fd \<and> s_uio_mmap_ptr t = p) u"
      by (simp add: fpga_get_num_of_interfaces_def fpga_open_def fpga_uio_get_base_address_def
          wp_bnd wp_thn wp_ret wp_vec_size wp_vec_at wp_vec_upd single_entry_def)
  qed
qed

lemma uio_start_single_witness:
  "wp (bnd (fpga_platform_init 0 [''-s'', show_nat 4096]) (\<lambda>r.
        bnd fpga_get_num_of_interfaces (\<lambda>n. bnd (fpga_open 0) (\<lambda>h.
        bnd (fpga_uio_get_base_address h) (\<lambda>b. ret (r, n, h, b))))))
    (\<lambda>(r, n, h, b) t. r \<and> n = 1 \<and> h = 0 \<and> b = 0x1000) (uio_process (\<lambda>a. 0) demo_os)"
  by (rule wp_mono [OF uio_start_single [OF _ _ demo_configured,
        where path = "''/dev/uio0''" and fd = 3 and p = "0x1000"]])
    (auto simp: uio_resources_def demo_os_def vec_inv_def vec_abs_def allocs_ok_def MAP_FAILED_def
      can_print_def uio_process_def)

text \<open>C17: A start in DFL mode, which no first start reaches but one after a cleanup does.  The table is
  the list at the entry address: the library reports its number of interfaces, and the copy that
  \<open>fpga_get_interface_at\<close> makes for an index is the row of the list with that index.\<close>

theorem uio_start_dfl:
  assumes "uio_configured args s s1" and "s_uio_single_component_mode s1 = 0"
    and "uio_resources path fd p s1" and "scan_ready s1"
    and "a = p + s_dfl_entry_addr s1"
    and "dfl_at (dfl_view s1) a x" and "tree_fits x" and "fuel_level x \<le> fuel"
  shows "wp (fpga_platform_init fuel args) (\<lambda>r t. r
      \<and> fpga_get_num_of_interfaces t = Ret (of_nat (length (rows a x))) t
      \<and> (\<forall>i. fpga_get_interface_at i True t =
            (if unat i < length (rows a x) then Ret (True, Some (rows a x ! unat i)) t
             else Ret (False, None) t))
      \<and> live t - vec_blocks t = live s1 - vec_blocks s1
      \<and> os_calls t = os_calls s1 @ [Open path False, Mmap (s_uio_addr_span s1) fd 0]) s"
proof (rule wp_init_configured [OF assms(1)])
  fix t
  assume t: "but_out (s1\<lparr>s_uio_inThread_timeout := 100\<rparr>) t"
  note f = but_outD [OF t]
  have c: "can_print t" "uio_resources path fd p t" "s_uio_single_component_mode t = 0"
    "vec_blocks t = vec_blocks s1" "scan_ready t"
    using assms f vec_cong [of t s1]
    by (simp_all add: uio_configured_def uio_resources_def scan_ready_def allocs_ok_def)
  have view: "dfl_view t = dfl_view s1" by (rule dfl_view_cong) (simp_all add: f)
  have at: "dfl_at (dfl_view t) (p + s_dfl_entry_addr t) x" using assms(5,6) view f by simp
  show "wp (uio_bring_up fuel) (\<lambda>r t. r
      \<and> fpga_get_num_of_interfaces t = Ret (of_nat (length (rows a x))) t
      \<and> (\<forall>i. fpga_get_interface_at i True t =
            (if unat i < length (rows a x) then Ret (True, Some (rows a x ! unat i)) t
             else Ret (False, None) t))
      \<and> live t - vec_blocks t = live s1 - vec_blocks s1
      \<and> os_calls t = os_calls s1 @ [Open path False, Mmap (s_uio_addr_span s1) fd 0]) t"
    by (rule wp_mono [OF wp_bring_up_dfl [OF c(2,1,3,5) at assms(7,8)]])
      (use f c(4) assms(5) in \<open>auto simp: run_interface_at run_num_of_interfaces\<close>)
qed

text \<open>A process of the platform after a cleanup.\<close>

definition cleaned_process :: "(u64 \<Rightarrow> u32) \<Rightarrow> uio_state" where
  "cleaned_process rd = (uio_process rd demo_os)\<lparr>s_uio_drv_path := None, s_uio_single_component_mode := 0\<rparr>"

lemma uio_start_dfl_witness:
  "wp (fpga_platform_init 5 [''-p'', ''/dev/uio0'', ''-s'', show_nat 4096])
    (\<lambda>r t. r \<and> fpga_get_num_of_interfaces t = Ret 3 t) (cleaned_process (table_read demo_words))"
proof -
  let ?s = "cleaned_process (table_read demo_words)"
  let ?s1 = "?s\<lparr>s_uio_drv_path := Some ''/dev/uio0'', s_uio_addr_span := 4096\<rparr>"
  have "uio_parse_args [''-p'', ''/dev/uio0'', ''-s'', show_nat 4096] ?s
      = Ret () (?s\<lparr>s_uio_drv_path := Some ''/dev/uio0'', s_uio_addr_span := of_nat 4096\<rparr>)"
    by (rule parse_path_span)
      (simp_all add: cleaned_process_def uio_process_def LONG_MAX_def ERANGE_def can_print_def)
  then have conf: "uio_configured [''-p'', ''/dev/uio0'', ''-s'', show_nat 4096] ?s ?s1"
    by (simp add: uio_configured_def cleaned_process_def uio_process_def can_print_def)
  have view: "dfl_view ?s1 = word_view (table_read demo_words)"
    by (subst dfl_view_custom) (simp_all add: cleaned_process_def)
  have at: "dfl_at (dfl_view ?s1) 0x1000 demo_tree" by (simp add: view demo_tree_at)
  have len: "length (rows 0x1000 demo_tree) = 3"
    using arg_cong [OF demo_rows(1), of length] by simp
  show ?thesis
    by (rule wp_mono [OF uio_start_dfl [OF conf _ _ _ _ at demo_tree_fits(1,2),
          where path = "''/dev/uio0''" and fd = 3 and p = "0x1000"]])
      (simp_all add: len cleaned_process_def uio_resources_def demo_os_def MAP_FAILED_def
        scan_ready_def allocs_ok_def vec_inv_def)
qed

section \<open>Cleanup\<close>

text \<open>C18: What a cleanup does when the lock and the semaphore work.  If there is an interrupt thread it
  sets the exit flag under the lock, posts the semaphore and joins the thread before anything is
  released; the driver is closed if it is open, every heap block of the table is freed and the
  configuration is reset, but the map is not given back and the thread id is kept.\<close>

theorem uio_cleanup_releases:
  assumes "can_print s" and "table_tight s"
    and "os_result (os s) (os_calls s) Rwlock_wrlock = 0"
    and "os_result (os s) (os_calls s @ [Rwlock_wrlock]) Rwlock_unlock = 0"
    and "os_result (os s) (os_calls s @ [Rwlock_wrlock, Rwlock_unlock]) Sem_post = 0"
  shows "wp fpga_platform_cleanup (\<lambda>_ t. uio_cleaned t \<and> live t = live s - vec_blocks s
      \<and> s_intThread_id t = s_intThread_id s
      \<and> os_calls t = os_calls s
          @ (if s_intThread_id s \<noteq> 0
             then [Rwlock_wrlock, Rwlock_unlock, Sem_post, Thread_join (s_intThread_id s)] else [])
          @ (if s_uio_drv_handle s \<ge> 0 then [Close (s_uio_drv_handle s)] else [])) s"
proof (cases "s_intThread_id s = 0")
  case True
  then show ?thesis
    by (intro wp_mono [OF wp_cleanup_no_thread [OF assms(1,2)]]) simp_all
next
  case False
  then show ?thesis
    using wp_cleanup_thread [OF assms] by (simp add: stop_calls_def)
qed

text \<open>A process with an interrupt thread, an open driver and a table of one entry.\<close>

definition started_process :: uio_state where
  "started_process = (register_process Native_64)
     \<lparr>s_intThread_id := 6, s_uio_drv_handle := 3, s_uio_mmap_ptr := 0x1000, live := 1\<rparr>"

lemma uio_cleanup_releases_witness:
  "wp fpga_platform_cleanup (\<lambda>_ t. vec t = None \<and> live t = 0 \<and> os_calls t =
      [Rwlock_wrlock, Rwlock_unlock, Sem_post, Thread_join 6, Close 3]) started_process"
proof -
  have s: "can_print started_process" "table_tight started_process" "vec_blocks started_process = 1"
    "live started_process = 1" "s_intThread_id started_process = 6"
    "s_uio_drv_handle started_process = 3" "os_calls started_process = []" "os started_process = demo_os"
    by (simp_all add: started_process_def can_print_def table_tight_def vec_inv_def vec_blocks_def
        register_process_def uio_process_def)
  show ?thesis
    by (rule wp_mono [OF uio_cleanup_releases [OF s(1,2)]])
      (simp_all add: s demo_os_def uio_cleaned_def)
qed

text \<open>A lock that cannot be released during the cleanup.  The error is meant to raise an exception;
  but the code then asks the semaphore instead of keeping the status, so when the semaphore works the
  error is lost: no exception is thrown, and the thread is joined.\<close>

lemma uio_unlock_error_lost:
  assumes "can_print s"
    and "os_result (os s) (os_calls s) Rwlock_wrlock = 0"
    and "os_result (os s) (os_calls s @ [Rwlock_wrlock]) Rwlock_unlock \<noteq> 0"
    and "os_result (os s) (os_calls s @ [Rwlock_wrlock, Rwlock_unlock]) Sem_getvalue = 0"
    and "os_result (os s) (os_calls s @ [Rwlock_wrlock, Rwlock_unlock, Sem_getvalue]) Sem_post = 0"
  shows "wp (stop_interrupt_thread tid) (\<lambda>_ t. os_calls t = os_calls s
        @ [Rwlock_wrlock, Rwlock_unlock, Sem_getvalue]
        @ (if g_intSem s \<le> 0 then [Sem_post] else []) @ [Thread_join tid]
      \<and> (\<exists>ev. out t = out s @ ev \<and> (\<forall>ex. App_exception ex \<notin> set ev))) s"
proof -
  have ev: "App_exception ex \<notin> set (msg_events t ty f a)" for ex ty f a and t :: "'a uio_state_scheme"
    by (cases ty) (auto simp: msg_events_def default_lines_def split: FPGA_MSG_PRINTF.split)
  show ?thesis
    using assms
    by (simp add: stop_interrupt_thread_def wp_rules sem_post_def sem_getvalue_def ev)
qed

lemma uio_unlock_error_lost_witness:
  "\<exists>osys. os_result osys [Rwlock_wrlock] Rwlock_unlock \<noteq> 0
    \<and> wp (stop_interrupt_thread 6) (\<lambda>_ t. os_calls t =
        [Rwlock_wrlock, Rwlock_unlock, Sem_getvalue, Sem_post, Thread_join 6])
      (started_process\<lparr>os := osys\<rparr>)"
proof -
  let ?os = "demo_os\<lparr>os_result := (\<lambda>cs c. if c = Rwlock_unlock then 1 else 0)\<rparr>"
  have s: "can_print (started_process\<lparr>os := ?os\<rparr>)" "os_calls started_process = []"
    "g_intSem started_process = 0"
    by (simp_all add: started_process_def can_print_def register_process_def uio_process_def)
  have "wp (stop_interrupt_thread 6) (\<lambda>_ t. os_calls t =
        [Rwlock_wrlock, Rwlock_unlock, Sem_getvalue, Sem_post, Thread_join 6])
      (started_process\<lparr>os := ?os\<rparr>)"
    by (rule wp_mono [OF uio_unlock_error_lost [OF s(1)]]) (simp_all add: s)
  then show ?thesis by (intro exI [of _ ?os]) simp
qed

text \<open>C39: A start after a cleanup.  The cleanup sets the driver path to null instead of its default, so
  a start whose arguments name no driver fails, whatever else they say and whether or not there was an
  interrupt thread: when they leave the address span zero, the search for the map size dereferences the
  null path, and otherwise the configuration is refused before any call of the operating system.\<close>

theorem uio_restart_fails:
  assumes "can_print s" and "table_tight s" and "s_intThread_id s = 0 \<or> locks_work (os s)"
    and "\<not> names_driver args"
  shows "\<exists>u v w. fpga_platform_cleanup s = Ret () u \<and> uio_parse_args args u = Ret () v
    \<and> thn fpga_platform_cleanup (fpga_platform_init fuel args) s
      = (if s_uio_addr_span v = 0 then Stop (Undefined_behaviour Null_dereference) v else Ret False w)
    \<and> os_calls w = os_calls u"
proof -
  have "wp fpga_platform_cleanup (\<lambda>_ t. uio_cleaned t \<and> can_print t) s"
  proof (cases "s_intThread_id s = 0")
    case True
    then show ?thesis by (intro wp_mono [OF wp_cleanup_no_thread [OF assms(1,2)]]) simp_all
  next
    case False
    with assms(3) have "locks_work (os s)" by simp
    with False locks_workD [OF this] show ?thesis
      by (intro wp_mono [OF wp_cleanup_prints [OF assms(1,2)]]) simp_all
  qed
  then obtain u where u: "fpga_platform_cleanup s = Ret () u" "uio_cleaned u" "can_print u"
    by (auto simp: wp_def split: outcome.splits)
  obtain v where v: "uio_parse_args args u = Ret () v" "can_print v" "s_uio_drv_path v = s_uio_drv_path u"
    "os_calls v = os_calls u"
    using parse_args_path [OF u(3) assms(4)] by blast
  moreover have "s_uio_drv_path u = None" using u(2) by (simp add: uio_cleaned_def)
  ultimately obtain w where "fpga_platform_init fuel args u
      = (if s_uio_addr_span v = 0 then Stop (Undefined_behaviour Null_dereference) v else Ret False w)"
    "os_calls w = os_calls v"
    using restart_no_path [OF v(1,2)] by auto
  with u(1) v show ?thesis by (auto simp: thn_def bnd_def)
qed

text \<open>A process that has been started, with its thread and its driver, and that is started again after its
  cleanup: with no arguments, and with a span only.\<close>

lemma uio_restart_fails_witness:
  "(\<exists>t. thn fpga_platform_cleanup (fpga_platform_init 0 []) started_process
      = Stop (Undefined_behaviour Null_dereference) t)
   \<and> (\<exists>t. thn fpga_platform_cleanup (fpga_platform_init 0 [''-s'', show_nat 4096]) started_process
      = Ret False t)"
proof -
  have s: "can_print started_process" "table_tight started_process" "os started_process = demo_os"
    "errno started_process = 0"
    by (simp_all add: started_process_def can_print_def table_tight_def vec_inv_def register_process_def
        uio_process_def)
  have locks: "s_intThread_id started_process = 0 \<or> locks_work (os started_process)"
    by (simp add: s locks_work_def demo_os_def)
  have none: "\<not> names_driver []" by (simp add: names_driver_def)
  have span: "\<not> names_driver [''-s'', show_nat 4096]"
    unfolding names_driver_def getopt_span by simp
  obtain u v w where c: "fpga_platform_cleanup started_process = Ret () u" "uio_parse_args [] u = Ret () v"
    and 1: "thn fpga_platform_cleanup (fpga_platform_init 0 []) started_process
      = (if s_uio_addr_span v = 0 then Stop (Undefined_behaviour Null_dereference) v else Ret False w)"
    using uio_restart_fails [OF s(1,2) locks none, where fuel = 0] by blast
  obtain u' v' w' where c': "fpga_platform_cleanup started_process = Ret () u'"
    "uio_parse_args [''-s'', show_nat 4096] u' = Ret () v'"
    and 2: "thn fpga_platform_cleanup (fpga_platform_init 0 [''-s'', show_nat 4096]) started_process
      = (if s_uio_addr_span v' = 0 then Stop (Undefined_behaviour Null_dereference) v' else Ret False w')"
    using uio_restart_fails [OF s(1,2) locks span, where fuel = 0] by blast
  have thread: "s_intThread_id started_process \<noteq> 0"
    by (simp add: started_process_def uio_process_def)
  have "wp fpga_platform_cleanup (\<lambda>_ t. uio_cleaned t \<and> can_print t) started_process"
    by (rule wp_cleanup_prints [OF s(1,2) _ _ _ thread]) (simp_all add: s(3) demo_os_def)
  then have u: "uio_cleaned u" "can_print u" by (simp_all add: c wp_def)
  have "v = u" using c(2) by (simp add: parse_no_args)
  then have "s_uio_addr_span v = 0" using u by (simp add: uio_cleaned_def)
  moreover have "errno u \<noteq> ERANGE" using u by (simp add: uio_cleaned_def ERANGE_def)
  then have "s_uio_addr_span v' = 4096"
    using c c' u parse_span [of 4096 u] by (auto simp add: LONG_MAX_def)
  ultimately show ?thesis using 1 2 by auto
qed

section \<open>The interrupt functions\<close>

text \<open>C20: The interrupt functions on a handle.  On a handle of the table each changes the entry of that
  handle only, in the members it is about; registering reports whether an ISR was there before, and
  enabling posts the semaphore exactly when it is down.  Every other handle, the invalid one included,
  is refused with -1 and nothing changes.\<close>

theorem isr_functions:
  assumes "vec_inv s" and "vec_size s < 2 ^ 63" and "-1 \<le> h" and "h \<le> INT_MAX"
  shows "if 0 \<le> h \<and> nat h < vec_size s then
      wp (fpga_register_isr h isr ctx) (\<lambda>r t.
        only_entry s (nat h) (\<lambda>x. x\<lparr>isr_callback := isr, isr_context := ctx\<rparr>) t
        \<and> g_intSem t = g_intSem s \<and> r = (if isr_callback (vec_abs s ! nat h) \<noteq> 0 then 1 else 0)) s
      \<and> wp (fpga_enable_interrupt h) (\<lambda>r t.
        only_entry s (nat h) (\<lambda>x. x\<lparr>interrupt_enable := True\<rparr>) t \<and> r = 0
        \<and> (os_result (os s) (os_calls s) Sem_getvalue = 0
           \<and> os_result (os s) (os_calls s @ [Sem_getvalue]) Sem_post = 0
           \<longrightarrow> g_intSem t = (if g_intSem s \<le> 0 then g_intSem s + 1 else g_intSem s))) s
      \<and> wp (fpga_disable_interrupt h) (\<lambda>r t.
        only_entry s (nat h) (\<lambda>x. x\<lparr>interrupt_enable := False\<rparr>) t \<and> r = 0
        \<and> g_intSem t = g_intSem s) s
    else fpga_register_isr h isr ctx s = Ret (-1) s \<and> fpga_enable_interrupt h s = Ret (-1) s
      \<and> fpga_disable_interrupt h s = Ret (-1) s"
proof (cases "0 \<le> h \<and> nat h < vec_size s")
  case True
  then have h: "0 \<le> h" "nat h < vec_size s" by simp_all
  show ?thesis
    unfolding if_P [OF True]
    by (intro conjI wp_register_isr wp_enable_interrupt wp_disable_interrupt assms(1,4) h)
next
  case False
  with assms(2-4) have "\<not> valid_handle h (vec_size s)" by (simp add: valid_handle_iff)
  then show ?thesis by (simp only: if_not_P [OF False] run_invalid_handle simp_thms)
qed

lemma isr_functions_witness:
  "wp (fpga_register_isr 0 0x4000 7) (\<lambda>r t. r = 0 \<and> isr_callback (vec_abs t ! 0) = 0x4000)
     (register_process Native_64)
   \<and> fpga_enable_interrupt (-1) (register_process Native_64) = Ret (-1) (register_process Native_64)"
proof -
  let ?s = "register_process Native_64"
  have s: "vec_inv ?s" "vec_size ?s < 2 ^ 63" "vec_abs ?s = [single_entry 0x1000]"
    by (simp_all add: vec_inv_def vec_abs_def)
  have "wp (fpga_register_isr 0 0x4000 7) (\<lambda>r t. r = 0 \<and> isr_callback (vec_abs t ! 0) = 0x4000) ?s"
    using isr_functions [OF s(1,2), where h = 0 and isr = "0x4000" and ctx = 7]
    by (auto simp: only_entry_def s(3) single_entry_def elim!: wp_mono)
  moreover have "fpga_enable_interrupt (-1) ?s = Ret (-1) ?s"
    using isr_functions [OF s(1,2), where h = "-1"] by simp
  ultimately show ?thesis ..
qed

section \<open>The interrupt test program\<close>

text \<open>The lines that \<open>main\<close> and its ISR print, in the two threads: how often the ISR is called before a
  line.\<close>

lemma calls_between:
  assumes "interleaved cs s t"
  shows "length (isr_calls s) + (length (isr_calls t) - length (isr_calls s)) = length (isr_calls t)"
  using isr_calls_grow [OF assms] by auto

text \<open>C19: The test program \<open>uio/test/interrupt/main.c\<close>, in any execution of its two threads.  When the
  driver opens and maps and the locks, the semaphore and the thread work, it returns 0: it opens and maps
  the driver, creates the thread, posts the semaphore when the interrupt is enabled, stops and joins the
  thread before the driver is closed, and frees the table.  The thread calls nothing but the ISR of the
  program; the counter ends as the number of these calls, each of which has printed its line; and, between
  and after the messages of the library, the lines of \<open>main\<close> are the two about the interrupt, one
  verdict, PASS with the number of calls when there was one and FAIL when there was none, and the three
  at the end.  The states \<open>u0\<close>, \<open>u1\<close> and \<open>u2\<close> are those of the two threads when the interrupt has been
  enabled, when it has been disabled, and when the thread has been joined.\<close>

theorem interrupt_main:
  assumes "can_print s" and "errno s \<noteq> ERANGE" and "vec_inv s" and "vec_abs s = []" and "allocs_ok s"
    and "os_result (os s) (os_calls s) (Open ''/dev/uio0'' False) = fd" and "0 \<le> fd"
    and "os_pointer (os s) (os_calls s @ [Open ''/dev/uio0'' False]) (Mmap 4096 fd 0) \<noteq> MAP_FAILED"
    and "locks_work (os s)" and "isr_count s = 0" and "isr \<noteq> 0"
    and "interleaved [Register isr 0, Enable] irq_start u0" and "interleaved [Disable] u0 u1"
    and "interleaved [Cleanup] u1 u2" and "int (length (isr_calls u2)) \<le> INT_MAX"
    and "na = length (isr_calls u0)" and "nb = length (isr_calls u1) - length (isr_calls u0)"
    and "nc = length (isr_calls u2) - length (isr_calls u1)"
  shows "set (isr_calls u2) \<subseteq> {(isr, 0)}
    \<and> wp (uio_interrupt_main fuel isr na nb nc) (\<lambda>r t. r = 0 \<and> uio_cleaned t
      \<and> live t = live s - vec_blocks s \<and> isr_count t = int (length (isr_calls u2))
      \<and> (\<exists>ini fin. out t = out s @ start_lines @ ini @ session_lines na nb nc @ fin
          @ verdict (int (length (isr_calls u2))) # end_lines)
      \<and> (\<exists>tid. tid \<noteq> 0 \<and> os_calls t = os_calls s
          @ [Open ''/dev/uio0'' False, Mmap 4096 fd 0, Sem_init, Rwlock_init, Rwlock_wrlock, Rwlock_unlock,
             Thread_create, Sem_getvalue, Sem_post, Rwlock_wrlock, Rwlock_unlock, Sem_post, Thread_join tid,
             Close fd])) s" (is "?isr \<and> wp _ ?Q s")
proof
  have "interleaved [Register isr 0, Enable, Disable, Cleanup] irq_start u2"
    using interleaved_append [OF interleaved_append [OF assms(12,13)] assms(14)] by simp
  then show ?isr using assms(11) by (rule test_calls_isr)
  have n: "na + nb + nc = length (isr_calls u2)"
    using calls_between [OF assms(13)] calls_between [OF assms(14)] assms(16-18) by simp
  have bound: "int (na + nb + nc) \<le> INT_MAX" unfolding n by (rule assms(15))
  obtain p where s: "test_ready fd p s" using assms by (simp add: test_ready_def)
  let ?v = "s\<lparr>out := out s @ start_lines\<rparr>"
  have "wp (fpga_platform_init fuel argv_valid) (\<lambda>r t. r \<and> wp (session isr na nb nc) ?Q t) ?v"
  proof (rule wp_mono [OF wp_test_init [OF test_ready_out [OF s]]])
    fix r and u :: "'a interrupt_test_state_scheme"
    assume u: "r \<and> ready (p + s_uio_start_addr ?v) fd
      ([Open ''/dev/uio0'' False, Mmap 4096 fd 0] @ create_calls) ?v u"
    then have f: "s_intThread_id u \<noteq> 0" "live u - vec_blocks u = live s - vec_blocks s"
      "os_calls u = os_calls s @ [Open ''/dev/uio0'' False, Mmap 4096 fd 0] @ create_calls"
      using vec_cong [of ?v s] by (simp_all add: ready_def)
    from u obtain ini where "out u = out s @ start_lines @ ini" by (auto simp: ready_def only_prints_def)
    moreover have "wp (session isr na nb nc) (\<lambda>r t. r = 0 \<and> uio_cleaned t \<and> live t = live u - vec_blocks u
      \<and> os_calls t = os_calls u @ session_calls (s_intThread_id u) fd
      \<and> isr_count t = int (na + nb + nc)
      \<and> (\<exists>fin. out t = out u @ session_lines na nb nc @ fin @ verdict (int (na + nb + nc)) # end_lines)) u"
      by (rule wp_session [OF conjunct2 [OF u] _ assms(7) _ bound]) (simp_all add: assms(9,10))
    ultimately show "r \<and> wp (session isr na nb nc) ?Q u"
      using u f n by (auto simp: session_calls_def stop_calls_def create_calls_def elim!: wp_mono; blast)
  qed
  then have "wp (fpga_platform_init fuel argv_valid) (\<lambda>r. wp (if \<not> r
      then thn (print_std ''Test Error: fpga_platform_init\<newline>'' []) (ret (-1))
      else session isr na nb nc) ?Q) ?v"
    by (rule wp_mono) simp
  then show "wp (uio_interrupt_main fuel isr na nb nc) ?Q s"
    by (simp add: uio_interrupt_main_def wp_thn wp_bnd wp_print_std start_lines_def std_line_def)
qed

text \<open>One interrupt while the application sleeps.\<close>

lemma interleaved_threads: "thread_step\<^sup>*\<^sup>* s t \<Longrightarrow> interleaved cs t u \<Longrightarrow> interleaved cs s u"
  by (induction rule: converse_rtranclp_induct) (auto intro: interleaved.intros)

definition called_once :: irq_state where
  "called_once = (at_test 3 0x4000 0)\<lparr>thread := Isr_returned 3, isr_calls := [(0x4000, 0)]\<rparr>"

definition joined_once :: irq_state where
  "joined_once = called_once\<lparr>thread := Done True, open_fds := [], enabled := False, app := Joined,
     exit_flag := True, sem := 2\<rparr>"

lemma once_disabled: "interleaved [Disable] (after_enable 0x4000 0) (called_once\<lparr>enabled := False\<rparr>)"
proof -
  let ?e = "after_enable 0x4000 0"
  have "thread_step\<^sup>*\<^sup>* ?e (at_test 3 0x4000 0)"
    using thread_to_interrupted [of ?e 3] by (simp add: after_enable_def irq_start_def at_test_def)
  also have "thread_step\<^sup>*\<^sup>* (at_test 3 0x4000 0) called_once"
    using thread_calls [of "at_test 3 0x4000 0" 3]
    by (simp add: called_once_def at_test_def after_enable_def irq_start_def)
  finally have "thread_step\<^sup>*\<^sup>* ?e called_once" .
  moreover have "interleaved [Disable] called_once (called_once\<lparr>enabled := False\<rparr>)"
    by (intro interleaved_call disable_run)
      (simp add: called_once_def at_test_def after_enable_def irq_start_def)
  ultimately show ?thesis by (rule interleaved_threads)
qed

lemma once_joined: "interleaved [Cleanup] (called_once\<lparr>enabled := False\<rparr>) joined_once"
proof -
  let ?a = "called_once\<lparr>enabled := False\<rparr>"
  let ?b = "?a\<lparr>thread := At_lock, open_fds := []\<rparr>"
  let ?c = "?b\<lparr>app := Exit_flag_set, exit_flag := True\<rparr>" and ?d = "?b\<lparr>app := Joining, exit_flag := True, sem := 2\<rparr>"
  let ?e = "?d\<lparr>thread := Flags_read True\<rparr>" and ?f = "?d\<lparr>thread := Done True\<rparr>"
  note defs = called_once_def at_test_def after_enable_def irq_start_def
  have 1: "thread_step ?a ?b" using close_fd [of ?a 3] by (simp add: defs)
  have 2: "app_step Cleanup ?b ?c" using cleanup_flag [of ?b] by (simp add: defs holds_lock_def)
  have 3: "app_step Cleanup ?c ?d" using cleanup_post [of ?c] by (simp add: defs numeral_2_eq_2)
  have 4: "thread_step ?d ?e" using rdlock [of ?d] by simp
  have 5: "thread_step ?e ?f" using unlock_exit [of ?e] by simp
  have 6: "app_step Cleanup ?f joined_once"
    using cleanup_join [of ?f True] by (simp add: joined_once_def defs)
  have "interleaved [Cleanup] ?f joined_once"
    by (rule call_ends [OF 6 _ at_rest]) (simp add: joined_once_def between_calls_def)
  then have "interleaved [Cleanup] ?d joined_once" by (rule thread_runs [OF 4 thread_runs [OF 5]])
  then have "interleaved [Cleanup] ?c joined_once"
    by (rule call_goes_on [OF 3, rotated]) (simp add: between_calls_def)
  then have "interleaved [Cleanup] ?b joined_once"
    by (rule call_goes_on [OF 2, rotated]) (simp add: between_calls_def)
  then show ?thesis by (rule thread_runs [OF 1])
qed

definition test_process :: interrupt_test_state where
  "test_process = uio_state.extend (uio_process (\<lambda>a. 0) demo_os) (interrupt_test_state.fields 0)"

lemma interrupt_main_witness:
  "wp (uio_interrupt_main 0 0x4000 0 1 0) (\<lambda>r t. r = 0 \<and> live t = 0 \<and> isr_count t = 1
      \<and> length (os_calls t) = 14
      \<and> Stdout_vprintf ''Interrupt test PASS. %d interrupt was triggered.\<newline>'' [Arg_int 1] \<in> set (out t))
     test_process"
proof -
  have c: "isr_calls (after_enable 0x4000 0) = []" "isr_calls (called_once\<lparr>enabled := False\<rparr>) = [(0x4000, 0)]"
    "isr_calls joined_once = [(0x4000, 0)]"
    by (simp_all add: after_enable_def irq_start_def called_once_def joined_once_def)
  note main = interrupt_main [where s = test_process and fd = 3 and isr = "0x4000" and fuel = 0
      and na = 0 and nb = 1 and nc = 0, OF _ _ _ _ _ _ _ _ _ _ _
      after_enable_interleaved once_disabled once_joined, THEN conjunct2]
  show ?thesis
    by (rule wp_mono [OF main])
      (auto simp: c test_process_def uio_process_def uio_state.defs interrupt_test_state.defs can_print_def
        ERANGE_def vec_inv_def vec_abs_def allocs_ok_def demo_os_def MAP_FAILED_def locks_work_def
        vec_blocks_def verdict_def)
qed

end
