(* ===== verification/Devmem_Properties.thy ===== *)
theory Devmem_Properties
  imports Demo_Platforms
begin

text \<open>
  The properties of the devmem platform, \<open>devmem/src/intel_fpga_platform_api_devmem.c\<close>: the
  configurations it accepts and the addresses of a single component.  The life of a process that scans
  a Device Feature List is in \<open>Show_Properties\<close>.
\<close>

section \<open>Configurations\<close>

lemma more_messagesD:
  assumes "more_messages s1 t"
  shows "os_calls t = os_calls s1" and "os t = os s1" and "vec t = vec s1"
    and "vec_size t = vec_size s1" and "vec_reserved t = vec_reserved s1" and "live t = live s1"
    and "env t = env s1" and "mem t = mem s1" and "dfh_parent_stack t = dfh_parent_stack s1"
    and "s_devmem_drv_path t = s_devmem_drv_path s1" and "s_devmem_addr_span t = s_devmem_addr_span s1"
    and "s_devmem_start_addr t = s_devmem_start_addr s1"
    and "s_devmem_dfl_entry_addr t = s_devmem_dfl_entry_addr s1"
    and "s_devmem_single_component_mode t = s_devmem_single_component_mode s1"
    and "can_print t = can_print s1"
  using assms by (auto simp: more_messages_def can_print_def)

text \<open>The configurations that are refused.  Without a span, without a start address, or in DFL mode
  with an entry address outside the range from the start address to the end, which is computed modulo
  the word size, initialisation fails; nothing is asked of the operating system and the table is left
  alone.\<close>

lemma devmem_start_refused:
  assumes "devmem_parse_args args s = Ret () s1" and "can_print s1"
    and "s_devmem_addr_span s1 = 0 \<or> s_devmem_start_addr s1 = 0
      \<or> (s_devmem_single_component_mode s1 = 0
         \<and> (s_devmem_dfl_entry_addr s1 < s_devmem_start_addr s1
            \<or> s_devmem_start_addr s1 + s_devmem_addr_span s1 \<le> s_devmem_dfl_entry_addr s1))"
  shows "wp (fpga_devmem_platform_init fuel args)
    (\<lambda>r t. \<not> r \<and> os_calls t = os_calls s1 \<and> vec t = vec s1) s"
proof (rule wp_devmem_init [OF assms(1,2)])
  fix t
  assume "devmem_config_ok s1"
  with assms(3) show "wp (devmem_bring_up fuel) (\<lambda>r t. \<not> r \<and> os_calls t = os_calls s1 \<and> vec t = vec s1) t"
    by (auto simp: devmem_config_ok_def)
next
  fix t
  assume "more_messages s1 t"
  then show "\<not> False \<and> os_calls t = os_calls s1 \<and> vec t = vec s1"
    by (simp add: more_messagesD)
qed

lemma devmem_no_args: "devmem_parse_args [] s = Ret () s"
  by (simp add: devmem_parse_args_def run_rules)

lemma devmem_start_refused_witness:
  "wp (fpga_devmem_platform_init 0 []) (\<lambda>r t. \<not> r \<and> os_calls t = []) (devmem_process (\<lambda>a. 0) demo_os)"
  by (rule wp_mono [OF devmem_start_refused [OF devmem_no_args]])
    (simp_all add: devmem_process_def can_print_def)

section \<open>Addresses\<close>

text \<open>C22: The addresses of a single component.  The offset that is mapped is page aligned and does not
  pass the start address by a page or more; the base address of the one handle is that far into the
  map; decoding it gives the physical start address back.\<close>

theorem devmem_start_single:
  assumes "devmem_parse_args args s = Ret () s1" and "can_print s1" and "devmem_config_ok s1"
    and "s_devmem_single_component_mode s1 \<noteq> 0" and "devmem_resources path fd p s1"
    and "vec_inv s1" and "vec_abs s1 = []" and "allocs_ok s1"
  shows "wp (bnd (fpga_devmem_platform_init fuel args) (\<lambda>r. bnd (fpga_open 0) (\<lambda>h.
        bnd (fpga_devmem_get_base_address h) (\<lambda>b. ret (r, h, b)))))
    (\<lambda>(r, h, b) t. r \<and> h = 0
       \<and> (\<exists>off. os_calls t = os_calls s1 @ [Open path True, Mmap (s_devmem_addr_span s1) fd off]
            \<and> take_bit 12 off = 0 \<and> b - p < 4096 \<and> off + (b - p) = s_devmem_start_addr s1)
       \<and> devmem_dfl_base_addr_decoder p (s_devmem_start_addr s1) b = s_devmem_start_addr s1) s"
  (is "wp _ ?Q s")
  unfolding wp_bnd [of "fpga_devmem_platform_init fuel args"]
proof (rule wp_devmem_init [OF assms(1,2)])
  fix t
  assume t: "more_messages s1 t"
  note f = more_messagesD [OF t]
  let ?start = "s_devmem_start_addr s1" and ?b = "p + (s_devmem_start_addr s1 AND NOT MASK_4K_ADDR)"
  have c: "can_print t" "devmem_resources path fd p t" "s_devmem_single_component_mode t \<noteq> 0"
    "vec_inv t" "vec_abs t = []" "allocs_ok t"
    using assms f vec_cong [of t s1] by (simp_all add: devmem_resources_def allocs_ok_def)
  have dec: "devmem_dfl_base_addr_decoder p ?start ?b = ?start"
    by (simp add: devmem_dfl_base_addr_decoder_def)
  have off: "take_bit 12 (?start AND MASK_4K_ADDR) = 0" "?b - p < 4096"
    "(?start AND MASK_4K_ADDR) + (?b - p) = ?start"
    using page_aligned in_page [of ?start] page_split [of ?start] by simp_all
  show "wp (devmem_bring_up fuel) (\<lambda>r. wp (bnd (fpga_open 0) (\<lambda>h.
        bnd (fpga_devmem_get_base_address h) (\<lambda>b. ret (r, h, b)))) ?Q) t"
  proof (rule wp_mono [OF wp_devmem_single [OF c(2,1,3-6)]])
    fix r and u :: "'a devmem_state_scheme"
    assume u: "r \<and> vec_inv u
      \<and> vec_abs u = [single_entry (p + (s_devmem_start_addr t AND NOT MASK_4K_ADDR))]
      \<and> live u - vec_blocks u = live t - vec_blocks t
      \<and> os_calls u = os_calls t @ devmem_map_calls path fd t"
    then have n: "vec_size u = 1" using length_vec_abs [of u] by simp
    with u f obtain xs where xs: "vec u = Some xs" "0 < length xs" "xs ! 0 = single_entry ?b"
      by (auto elim!: vec_inv_Some [of u 0])
    have calls: "os_calls u = os_calls s1 @ [Open path True, Mmap (s_devmem_addr_span s1) fd (?start AND MASK_4K_ADDR)]"
      using u f by (simp add: devmem_map_calls_def)
    have "?Q (r, 0, ?b) (u\<lparr>g_common_fpga_interface_info_vec := v\<rparr>)" for v
      using u by (auto simp: calls off dec in_page page_split intro!: exI [of _ "?start AND MASK_4K_ADDR"]
        simp del: take_bit_and)
    with xs n show "wp (bnd (fpga_open 0) (\<lambda>h.
        bnd (fpga_devmem_get_base_address h) (\<lambda>b. ret (r, h, b)))) ?Q u"
      by (simp add: fpga_open_def fpga_devmem_get_base_address_def
          wp_bnd wp_thn wp_ret wp_vec_size wp_vec_at wp_vec_upd single_entry_def)
  qed
qed (use assms(3) in simp)

text \<open>The options of a single component.\<close>

lemma devmem_parse_two:
  fixes s :: "'e devmem_state_scheme"
  assumes "int n \<le> LONG_MAX" and "int k \<le> LONG_MAX" and "errno s \<noteq> ERANGE" and "can_print s"
  shows "devmem_parse_args [''-s'', show_nat n, ''-a'', show_nat k] s
     = Ret () (s\<lparr>s_devmem_addr_span := of_nat n, s_devmem_start_addr := of_nat k\<rparr>)"
proof -
  let ?t = "s\<lparr>s_devmem_addr_span := of_nat n\<rparr>"
  have g: "getopt_long devmem_short_options devmem_long_options [''-s'', show_nat n, ''-a'', show_nat k]
      = [Opt_arg (CHR ''s'') (show_nat n), Opt_arg (CHR ''a'') (show_nat k)]"
    by (simp add: is_prefix_def devmem_short_options_def)
  have p: "devmem_parse_integer_arg nm (show_nat n) s = Ret (int n) s"
    "devmem_parse_integer_arg nm (show_nat k) ?t = Ret (int k) ?t" for nm
    unfolding devmem_parse_integer_arg_def
    using run_parse_show [OF assms(1,4), of nm] run_parse_show [OF assms(2), of ?t nm] assms(3,4)
    by simp_all
  show ?thesis
    unfolding devmem_parse_args_def g devmem_options.simps devmem_option.simps
    by (simp add: run_rules p)
qed

lemma devmem_start_single_witness:
  "wp (bnd (fpga_devmem_platform_init 0 [''-s'', show_nat 4096, ''-a'', show_nat 0x12345])
        (\<lambda>r. bnd (fpga_open 0) (\<lambda>h. bnd (fpga_devmem_get_base_address h) (\<lambda>b. ret (r, h, b)))))
    (\<lambda>(r, h, b) t. r \<and> h = 0 \<and> devmem_dfl_base_addr_decoder 0x1000 0x12345 b = 0x12345)
    (devmem_process (\<lambda>a. 0) demo_os)"
proof -
  let ?s = "devmem_process (\<lambda>a. 0) demo_os"
  let ?s1 = "?s\<lparr>s_devmem_addr_span := 4096, s_devmem_start_addr := 0x12345\<rparr>"
  have "devmem_parse_args [''-s'', show_nat 4096, ''-a'', show_nat 0x12345] ?s
      = Ret () (?s\<lparr>s_devmem_addr_span := of_nat 4096, s_devmem_start_addr := of_nat 0x12345\<rparr>)"
    by (rule devmem_parse_two) (simp_all add: devmem_process_def LONG_MAX_def ERANGE_def can_print_def)
  then have p: "devmem_parse_args [''-s'', show_nat 4096, ''-a'', show_nat 0x12345] ?s = Ret () ?s1"
    by simp
  show ?thesis
    by (rule wp_mono [OF devmem_start_single [OF p, where path = "''/dev/mem''" and fd = 3 and p = "0x1000"]])
      (auto simp: devmem_process_def can_print_def devmem_config_ok_def devmem_resources_def demo_os_def
        MAP_FAILED_def vec_inv_def vec_abs_def allocs_ok_def)
qed

end
