(* ===== verification/Dfl_Report.thy ===== *)
theory Dfl_Report
  imports Dfl_Limits Platform_Table
begin

text \<open>
  The report of the interfaces, \<open>common_dfl_print_all_interfaces\<close> of
  \<open>common/src/intel_fpga_api_cmn_dfl.c\<close>: what is printed depends on the table only.
  The lines are shared with theory \<open>Dfl_Show\<close>.
\<close>

section \<open>Lines\<close>

type_synonym line = "string \<times> msg_arg list"

definition data_words :: "FPGA_INTERFACE_PARAMETER \<Rightarrow> u64 list" where
  "data_words p = (case data p of None \<Rightarrow> [] | Some ws \<Rightarrow> ws)"

definition data_lines :: "FPGA_INTERFACE_PARAMETER \<Rightarrow> nat \<Rightarrow> nat \<Rightarrow> line list" where
  "data_lines p j k =
     map (\<lambda>j. (''      64-bit Param Data[%d]: 0x%016llX'', [Arg_int (int j), Arg_word (data_words p ! j)]))
       [j..<j + k]"

definition param_lines :: "nat \<Rightarrow> FPGA_INTERFACE_PARAMETER \<Rightarrow> line list" where
  "param_lines i p =
     [(''      ------ Parameter %d ------   '', [Arg_int (int i)]),
      (''      Version: %d'', [Arg_word (ucast (version p))]),
      (''      Param ID: %d'', [Arg_word (ucast (param_id p))]),
      (''      Param Data Size: %d'', [Arg_word (data_size p)])]
     @ data_lines p 0 (unat (data_size p) div 8)"

fun params_lines :: "nat \<Rightarrow> FPGA_INTERFACE_PARAMETER list \<Rightarrow> line list" where
  "params_lines i [] = []"
| "params_lines i (p # ps) = param_lines i p @ params_lines (Suc i) ps"

definition param_list :: "FPGA_INTERFACE_INFO \<Rightarrow> FPGA_INTERFACE_PARAMETER list" where
  "param_list x = (case parameters x of None \<Rightarrow> [] | Some ps \<Rightarrow> ps)"

definition identity_lines :: "FPGA_INTERFACE_INFO \<Rightarrow> line list" where
  "identity_lines x =
     [(''   128-bit GUID: 0x%016llX%016llX'', [Arg_word (guid_h (guid x)), Arg_word (guid_l (guid x))]),
      (''   Instance ID: %d'', [Arg_word (ucast (instance_id x))]),
      (''   Group ID: %d'', [Arg_word (ucast (group_id x))])]
     @ params_lines 0 (param_list x)"

definition interface_lines :: "(u64 \<Rightarrow> u64) \<Rightarrow> nat \<Rightarrow> FPGA_INTERFACE_INFO \<Rightarrow> line list" where
  "interface_lines dec i x =
     [(''   ---------- Interface %d ----------'', [Arg_word (of_nat i)]),
      (''   Base Address: 0x%llX'', [Arg_word (dec (base_address x))])] @ identity_lines x"

fun report :: "(u64 \<Rightarrow> u64) \<Rightarrow> nat \<Rightarrow> FPGA_INTERFACE_INFO list \<Rightarrow> line list" where
  "report dec i [] = []"
| "report dec i (x # xs) = interface_lines dec i x @ report dec (Suc i) xs"

text \<open>The events of lines that are printed as information.\<close>

definition line_events :: "'e cmn_state_scheme \<Rightarrow> line list \<Rightarrow> out_event list" where
  "line_events s ls = concat (map (\<lambda>(fmt, args). msg_events s FPGA_MSG_PRINTF_INFO fmt args) ls)"

definition printed :: "line list \<Rightarrow> 'e cmn_state_scheme \<Rightarrow> 'e cmn_state_scheme" where
  "printed ls s = s\<lparr>out := out s @ line_events s ls\<rparr>"

lemma line_events_simps [simp]:
  "line_events s [] = []"
  "line_events s ((fmt, args) # ls) = msg_events s FPGA_MSG_PRINTF_INFO fmt args @ line_events s ls"
  "line_events (s\<lparr>out := o1\<rparr>) ls = line_events s ls"
  by (simp_all add: line_events_def split: prod.split)

lemma line_events_append [simp]: "line_events s (ls @ ms) = line_events s ls @ line_events s ms"
  by (simp add: line_events_def)

text \<open>They depend on the print function only.\<close>

lemma line_events_cong:
  assumes "g_common_fpga_platform_printf t = g_common_fpga_platform_printf s"
  shows "line_events t ls = line_events s ls"
proof -
  have "msg_events t FPGA_MSG_PRINTF_INFO = msg_events s FPGA_MSG_PRINTF_INFO"
    by (simp add: fun_eq_iff msg_events_def default_lines_def assms split: FPGA_MSG_PRINTF.split)
  then show ?thesis by (simp add: line_events_def)
qed

lemma printed_twice [simp]: "printed ms (printed ls s) = printed (ls @ ms) s"
  by (simp add: printed_def)

lemma printed_simps [simp]:
  "can_print (printed ls s) = can_print s" "vec (printed ls s) = vec s"
  "vec_size (printed ls s) = vec_size s" "vec_reserved (printed ls s) = vec_reserved s"
  by (simp_all add: printed_def)

lemma printed_nothing [simp]: "printed [] s = s"
  by (cases s) (simp add: printed_def)

lemma printed_vec [simp]: "vec_inv (printed ls s) = vec_inv s" "vec_abs (printed ls s) = vec_abs s"
  using vec_cong [of "printed ls s" s] by simp_all

lemma printed_one:
  "s\<lparr>out := out s @ msg_events s FPGA_MSG_PRINTF_INFO fmt args\<rparr> = printed [(fmt, args)] s"
  by (simp add: printed_def)

section \<open>What can be printed\<close>

text \<open>Every parameter has the data that its size says.\<close>

definition printable :: "FPGA_INTERFACE_INFO \<Rightarrow> bool" where
  "printable x \<longleftrightarrow> (\<forall>p \<in> set (param_list x). unat (data_size p) div 8 \<le> length (data_words p))"

lemma printable_row: "printable (row a d ps parent)"
proof -
  have "unat (8 * of_nat (length ws) :: u64) div 8 \<le> length (ws :: u64 list)" for ws
  proof -
    have "(8 * of_nat (length ws) :: u64) = of_nat (8 * length ws)" by simp
    then have "unat (8 * of_nat (length ws) :: u64) = (8 * length ws) mod 2 ^ 64"
      by (simp only: unat_of_nat) simp
    also have "\<dots> \<le> 8 * length ws" by simp
    finally show ?thesis by linarith
  qed
  moreover have "p \<in> set (blocks ps) \<Longrightarrow> \<exists>h ws. p = param_of h ws" for p
    by (induction ps rule: params_induct) auto
  ultimately have "unat (data_size p) div 8 \<le> length (data_words p)"
    if "p \<in> set (blocks ps)" for p
    using that by (fastforce simp: param_of_def data_words_def)
  then show ?thesis
    by (auto simp: printable_def param_list_def row_def params_result_def with_params_def
        param_array_def interface_of_def)
qed

text \<open>What holds of every row holds of the entries of a scanned table.\<close>

lemma rows_all:
  assumes "\<And>a d ps p. P (row a d ps p)" and "x \<in> set (rows a t)"
  shows "P x"
proof -
  have "list_all P (rows_level a p c t)"
    and "list_all P (rows_params a c ps)" and "list_all P (rows_branch a c br)" for p c ps br
    by (induction t and ps and br arbitrary: a p c and a c and a c) (simp_all add: assms(1))
  then show ?thesis using assms(2) by (auto simp: rows_def list_all_iff)
qed

lemma printable_rows: "x \<in> set (rows a t) \<Longrightarrow> printable x"
  by (rule rows_all [where P = printable]) (rule printable_row)

lemma closed_rows: "x \<in> set (rows a t) \<Longrightarrow> \<not> is_mmio_opened x"
  by (rule rows_all [where P = "\<lambda>x. \<not> is_mmio_opened x"])
    (simp_all add: row_def params_result_def with_params_def interface_of_def)

section \<open>The report of the library\<close>

lemma run_print_param_data:
  fixes s :: "'e cmn_state_scheme"
  assumes "vec s = Some xs" and "i < length xs" and "parameters (xs ! i) = Some ps" and "j < length ps"
    and "n + k \<le> length (data_words (ps ! j))" and "can_print s"
  shows "print_param_data k i j n s = Ret () (printed (data_lines (ps ! j) n k) s)"
  using assms
proof (induction k arbitrary: n s)
  case 0
  then show ?case by (simp add: run_rules data_lines_def)
next
  case (Suc k)
  let ?l = "[(''      64-bit Param Data[%d]: 0x%016llX'',
    [Arg_int (int n), Arg_word (data_words (ps ! j) ! n)])]"
  from Suc.prems(5) obtain ws where ws: "data (ps ! j) = Some ws" "n < length ws"
    by (auto simp: data_words_def split: option.splits)
  have lines: "data_lines (ps ! j) n (Suc k) = ?l @ data_lines (ps ! j) (Suc n) k"
    by (simp add: data_lines_def upt_conv_Cons del: upt_Suc)
  have "print_param_data k i j (Suc n) (printed ?l s)
      = Ret () (printed (data_lines (ps ! j) (Suc n) k) (printed ?l s))"
    by (rule Suc.IH) (use Suc.prems in simp_all)
  with Suc.prems ws lines show ?case
    by (simp add: run_rules param_at_def common_fpga_interface_info_vec_at_def deref_def printed_one
        data_words_def)
qed

lemma run_print_params:
  fixes s :: "'e cmn_state_scheme"
  assumes "vec s = Some xs" and "i < length xs" and "parameters (xs ! i) = Some ps"
    and "j + k = length ps" and "printable (xs ! i)" and "can_print s"
  shows "print_params k i j s = Ret () (printed (params_lines j (drop j ps)) s)"
  using assms
proof (induction k arbitrary: j s)
  case 0
  then show ?case by (simp add: run_rules)
next
  case (Suc k)
  let ?p = "ps ! j"
  let ?h = "[(''      ------ Parameter %d ------   '', [Arg_int (int j)]),
      (''      Version: %d'', [Arg_word (ucast (version ?p))]),
      (''      Param ID: %d'', [Arg_word (ucast (param_id ?p))]),
      (''      Param Data Size: %d'', [Arg_word (data_size ?p)])]"
  let ?d = "data_lines ?p 0 (unat (data_size ?p) div 8)"
  have j: "j < length ps" using Suc.prems(4) by simp
  then have "?p \<in> set (param_list (xs ! i))" using Suc.prems(3) by (simp add: param_list_def)
  then have "unat (data_size ?p) div 8 \<le> length (data_words ?p)"
    using Suc.prems(5) by (auto simp: printable_def)
  then have d: "print_param_data (unat (data_size ?p) div 8) i j 0 (printed ?h s)
      = Ret () (printed ?d (printed ?h s))"
    using Suc.prems j by (intro run_print_param_data [where xs = xs]) simp_all
  have rest: "print_params k i (Suc j) (printed ?d (printed ?h s))
      = Ret () (printed (params_lines (Suc j) (drop (Suc j) ps)) (printed ?d (printed ?h s)))"
    by (rule Suc.IH) (use Suc.prems in simp_all)
  have lines: "params_lines j (drop j ps) = (?h @ ?d) @ params_lines (Suc j) (drop (Suc j) ps)"
    by (simp add: Cons_nth_drop_Suc [OF j, symmetric] param_lines_def)
  show ?case
    using Suc.prems j d rest
    by (simp add: run_rules param_at_def common_fpga_interface_info_vec_at_def deref_def printed_one
        lines)
qed

lemma run_print_interface:
  fixes s :: "'e cmn_state_scheme"
  assumes "vec_inv s" and "i < vec_size s" and "vec_size s < 2 ^ 32" and "printable (vec_abs s ! i)"
    and "can_print s"
  shows "common_dfl_print_interface (of_nat i) dec s
    = Ret () (printed (interface_lines dec i (vec_abs s ! i)) s)"
proof -
  from assms(1,2) obtain xs where xs: "vec s = Some xs" "i < length xs" "xs ! i = vec_abs s ! i"
    by (rule vec_inv_Some)
  have i: "unat (of_nat i :: u32) = i" using assms(2,3) by (simp add: unat_of_nat)
  let ?x = "vec_abs s ! i"
  let ?h = "[(''   ---------- Interface %d ----------'', [Arg_word (of_nat i)]),
      (''   Base Address: 0x%llX'', [Arg_word (dec (base_address ?x))]),
      (''   128-bit GUID: 0x%016llX%016llX'', [Arg_word (guid_h (guid ?x)), Arg_word (guid_l (guid ?x))]),
      (''   Instance ID: %d'', [Arg_word (ucast (instance_id ?x))]),
      (''   Group ID: %d'', [Arg_word (ucast (group_id ?x))])]"
  have "list_all info_ok (vec_abs s)" using assms(1) by (rule vec_abs_ok)
  then have "info_ok ?x" using assms(1,2) by (simp add: list_all_length length_vec_abs)
  then have "print_params (num_of_parameters ?x) i 0 (printed ?h s)
      = Ret () (printed (params_lines 0 (param_list ?x)) (printed ?h s))"
  proof (cases "parameters ?x")
    case None
    with \<open>info_ok ?x\<close> show ?thesis by (simp add: info_ok_def param_list_def run_rules)
  next
    case (Some ps)
    with \<open>info_ok ?x\<close> have "num_of_parameters ?x = length ps" by (simp add: info_ok_def)
    with Some xs assms(4,5) show ?thesis
      using run_print_params [of "printed ?h s" xs i ps 0 "length ps"] by (simp add: param_list_def)
  qed
  moreover have "(ucast (of_nat i :: u32) :: u64) = of_nat i"
    using assms(2,3) by (simp add: unsigned_of_nat take_bit_nat_eq_self)
  ultimately show ?thesis
    using xs i assms(2,5)
    by (simp add: common_dfl_print_interface_def common_fpga_interface_info_vec_size_def run_rules
        common_fpga_interface_info_vec_at_def printed_one interface_lines_def identity_lines_def)
qed

lemma run_print_all:
  fixes s :: "'e cmn_state_scheme"
  assumes "vec_inv s" and "vec_size s < 2 ^ 32" and "\<forall>x \<in> set (vec_abs s). printable x" and "can_print s"
  shows "common_dfl_print_all_interfaces dec s = Ret () (printed (report dec 0 (vec_abs s)) s)"
proof -
  have "print_interfaces_loop k i dec t = Ret () (printed (report dec i (drop i (vec_abs s))) t)"
    if "i + k = vec_size s" "vec_inv t" "vec_size t = vec_size s" "vec_abs t = vec_abs s" "can_print t"
    for k i and t :: "'e cmn_state_scheme"
    using that
  proof (induction k arbitrary: i t)
    case 0
    then show ?case using length_vec_abs [OF assms(1)] by (simp add: run_rules)
  next
    case (Suc k)
    let ?x = "vec_abs s ! i"
    have i: "i < length (vec_abs s)" using Suc.prems(1) length_vec_abs [OF assms(1)] by simp
    have one: "common_dfl_print_interface (of_nat i) dec t = Ret () (printed (interface_lines dec i ?x) t)"
      using run_print_interface [of t i dec] Suc.prems assms(2,3) i by simp
    have "print_interfaces_loop k (Suc i) dec (printed (interface_lines dec i ?x) t)
        = Ret () (printed (report dec (Suc i) (drop (Suc i) (vec_abs s))) (printed (interface_lines dec i ?x) t))"
      by (rule Suc.IH) (use Suc.prems in simp_all)
    with one i show ?case by (simp add: run_rules Cons_nth_drop_Suc [OF i, symmetric])
  qed
  from this [of 0 "vec_size s" s] assms show ?thesis
    by (simp add: common_dfl_print_all_interfaces_def common_fpga_interface_info_vec_size_def run_rules)
qed

end
