(* ===== verification/Dfl_Show.thy ===== *)
theory Dfl_Show
  imports Dfl_Report Devmem_Init Inf_Contracts
begin

text \<open>
  The program \<open>devmem/test-dfl/dfl_show_main.c\<close>: it starts the devmem platform, prints what the
  public functions tell about every interface, opens every interface and ends.  The struct that
  \<open>fpga_get_interface_at\<close> fills shares its parameter array with the table; nothing changes the
  parameters of the table before the program is done with the copy, so that the copy is a value here.
\<close>

section \<open>The parameter array in memory\<close>

text \<open>
  The array that \<open>parameters\<close> points to was laid out by the library: three 64-bit words for each
  element, the two ids with padding, the size, and the pointer to the data.  The program indexes it with
  the size of the struct in its own build, which has two more words if \<open>DFL_WALKER_DEBUG_MODE\<close> is
  defined: \<open>devmem/test-dfl/CMakeLists.txt\<close> defines it for the program and nothing defines it for the
  library.  What a word of one kind means when it is read as another is up to the target: \<open>cell_word\<close>
  is its bit pattern.  A word that is no pointer to data cannot be followed.
\<close>

datatype cell = Ids u16 u16 | Size u64 | Block "u64 list option"

record layout =
  debug_params :: bool
  cell_word :: "cell \<Rightarrow> u64"

definition param_words :: "layout \<Rightarrow> nat" where
  "param_words L = (if debug_params L then 5 else 3)"

definition array_cells :: "FPGA_INTERFACE_PARAMETER list \<Rightarrow> cell list" where
  "array_cells ps = concat (map (\<lambda>p. [Ids (version p) (param_id p), Size (data_size p), Block (data p)]) ps)"

definition param_cell :: "layout \<Rightarrow> FPGA_INTERFACE_INFO \<Rightarrow> nat \<Rightarrow> nat \<Rightarrow> ('e, cell) cmn" where
  "param_cell L info i k =
     bnd (deref (parameters info)) (\<lambda>ps.
     thn (require Out_of_bounds (param_words L * i + k < length (array_cells ps)))
         (ret (array_cells ps ! (param_words L * i + k))))"

fun cell_version :: "layout \<Rightarrow> cell \<Rightarrow> u16" where
  "cell_version L (Ids v p) = v"
| "cell_version L c = ucast (cell_word L c)"

fun cell_param_id :: "layout \<Rightarrow> cell \<Rightarrow> u16" where
  "cell_param_id L (Ids v p) = p"
| "cell_param_id L c = ucast (drop_bit 16 (cell_word L c))"

fun cell_size :: "layout \<Rightarrow> cell \<Rightarrow> u64" where
  "cell_size L (Size n) = n"
| "cell_size L c = cell_word L c"

fun cell_block :: "cell \<Rightarrow> ('e, u64 list) cmn" where
  "cell_block (Block d) = deref d"
| "cell_block c = halt (Undefined_behaviour Unmapped_address)"

section \<open>The program\<close>

fun show_param_data :: "layout \<Rightarrow> nat \<Rightarrow> FPGA_INTERFACE_INFO \<Rightarrow> nat \<Rightarrow> nat \<Rightarrow> ('e, unit) cmn" where
  "show_param_data L 0 info i j = ret ()"
| "show_param_data L (Suc k) info i j =
     bnd (param_cell L info i 2) (\<lambda>c.
     bnd (cell_block c) (\<lambda>ws.
     thn (require Out_of_bounds (j < length ws))
    (thn (info_line ''      64-bit Param Data[%d]: 0x%016llX'' [Arg_int (int j), Arg_word (ws ! j)])
         (show_param_data L k info i (Suc j)))))"

fun show_params :: "layout \<Rightarrow> nat \<Rightarrow> FPGA_INTERFACE_INFO \<Rightarrow> nat \<Rightarrow> ('e, unit) cmn" where
  "show_params L 0 info i = ret ()"
| "show_params L (Suc k) info i =
     thn (info_line ''      ------ Parameter %d ------   '' [Arg_int (int i)])
    (bnd (param_cell L info i 0) (\<lambda>v.
     thn (info_line ''      Version: %d'' [Arg_word (ucast (cell_version L v))])
    (bnd (param_cell L info i 0) (\<lambda>d.
     thn (info_line ''      Param ID: %d'' [Arg_word (ucast (cell_param_id L d))])
    (bnd (param_cell L info i 1) (\<lambda>n.
     thn (info_line ''      Param Data Size: %d'' [Arg_word (cell_size L n)])
    (thn (show_param_data L (unat (cell_size L n) div 8) info i 0)
         (show_params L k info (Suc i)))))))))"

text \<open>The variable \<open>info\<close> keeps its contents when nothing is copied into it.\<close>

fun test_interfaces_loop :: "layout \<Rightarrow> nat \<Rightarrow> nat \<Rightarrow> FPGA_INTERFACE_INFO \<Rightarrow> ('e, unit) cmn" where
  "test_interfaces_loop L 0 index info = ret ()"
| "test_interfaces_loop L (Suc k) index info =
     thn (info_line ''   ---------- Interface %d ----------'' [Arg_int (int index)])
    (bnd (fpga_get_interface_at (of_nat index) True) (\<lambda>(found, copied).
     let info = (case copied of None \<Rightarrow> info | Some x \<Rightarrow> x) in
     thn (info_line ''   fpga_get_interface_at(%d, &info) -> info'' [Arg_int (int index)])
    (thn (info_line ''   128-bit GUID: 0x%016llX%016llX''
            [Arg_word (guid_h (guid info)), Arg_word (guid_l (guid info))])
    (thn (info_line ''   Instance ID: %d'' [Arg_word (ucast (instance_id info))])
    (thn (info_line ''   Group ID: %d'' [Arg_word (ucast (group_id info))])
    (thn (show_params L (num_of_parameters info) info 0)
    (bnd (fpga_open (of_nat index)) (\<lambda>handle.
     thn (info_line ''   fpga_open(%d) -> 0x%08X'' [Arg_int (int index), Arg_int handle])
         (test_interfaces_loop L k (Suc index) info)))))))))"

definition test_interfaces :: "layout \<Rightarrow> int \<Rightarrow> ('e, unit) cmn" where
  "test_interfaces L num_interfaces =
     bnd (gets (\<lambda>s. env_junk_info (env s))) (\<lambda>info.
     test_interfaces_loop L (nat num_interfaces) 0 info)"

definition dfl_show_main :: "layout \<Rightarrow> nat \<Rightarrow> string list \<Rightarrow> ('e, int) devmem" where
  "dfl_show_main L fuel args =
     bnd (fpga_devmem_platform_init fuel args) (\<lambda>_.
     bnd fpga_get_num_of_interfaces (\<lambda>num_interfaces.
     thn (info_line '''' [])
    (thn (info_line '''' [])
    (thn (info_line ''========API Calls=========='' [Arg_word (ucast num_interfaces)])
    (thn (info_line ''fpga_get_num_interfaces() -> %d'' [Arg_word (ucast num_interfaces)])
    (thn (test_interfaces L (sint num_interfaces))
    (thn fpga_devmem_platform_cleanup
         (ret 0))))))))"

section \<open>Its output\<close>

fun show_rows :: "nat \<Rightarrow> FPGA_INTERFACE_INFO list \<Rightarrow> line list" where
  "show_rows i [] = []"
| "show_rows i (x # xs) =
     [(''   ---------- Interface %d ----------'', [Arg_int (int i)]),
      (''   fpga_get_interface_at(%d, &info) -> info'', [Arg_int (int i)])]
     @ identity_lines x
     @ [(''   fpga_open(%d) -> 0x%08X'', [Arg_int (int i), Arg_int (int i)])]
     @ show_rows (Suc i) xs"

definition show_report :: "FPGA_INTERFACE_INFO list \<Rightarrow> line list" where
  "show_report xs =
     [('''', []), ('''', []), (''========API Calls=========='', [Arg_word (of_nat (length xs))]),
      (''fpga_get_num_interfaces() -> %d'', [Arg_word (of_nat (length xs))])] @ show_rows 0 xs"

text \<open>The elements are read as they were written: in a build with the library's struct, and at index 0
  in any build.\<close>

lemma array_cells_simps [simp]:
  "array_cells [] = []"
  "array_cells (p # ps) = Ids (version p) (param_id p) # Size (data_size p) # Block (data p) # array_cells ps"
  by (simp_all add: array_cells_def)

lemma length_array_cells [simp]: "length (array_cells ps) = 3 * length ps"
  by (induction ps) simp_all

lemma nth_array_cells:
  assumes "i < length ps"
  shows "array_cells ps ! (3 * i) = Ids (version (ps ! i)) (param_id (ps ! i))
    \<and> array_cells ps ! (3 * i + 1) = Size (data_size (ps ! i))
    \<and> array_cells ps ! (3 * i + 2) = Block (data (ps ! i))"
  using assms
proof (induction ps arbitrary: i)
  case (Cons p ps)
  then show ?case by (cases i) (simp_all add: numeral_3_eq_3)
qed simp

definition layout_fits :: "layout \<Rightarrow> nat \<Rightarrow> bool" where
  "layout_fits L n \<longleftrightarrow> debug_params L \<longrightarrow> n \<le> 1"

lemma run_param_cell:
  assumes "parameters x = Some ps" and "i < length ps" and "layout_fits L (length ps)"
  shows "param_cell L x i 0 s = Ret (Ids (version (ps ! i)) (param_id (ps ! i))) s"
    and "param_cell L x i (Suc 0) s = Ret (Size (data_size (ps ! i))) s"
    and "param_cell L x i 2 s = Ret (Block (data (ps ! i))) s"
proof -
  have w: "param_words L * i = 3 * i" using assms(2,3) by (auto simp: param_words_def layout_fits_def)
  have "3 * i + 2 < 3 * length ps" using assms(2) by simp
  with assms(1) nth_array_cells [OF assms(2)]
  show "param_cell L x i 0 s = Ret (Ids (version (ps ! i)) (param_id (ps ! i))) s"
    and "param_cell L x i (Suc 0) s = Ret (Size (data_size (ps ! i))) s"
    and "param_cell L x i 2 s = Ret (Block (data (ps ! i))) s"
    by (simp_all add: param_cell_def w run_rules deref_def)
qed

lemma run_show_param_data:
  fixes s :: "'e cmn_state_scheme"
  assumes "parameters x = Some ps" and "i < length ps" and "layout_fits L (length ps)"
    and "n + k \<le> length (data_words (ps ! i))" and "can_print s"
  shows "show_param_data L k x i n s = Ret () (printed (data_lines (ps ! i) n k) s)"
  using assms
proof (induction k arbitrary: n s)
  case 0
  then show ?case by (simp add: run_rules data_lines_def)
next
  case (Suc k)
  let ?p = "ps ! i"
  let ?l = "[(''      64-bit Param Data[%d]: 0x%016llX'', [Arg_int (int n), Arg_word (data_words ?p ! n)])]"
  from Suc.prems(4) obtain ws where ws: "data ?p = Some ws" "n < length ws"
    by (auto simp: data_words_def split: option.splits)
  have lines: "data_lines ?p n (Suc k) = ?l @ data_lines ?p (Suc n) k"
    by (simp add: data_lines_def upt_conv_Cons del: upt_Suc)
  have "show_param_data L k x i (Suc n) (printed ?l s)
      = Ret () (printed (data_lines ?p (Suc n) k) (printed ?l s))"
    by (rule Suc.IH) (use Suc.prems in simp_all)
  with Suc.prems ws lines show ?case
    by (simp add: run_rules run_param_cell [OF assms(1-3)] deref_def printed_one data_words_def)
qed

lemma run_show_params:
  fixes s :: "'e cmn_state_scheme"
  assumes "parameters x = Some ps" and "j + k = length ps" and "layout_fits L (length ps)"
    and "printable x" and "can_print s"
  shows "show_params L k x j s = Ret () (printed (params_lines j (drop j ps)) s)"
  using assms
proof (induction k arbitrary: j s)
  case 0
  then show ?case by (simp add: run_rules)
next
  case (Suc k)
  let ?p = "ps ! j"
  let ?h = "[(''      ------ Parameter %d ------   '', [Arg_int (int j)]),
      (''      Version: %d'', [Arg_word (ucast (version ?p))]),
      (''      Param ID: %d'', [Arg_word (ucast (param_id ?p))]),
      (''      Param Data Size: %d'', [Arg_word (data_size ?p)])]"
  let ?d = "data_lines ?p 0 (unat (data_size ?p) div 8)"
  have j: "j < length ps" using Suc.prems(2) by simp
  then have "?p \<in> set (param_list x)" using Suc.prems(1) by (simp add: param_list_def)
  then have d: "show_param_data L (unat (data_size ?p) div 8) x j 0 (printed ?h s)
      = Ret () (printed ?d (printed ?h s))"
    using Suc.prems(3-5) j by (intro run_show_param_data [OF Suc.prems(1)]) (auto simp: printable_def)
  have rest: "show_params L k x (Suc j) (printed ?d (printed ?h s))
      = Ret () (printed (params_lines (Suc j) (drop (Suc j) ps)) (printed ?d (printed ?h s)))"
    by (rule Suc.IH) (use Suc.prems in simp_all)
  have lines: "params_lines j (drop j ps) = (?h @ ?d) @ params_lines (Suc j) (drop (Suc j) ps)"
    by (simp add: Cons_nth_drop_Suc [OF j, symmetric] param_lines_def)
  show ?case
    using Suc.prems d rest
    by (simp add: run_rules run_param_cell [OF Suc.prems(1) j Suc.prems(3)] printed_one lines)
qed

lemma run_show_all_params:
  fixes s :: "'e cmn_state_scheme"
  assumes "info_ok x" and "layout_fits L (num_of_parameters x)" and "printable x" and "can_print s"
  shows "show_params L (num_of_parameters x) x 0 s = Ret () (printed (params_lines 0 (param_list x)) s)"
proof (cases "parameters x")
  case None
  with assms(1) show ?thesis by (simp add: info_ok_def param_list_def run_rules)
next
  case (Some ps)
  with assms run_show_params [of x ps 0 "length ps" L s] show ?thesis
    by (simp add: info_ok_def param_list_def)
qed

text \<open>The loop opens one entry after the other.\<close>

abbreviation (input) opened :: "FPGA_INTERFACE_INFO \<Rightarrow> FPGA_INTERFACE_INFO" where
  "opened x \<equiv> x\<lparr>is_mmio_opened := True\<rparr>"

definition shown :: "line list \<Rightarrow> FPGA_INTERFACE_INFO list \<Rightarrow> 'e cmn_state_scheme
    \<Rightarrow> 'e cmn_state_scheme \<Rightarrow> bool" where
  "shown ls rs s t \<longleftrightarrow> vec_inv t \<and> vec_abs t = map opened rs \<and> vec_blocks t = vec_blocks s
     \<and> t = (printed ls s)\<lparr>g_common_fpga_interface_info_vec := vec t\<rparr>"

lemma shown_after:
  assumes "shown ls rs t u" and "t = (printed ms s)\<lparr>g_common_fpga_interface_info_vec := v\<rparr>"
    and "vec_blocks t = vec_blocks s"
  shows "shown (ms @ ls) rs s u"
proof -
  have "line_events t ls = line_events s ls"
    by (rule line_events_cong) (simp add: assms(2) printed_def)
  with assms show ?thesis by (auto simp: shown_def printed_def)
qed

text \<open>One iteration: the entry is reported and opened.\<close>

definition showing :: "nat \<Rightarrow> FPGA_INTERFACE_INFO list \<Rightarrow> 'e cmn_state_scheme \<Rightarrow> bool" where
  "showing i rs s \<longleftrightarrow> vec_inv s \<and> vec_abs s = map opened (take i rs) @ drop i rs
     \<and> int (length rs) \<le> INT_MAX \<and> can_print s"

definition entry_lines :: "nat \<Rightarrow> FPGA_INTERFACE_INFO \<Rightarrow> line list" where
  "entry_lines i x = [(''   ---------- Interface %d ----------'', [Arg_int (int i)]),
      (''   fpga_get_interface_at(%d, &info) -> info'', [Arg_int (int i)])] @ identity_lines x"

lemma showing_entry:
  assumes "showing i rs s" and "i < length rs"
  shows "i < vec_size s" and "vec_abs s ! i = rs ! i" and "info_ok (rs ! i)"
    and "unat (of_nat i :: u32) = i" and "sint (of_nat i :: u32) = int i"
proof -
  have inv: "vec_inv s" and abs: "vec_abs s = map opened (take i rs) @ drop i rs"
    and n: "int (length rs) \<le> INT_MAX"
    using assms(1) by (simp_all add: showing_def)
  show sz: "i < vec_size s" using length_vec_abs [OF inv] abs assms(2) by simp
  show x: "vec_abs s ! i = rs ! i" using abs assms(2) by (simp add: nth_append)
  show "info_ok (rs ! i)"
    using vec_abs_ok [OF inv] length_vec_abs [OF inv] sz x by (auto simp: list_all_length)
  show "unat (of_nat i :: u32) = i" "sint (of_nat i :: u32) = int i"
    using n assms(2) by (simp_all add: unat_of_nat signed_of_nat signed_take_bit_int_eq_self)
qed

lemma test_loop_head:
  fixes s :: "'e cmn_state_scheme"
  assumes s: "showing i rs s" and i: "i < length rs"
  shows "test_interfaces_loop L (Suc k) i info s =
    thn (show_params L (num_of_parameters (rs ! i)) (rs ! i) 0)
   (bnd (fpga_open (of_nat i)) (\<lambda>handle.
    thn (info_line ''   fpga_open(%d) -> 0x%08X'' [Arg_int (int i), Arg_int handle])
        (test_interfaces_loop L k (Suc i) (rs ! i))))
     (printed [(''   ---------- Interface %d ----------'', [Arg_int (int i)]),
      (''   fpga_get_interface_at(%d, &info) -> info'', [Arg_int (int i)]),
      (''   128-bit GUID: 0x%016llX%016llX'', [Arg_word (guid_h (guid (rs ! i))), Arg_word (guid_l (guid (rs ! i)))]),
      (''   Instance ID: %d'', [Arg_word (ucast (instance_id (rs ! i)))]),
      (''   Group ID: %d'', [Arg_word (ucast (group_id (rs ! i)))])] s)"
  using s i showing_entry [OF s i]
  by (simp add: run_rules run_interface_at length_vec_abs printed_one showing_def Let_def
      split: outcome.split)

lemma test_loop_step:
  fixes s :: "'e cmn_state_scheme"
  assumes s: "showing i rs s" and i: "i < length rs"
    and x: "printable (rs ! i)" "\<not> is_mmio_opened (rs ! i)" "layout_fits L (num_of_parameters (rs ! i))"
  shows "\<exists>t v. test_interfaces_loop L (Suc k) i info s = test_interfaces_loop L k (Suc i) (rs ! i) t
      \<and> showing (Suc i) rs t \<and> vec_blocks t = vec_blocks s
      \<and> t = (printed (entry_lines i (rs ! i) @ [(''   fpga_open(%d) -> 0x%08X'', [Arg_int (int i), Arg_int (int i)])]) s)
          \<lparr>g_common_fpga_interface_info_vec := v\<rparr>"
proof -
  let ?x = "rs ! i" and ?a = "entry_lines i (rs ! i)"
  let ?z = "[(''   fpga_open(%d) -> 0x%08X'', [Arg_int (int i), Arg_int (int i)])]"
  let ?s = "printed ?a s"
  have inv: "vec_inv s" and abs: "vec_abs s = map opened (take i rs) @ drop i rs" and pr: "can_print s"
    using s by (simp_all add: showing_def)
  note o = showing_entry [OF s i]
  have "wp (vec_upd i opened) (\<lambda>_ t. vec_inv t \<and> vec_abs t = (vec_abs ?s)[i := opened (vec_abs ?s ! i)]
        \<and> vec_size t = vec_size ?s \<and> vec_blocks t = vec_blocks ?s
        \<and> t = ?s\<lparr>g_common_fpga_interface_info_vec := vec t\<rparr>) ?s"
    by (rule vec_upd_abs) (use inv o(1) in simp_all)
  then obtain t where upd: "vec_upd i opened ?s = Ret () t"
    and t: "vec_inv t" "vec_abs t = (vec_abs s)[i := opened ?x]" "vec_blocks t = vec_blocks ?s"
      "t = ?s\<lparr>g_common_fpga_interface_info_vec := vec t\<rparr>"
    using o(2) by (auto dest!: wpD)
  from t(4) obtain v where tv: "t = ?s\<lparr>g_common_fpga_interface_info_vec := v\<rparr>" by metis
  let ?u = "printed ?z t"
  have c: "can_print t" "can_print ?u" using pr by (simp_all add: tv can_print_def printed_def)
  from inv o(1) obtain xs where xs: "vec s = Some xs" "i < length xs" "xs ! i = vec_abs s ! i"
    by (rule vec_inv_Some)
  have open_run: "fpga_open (of_nat i) ?s = Ret (int i) t"
    using xs o x upd by (simp add: fpga_open_def run_rules common_fpga_interface_info_vec_size_def
        common_fpga_interface_info_vec_at_def)
  have params: "show_params L (num_of_parameters ?x) ?x 0 (printed h s)
      = Ret () (printed (params_lines 0 (param_list ?x)) (printed h s))" for h
    by (rule run_show_all_params) (use o(3) x pr in simp_all)
  have run: "test_interfaces_loop L (Suc k) i info s = test_interfaces_loop L k (Suc i) ?x ?u"
    unfolding test_loop_head [OF s i]
    using c open_run params by (simp add: run_rules entry_lines_def identity_lines_def printed_one)
  have "line_events t ?z = line_events s ?z" by (rule line_events_cong) (simp add: tv printed_def)
  then have u: "?u = (printed (?a @ ?z) s)\<lparr>g_common_fpga_interface_info_vec := v\<rparr>"
    unfolding printed_def [of ?z t] by (simp add: tv printed_def)
  have blocks: "vec_blocks ?u = vec_blocks s"
    using t(3) vec_cong(3) [of ?u t] vec_cong(3) [of ?s s] by (simp add: printed_def)
  have "(vec_abs s)[i := opened ?x] = map opened (take (Suc i) rs) @ drop (Suc i) rs"
    using i abs by (simp add: take_Suc_conv_app_nth list_update_append Cons_nth_drop_Suc [symmetric])
  with t s c have "showing (Suc i) rs ?u" by (simp add: showing_def)
  with run u blocks show ?thesis by blast
qed

lemma wp_test_loop:
  fixes s :: "'e cmn_state_scheme"
  assumes "showing i rs s" and "length rs = i + k"
    and "\<forall>x \<in> set rs. printable x \<and> \<not> is_mmio_opened x \<and> layout_fits L (num_of_parameters x)"
  shows "wp (test_interfaces_loop L k i info) (\<lambda>_. shown (show_rows i (drop i rs)) rs s) s"
  using assms
proof (induction k arbitrary: i s info)
  case 0
  then show ?case by (cases s) (simp add: wp_ret shown_def printed_def showing_def)
next
  case (Suc k)
  let ?l = "entry_lines i (rs ! i) @ [(''   fpga_open(%d) -> 0x%08X'', [Arg_int (int i), Arg_int (int i)])]"
  have i: "i < length rs" using Suc.prems(2) by simp
  with Suc.prems obtain t v where
    t: "test_interfaces_loop L (Suc k) i info s = test_interfaces_loop L k (Suc i) (rs ! i) t"
      "showing (Suc i) rs t" "vec_blocks t = vec_blocks s"
      "t = (printed ?l s)\<lparr>g_common_fpga_interface_info_vec := v\<rparr>"
    using test_loop_step [OF Suc.prems(1) i, where L = L and k = k and info = info] by auto
  have lines: "show_rows i (drop i rs) = ?l @ show_rows (Suc i) (drop (Suc i) rs)"
    using i by (simp add: Cons_nth_drop_Suc [symmetric] entry_lines_def)
  have "wp (test_interfaces_loop L k (Suc i) (rs ! i)) (\<lambda>_. shown (show_rows i (drop i rs)) rs s) t"
    unfolding lines
    by (rule wp_mono [OF Suc.IH [OF t(2)]]) (use Suc.prems shown_after [OF _ t(4,3)] in auto)
  with t(1) show ?case by (simp add: wp_def)
qed

section \<open>Where the two layouts differ\<close>

definition ends_badly :: "('a, 's) prog \<Rightarrow> 's \<Rightarrow> bool" where
  "ends_badly p s \<longleftrightarrow> (\<exists>e t. p s = Stop (Undefined_behaviour e) t)"

lemma ends_badly_bnd:
  "wp p (\<lambda>x t. ends_badly (q x) t) s \<Longrightarrow> ends_badly (bnd p q) s"
  "ends_badly p s \<Longrightarrow> ends_badly (bnd p q) s"
  "wp p (\<lambda>x t. ends_badly r t) s \<Longrightarrow> ends_badly (thn p r) s"
  "ends_badly p s \<Longrightarrow> ends_badly (thn p r) s"
  by (auto simp: ends_badly_def wp_def bnd_def thn_def split: outcome.splits)

lemma run_cell_block:
  "cell_block c s = (case c of Block (Some ws) \<Rightarrow> Ret ws s
     | Block None \<Rightarrow> Stop (Undefined_behaviour Null_dereference) s
     | _ \<Rightarrow> Stop (Undefined_behaviour Unmapped_address) s)"
  by (simp add: run_rules deref_def split: cell.split option.split)

text \<open>With the larger stride the data of a parameter are printed, or the program reads where it may not.\<close>

lemma show_param_data_ends:
  fixes s :: "'e cmn_state_scheme"
  assumes "can_print s"
  shows "(\<exists>t. show_param_data L k x i j s = Ret () t \<and> can_print t)
    \<or> ends_badly (show_param_data L k x i j) s"
  using assms
proof (induction k arbitrary: j s)
  case 0
  then show ?case by (simp add: run_rules)
next
  case (Suc k)
  show ?case
  proof (cases "wp (param_cell L x i 2) (\<lambda>c t. t = s \<and> wp (cell_block c) (\<lambda>ws t. t = s \<and> j < length ws) s) s")
    case True
    then obtain c ws where "param_cell L x i 2 s = Ret c s" "cell_block c s = Ret ws s" "j < length ws"
      by (auto dest!: wpD)
    with Suc.IH [of "printed [(''      64-bit Param Data[%d]: 0x%016llX'', [Arg_int (int j), Arg_word (ws ! j)])] s" "Suc j"]
      Suc.prems show ?thesis
      by (simp add: run_rules printed_one ends_badly_def)
  next
    case False
    then have "ends_badly (show_param_data L (Suc k) x i j) s"
      by (auto simp: ends_badly_def wp_def param_cell_def run_rules run_cell_block
          split: option.splits if_splits cell.splits)
    then show ?thesis ..
  qed
qed

lemma show_params_bad:
  fixes s :: "'e cmn_state_scheme"
  assumes "parameters x = Some ps" and "debug_params L" and "2 \<le> length ps"
    and "j + Suc k = length ps" and "can_print s"
  shows "ends_badly (show_params L (Suc k) x j) s"
  using assms
proof (induction k arbitrary: j s)
  case 0
  then show ?case
    by (simp add: ends_badly_def run_rules param_cell_def param_words_def printed_one)
next
  case (Suc k)
  have read: "param_cell L x j n t = (if 5 * j + n < 3 * length ps
      then Ret (array_cells ps ! (5 * j + n)) t else Stop (Undefined_behaviour Out_of_bounds) t)" for n and t :: "'e cmn_state_scheme"
    using Suc.prems(1,2) by (simp add: param_cell_def param_words_def run_rules)
  have rest: "ends_badly (thn (show_param_data L m x j 0) (show_params L (Suc k) x (Suc j))) t"
    if "can_print t" for m and t :: "'e cmn_state_scheme"
    using show_param_data_ends [OF that, of L m x j 0] Suc.IH [of "Suc j"] Suc.prems
    by (auto simp: wp_def intro: ends_badly_bnd)
  show ?case
    unfolding show_params.simps(2) [of L "Suc k"]
    using Suc.prems(5) rest by (simp add: ends_badly_def run_rules read printed_one)
qed

lemma test_loop_bad:
  fixes s :: "'e cmn_state_scheme"
  assumes "showing i rs s" and "i \<le> m" and "m < length rs" and "length rs = i + k"
    and "\<forall>x \<in> set rs. printable x \<and> \<not> is_mmio_opened x"
    and "debug_params L" and "2 \<le> num_of_parameters (rs ! m)"
    and "\<forall>j < m. num_of_parameters (rs ! j) \<le> 1"
  shows "ends_badly (test_interfaces_loop L k i info) s"
  using assms
proof (induction k arbitrary: i s info)
  case (Suc k)
  have i: "i < length rs" using Suc.prems by simp
  show ?case
  proof (cases "i = m")
    case True
    let ?h = "[(''   ---------- Interface %d ----------'', [Arg_int (int i)]),
      (''   fpga_get_interface_at(%d, &info) -> info'', [Arg_int (int i)]),
      (''   128-bit GUID: 0x%016llX%016llX'', [Arg_word (guid_h (guid (rs ! i))), Arg_word (guid_l (guid (rs ! i)))]),
      (''   Instance ID: %d'', [Arg_word (ucast (instance_id (rs ! i)))]),
      (''   Group ID: %d'', [Arg_word (ucast (group_id (rs ! i)))])]"
    obtain ps where ps: "parameters (rs ! i) = Some ps" "length ps = num_of_parameters (rs ! i)"
      using showing_entry(3) [OF Suc.prems(1) i] Suc.prems(7) True
      by (cases "parameters (rs ! i)") (simp_all add: info_ok_def)
    have "can_print (printed ?h s)" using Suc.prems(1) by (simp add: showing_def)
    then have "ends_badly (show_params L (Suc (length ps - 1)) (rs ! i) 0) (printed ?h s)"
      by (intro show_params_bad [OF ps(1)]) (use ps Suc.prems(6,7) True in simp_all)
    then have "ends_badly (show_params L (num_of_parameters (rs ! i)) (rs ! i) 0) (printed ?h s)"
      using ps Suc.prems(7) True by simp
    then show ?thesis
      by (simp add: ends_badly_def test_loop_head [OF Suc.prems(1) i] run_thn del: test_interfaces_loop.simps)
        (auto simp: run_thn)
  next
    case False
    with Suc.prems have "layout_fits L (num_of_parameters (rs ! i))" by (simp add: layout_fits_def)
    with Suc.prems i obtain t where
      t: "test_interfaces_loop L (Suc k) i info s = test_interfaces_loop L k (Suc i) (rs ! i) t" "showing (Suc i) rs t"
      using test_loop_step [OF Suc.prems(1) i, where L = L and k = k and info = info] by auto
    with Suc.IH [OF t(2)] Suc.prems False show ?thesis by (simp add: ends_badly_def)
  qed
qed simp

end
