(* ===== verification/Show_Properties.thy ===== *)
theory Show_Properties
  imports Dfl_Show Devmem_Properties
begin

text \<open>
  The properties of the two reports: the one of the library after a scan, and the one of the
  program \<open>devmem/test-dfl/dfl_show_main.c\<close>, which runs the devmem platform from start to end.
\<close>

section \<open>The report of the library\<close>

text \<open>The report of a scanned list.  After a scan, \<open>common_dfl_print_all_interfaces\<close> reads no
  parameter outside its arrays and prints, for every interface of the list in walk order, its number,
  decoded address, GUID, ids, and every parameter with all its data words; nothing else is printed
  and the table is left alone.\<close>

lemma report_correct:
  assumes "scan_ready s" and "dfl_at (dfl_view s) a x" and "tree_fits x" and "fuel_level x \<le> fuel"
    and "can_print s"
  shows "wp (thn (common_dfl_scan_multi_interfaces fuel a dec) (common_dfl_print_all_interfaces dec'))
    (\<lambda>_ t. out t = out s @ line_events s (report dec' 0 (rows a x)) \<and> vec_abs t = rows a x) s"
  unfolding wp_thn
proof (rule wp_mono [OF wp_scan [OF assms(1-4)]])
  fix t
  assume t: "scanned a x s t"
  have "length (rows a x) = vec_size t" using t length_vec_abs [of t] by (simp add: scanned_def)
  then have n: "vec_size t < 2 ^ 32" using assms(3) by (simp add: tree_fits_def rows_def length_rows)
  have "line_events t ls = line_events s ls" for ls
    using t by (intro line_events_cong) (simp add: scanned_def same_rest_def)
  with t n run_print_all [of t dec'] assms(5) show "wp (common_dfl_print_all_interfaces dec')
      (\<lambda>_ t. out t = out s @ line_events s (report dec' 0 (rows a x)) \<and> vec_abs t = rows a x) t"
    by (simp add: wp_def scanned_def same_rest_def can_print_def printable_rows)
      (simp add: printed_def)
qed

lemma report_correct_witness:
  "wp (thn (common_dfl_scan_multi_interfaces 5 0x1000 (\<lambda>a. a))
        (common_dfl_print_all_interfaces (\<lambda>a. a - 0x1000)))
    (\<lambda>_ t. out t = line_events (demo_state (table_read demo_words))
        (report (\<lambda>a. a - 0x1000) 0 (rows 0x1000 demo_tree)))
    (demo_state (table_read demo_words))"
  by (rule wp_mono [OF report_correct [OF demo_scan]])
    (simp_all add: can_print_def demo_state_def initial_state_def)

section \<open>The program that shows a list\<close>

lemma showing_rows:
  "vec_inv s \<Longrightarrow> vec_abs s = rows a x \<Longrightarrow> tree_fits x \<Longrightarrow> can_print s \<Longrightarrow> showing 0 (rows a x) s"
  by (simp add: showing_def tree_fits_def rows_def length_rows)


text \<open>What \<open>main\<close> does after the start.\<close>

definition show_and_stop :: "layout \<Rightarrow> ('e, int) devmem" where
  "show_and_stop L =
     bnd fpga_get_num_of_interfaces (\<lambda>num_interfaces.
     thn (info_line '''' [])
    (thn (info_line '''' [])
    (thn (info_line ''========API Calls=========='' [Arg_word (ucast num_interfaces)])
    (thn (info_line ''fpga_get_num_interfaces() -> %d'' [Arg_word (ucast num_interfaces)])
    (thn (test_interfaces L (sint num_interfaces))
    (thn fpga_devmem_platform_cleanup (ret 0)))))))"


text \<open>The scan of the platform, up to the table that the program shows.\<close>

lemma wp_show_start:
  fixes s :: "'e devmem_state_scheme"
  assumes "devmem_parse_args args s = Ret () s1" and "can_print s1" and "devmem_config_ok s1"
    and "s_devmem_single_component_mode s1 = 0" and "devmem_resources path fd p s1"
    and "scan_ready s1"
    and "a = p + (s_devmem_dfl_entry_addr s1 - s_devmem_start_addr s1)
               + (s_devmem_start_addr s1 AND NOT MASK_4K_ADDR)"
    and "dfl_at (dfl_view s1) a x" and "tree_fits x" and "fuel_level x \<le> fuel"
  shows "wp (fpga_devmem_platform_init fuel args) (\<lambda>_ u. vec_inv u \<and> vec_abs u = rows a x
      \<and> live u - vec_blocks u = live s1 - vec_blocks s1 \<and> can_print u
      \<and> os_calls u = os_calls s1 @ devmem_map_calls path fd s1
      \<and> s_devmem_drv_handle u = fd \<and> s_devmem_mmap_ptr u = p
      \<and> s_devmem_addr_span u = s_devmem_addr_span s1
      \<and> (\<forall>ls. line_events u ls = line_events s1 ls)) s" (is "wp _ (\<lambda>_. ?R) s")
proof (rule wp_devmem_init [OF assms(1,2)])
  fix t
  assume "more_messages s1 t"
  then obtain ev where t: "t = s1\<lparr>out := out s1 @ ev\<rparr>" by (auto simp: more_messages_def)
  have c: "devmem_resources path fd p t" "can_print t" "s_devmem_single_component_mode t = 0"
    "scan_ready t" "a = p + (s_devmem_dfl_entry_addr t - s_devmem_start_addr t)
             + (s_devmem_start_addr t AND NOT MASK_4K_ADDR)" "dfl_at (dfl_view t) a x"
    using assms(2,4-8) vec_cong(1) [of t s1] dfl_view_cong [of t s1]
    by (simp_all add: t devmem_resources_def scan_ready_def allocs_ok_def can_print_def)
  have b: "vec_blocks (s1\<lparr>out := out s1 @ ev\<rparr>) = vec_blocks s1" by (rule vec_cong(3)) simp_all
  show "wp (devmem_bring_up fuel) (\<lambda>_. ?R) t"
  proof (rule wp_mono [OF wp_devmem_dfl [OF c assms(9,10)]])
    fix r and u :: "'e devmem_state_scheme"
    assume u: "r \<and> vec_inv u \<and> vec_abs u = rows a x
      \<and> live u - vec_blocks u = live t - vec_blocks t
      \<and> os_calls u = os_calls t @ devmem_map_calls path fd t
      \<and> can_print u \<and> s_devmem_drv_handle u = fd \<and> s_devmem_mmap_ptr u = p
      \<and> g_common_fpga_platform_printf u = g_common_fpga_platform_printf t
      \<and> s_devmem_addr_span u = s_devmem_addr_span t \<and> mem u = mem t \<and> env u = env t"
    then have "line_events u ls = line_events s1 ls" for ls
      by (intro line_events_cong) (simp add: t)
    with u show "?R u" by (simp add: t b devmem_map_calls_def)
  qed
qed (use assms(3) in simp)

lemma dfl_show_main_eq:
  "dfl_show_main L fuel args = bnd (fpga_devmem_platform_init fuel args) (\<lambda>_. show_and_stop L)"
  by (simp add: dfl_show_main_def show_and_stop_def)


text \<open>C8: The program as it is built.  Its CMake file makes its elements of the parameter array two
  words larger than those the library stores.  If any interface of the list has two parameters, the
  program then reads behind the array or follows a word that is no pointer: for no way of reading the
  words between does \<open>main\<close> get to its end.\<close>

theorem dfl_show_layout:
  assumes "devmem_parse_args args s = Ret () s1" and "can_print s1" and "devmem_config_ok s1"
    and "s_devmem_single_component_mode s1 = 0" and "devmem_resources path fd p s1"
    and "scan_ready s1"
    and "a = p + (s_devmem_dfl_entry_addr s1 - s_devmem_start_addr s1)
               + (s_devmem_start_addr s1 AND NOT MASK_4K_ADDR)"
    and "dfl_at (dfl_view s1) a x" and "tree_fits x" and "fuel_level x \<le> fuel"
    and "debug_params L" and "y \<in> set (rows a x)" and "2 \<le> num_of_parameters y"
  shows "\<exists>e t. dfl_show_main L fuel args s = Stop (Undefined_behaviour e) t"
proof -
  let ?n = "length (rows a x)"
  define m where "m = (LEAST m. 2 \<le> num_of_parameters (rows a x ! m))"
  obtain i where i: "i < ?n" "2 \<le> num_of_parameters (rows a x ! i)"
    using assms(12,13) by (auto simp: in_set_conv_nth)
  have two: "2 \<le> num_of_parameters (rows a x ! m)"
    unfolding m_def by (rule LeastI [where k = i]) (rule i(2))
  have "m \<le> i" unfolding m_def by (rule Least_le) (rule i(2))
  moreover have "num_of_parameters (rows a x ! j) \<le> 1" if "j < m" for j
    using not_less_Least [OF that [unfolded m_def]] by simp
  ultimately have m: "m < ?n" "\<forall>j < m. num_of_parameters (rows a x ! j) \<le> 1" using i(1) by simp_all
  have len: "0 < ?n" "int ?n \<le> INT_MAX"
    using assms(9) size_level_pos [of x] by (simp_all add: tree_fits_def rows_def length_rows)
  then have nw: "sint (of_nat ?n :: u32) = int ?n"
    by (simp add: signed_of_nat signed_take_bit_int_eq_self)
  have loop: "ends_badly (test_interfaces_loop L ?n 0 info) t"
    if t: "vec_inv t" "vec_abs t = rows a x" "can_print t" for info and t :: "'a devmem_state_scheme"
    by (rule test_loop_bad [OF showing_rows [OF t(1,2) assms(9) t(3)] _ m(1)])
      (use m two assms(11) printable_rows closed_rows in auto)
  have "ends_badly (dfl_show_main L fuel args) s"
    unfolding dfl_show_main_eq
  proof (intro ends_badly_bnd(1) wp_mono [OF wp_show_start [OF assms(1-10)]])
    fix r and u :: "'a devmem_state_scheme"
    assume "vec_inv u \<and> vec_abs u = rows a x
      \<and> live u - vec_blocks u = live s1 - vec_blocks s1 \<and> can_print u
      \<and> os_calls u = os_calls s1 @ devmem_map_calls path fd s1
      \<and> s_devmem_drv_handle u = fd \<and> s_devmem_mmap_ptr u = p
      \<and> s_devmem_addr_span u = s_devmem_addr_span s1
      \<and> (\<forall>ls. line_events u ls = line_events s1 ls)"
    then have u: "vec_inv u" "vec_abs u = rows a x" "can_print u" by simp_all
    have "ends_badly (test_interfaces_loop L ?n 0 info) (printed h u)" for info h
      by (rule loop) (use u vec_cong [of "printed h u" u] in \<open>simp_all add: printed_def\<close>)
    then have "ends_badly (test_interfaces L (int ?n)) (printed h u)" for h
      by (simp add: test_interfaces_def ends_badly_def run_rules)
    then obtain e t where "test_interfaces L (int ?n) (printed [([], []), ([], []),
        (''========API Calls=========='', [Arg_word (ucast (of_nat ?n :: u32))]),
        (''fpga_get_num_interfaces() -> %d'', [Arg_word (ucast (of_nat ?n :: u32))])] u)
      = Stop (Undefined_behaviour e) t"
      unfolding ends_badly_def by blast
    then show "ends_badly (show_and_stop L) u"
      using u nw by (simp add: show_and_stop_def ends_badly_def run_rules run_num_of_interfaces printed_one)
  qed
  then show ?thesis by (simp add: ends_badly_def)
qed

text \<open>The options of a list.\<close>

lemma devmem_parse_three:
  fixes s :: "'e devmem_state_scheme"
  assumes "int n \<le> LONG_MAX" and "int k \<le> LONG_MAX" and "int w \<le> LONG_MAX"
    and "errno s \<noteq> ERANGE" and "can_print s"
  shows "devmem_parse_args [''-s'', show_nat n, ''-a'', show_nat k, ''-w'', show_nat w] s
     = Ret () (s\<lparr>s_devmem_addr_span := of_nat n, s_devmem_start_addr := of_nat k,
         s_devmem_dfl_entry_addr := of_nat w, s_devmem_single_component_mode := 0\<rparr>)"
proof -
  let ?t = "s\<lparr>s_devmem_addr_span := of_nat n\<rparr>"
  let ?u = "?t\<lparr>s_devmem_start_addr := of_nat k\<rparr>"
  have g: "getopt_long devmem_short_options devmem_long_options
        [''-s'', show_nat n, ''-a'', show_nat k, ''-w'', show_nat w]
      = [Opt_arg (CHR ''s'') (show_nat n), Opt_arg (CHR ''a'') (show_nat k),
         Opt_arg (CHR ''w'') (show_nat w)]"
    by (simp add: is_prefix_def devmem_short_options_def)
  have p: "devmem_parse_integer_arg nm (show_nat n) s = Ret (int n) s"
    "devmem_parse_integer_arg nm (show_nat k) ?t = Ret (int k) ?t"
    "devmem_parse_integer_arg nm (show_nat w) ?u = Ret (int w) ?u" for nm
    unfolding devmem_parse_integer_arg_def
    using run_parse_show [OF assms(1,5), of nm] run_parse_show [OF assms(2), of ?t nm]
      run_parse_show [OF assms(3), of ?u nm] assms(4,5)
    by simp_all
  show ?thesis
    unfolding devmem_parse_args_def g devmem_options.simps devmem_option.simps
    by (simp add: run_rules p)
qed

lemma demo_show_args:
  fixes rd :: "u64 \<Rightarrow> u32"
  defines "s \<equiv> devmem_process rd demo_os"
  shows "devmem_parse_args [''-s'', show_nat 0x1000, ''-a'', show_nat 0x1000, ''-w'', show_nat 0x1000] s
    = Ret () (s\<lparr>s_devmem_addr_span := 0x1000, s_devmem_start_addr := 0x1000,
         s_devmem_dfl_entry_addr := 0x1000, s_devmem_single_component_mode := 0\<rparr>)"
proof -
  have "devmem_parse_args [''-s'', show_nat 0x1000, ''-a'', show_nat 0x1000, ''-w'', show_nat 0x1000] s
      = Ret () (s\<lparr>s_devmem_addr_span := of_nat 0x1000, s_devmem_start_addr := of_nat 0x1000,
         s_devmem_dfl_entry_addr := of_nat 0x1000, s_devmem_single_component_mode := 0\<rparr>)"
    by (rule devmem_parse_three)
      (simp_all add: s_def devmem_process_def LONG_MAX_def ERANGE_def can_print_def)
  then show ?thesis by simp
qed

text \<open>The build of the program, reading every word that is not the library's as zero.\<close>

definition debug_layout :: layout where
  "debug_layout = \<lparr>debug_params = True, cell_word = (\<lambda>c. 0)\<rparr>"








lemma dfl_show_layout_witness:
  "\<exists>e t. dfl_show_main debug_layout 5 [''-s'', show_nat 0x1000, ''-a'', show_nat 0x1000, ''-w'', show_nat 0x1000]
    (devmem_process (table_read demo_words) demo_os) = Stop (Undefined_behaviour e) t"
proof -
  let ?s = "devmem_process (table_read demo_words) demo_os"
  let ?s1 = "?s\<lparr>s_devmem_addr_span := 0x1000, s_devmem_start_addr := 0x1000,
         s_devmem_dfl_entry_addr := 0x1000, s_devmem_single_component_mode := 0\<rparr>"
  have view: "dfl_at (dfl_view ?s1) 0x1000 demo_tree"
    using demo_tree_at by (simp add: dfl_view_custom devmem_process_def)
  have len: "length (rows 0x1000 demo_tree) = 3"
    using arg_cong [OF demo_rows(1), of length] by simp
  have "num_of_parameters (rows 0x1000 demo_tree ! 0) = 2"
    using arg_cong [OF demo_rows(3), of "\<lambda>xs. xs ! 0"] len by simp
  then have two: "rows 0x1000 demo_tree ! 0 \<in> set (rows 0x1000 demo_tree)"
    "2 \<le> num_of_parameters (rows 0x1000 demo_tree ! 0)" using len by simp_all
  show ?thesis
    by (rule dfl_show_layout [OF demo_show_args [of "table_read demo_words"], where path = "''/dev/mem''"
        and fd = 3 and p = "0x1000", OF _ _ _ _ _ _ view demo_tree_fits(1,2) _ two])
      (simp_all add: devmem_process_def can_print_def devmem_config_ok_def devmem_resources_def demo_os_def
        MAP_FAILED_def vec_inv_def allocs_ok_def scan_ready_def MASK_4K_ADDR_def debug_layout_def)
qed

end
