(* ===== verification/Zephyr_Properties.thy ===== *)
theory Zephyr_Properties
  imports Demo_Platforms
begin

text \<open>
  The properties of the Zephyr platform, \<open>zephyr/src/intel_fpga_platform_api_zephyr.c\<close> and
  \<open>zephyr/src/intel_fpga_api_zephyr.c\<close>: the table that a start computes, a second start after a
  cleanup, and the interrupt functions.
\<close>

section \<open>The start\<close>

text \<open>C23: Initialisation refines the abstract walk of the device table.  For fewer than 256 devices,
  with a Device Feature List at the address of every ROM, it returns; its result, the flag that a list
  was found and the interface table are those of \<open>zephyr_table\<close>: devices are appended in order, a
  list replaces all that was collected before it, and a second list ends the scan with \<open>false\<close>.
  Nothing leaks and no system call is made.\<close>

theorem zephyr_start:
  assumes "zephyr_parse_args options s = Ret () s1" and "scan_ready s1" and "vec_size s1 = 0"
    and "zephyr_roms (dfl_view s1) fuel tree (s_zephyr_start_addr s1) table"
    and "0 < length table" and "length table < 256" and "s_zephyr_single_component_mode s1 = 0"
  shows "wp (fpga_zephyr_platform_init fuel table options) (\<lambda>r t.
      zephyr_table tree (s_zephyr_start_addr s1) table (s_zephyr_dfl_found s1) []
        = (r, s_zephyr_dfl_found t, vec_abs t)
      \<and> vec_inv t \<and> live t - vec_blocks t = live s1 - vec_blocks s1 \<and> os_calls t = os_calls s1) s"
  by (rule wp_mono [OF wp_zephyr_init]) (use assms in \<open>auto simp: scan_ready_def kept_rest_def\<close>)

lemma zephyr_no_args: "zephyr_parse_args [] s = Ret () s"
  by (simp add: run_rules)

lemma demo_roms:
  "zephyr_roms (dfl_view (zephyr_process (table_read demo_words))) 5 (\<lambda>a. demo_tree) 0 demo_devices"
  using demo_tree_at demo_tree_fits
  by (simp add: zephyr_roms_def demo_devices_def dfl_view_custom)

lemma zephyr_start_witness:
  "wp (fpga_zephyr_platform_init 5 demo_devices []) (\<lambda>r t. r \<and> s_zephyr_dfl_found t
      \<and> vec_abs t = rows 0x1000 demo_tree @ [zero_info\<lparr>base_address := 0x9000, dev := 2, irq := 5\<rparr>]
      \<and> live t = vec_blocks t) (zephyr_process (table_read demo_words))"
  by (rule wp_mono [OF zephyr_start [OF zephyr_no_args zephyr_process_ready(1),
          where fuel = 5 and tree = "\<lambda>a. demo_tree"]])
    (use demo_roms in \<open>auto simp: zephyr_process_ready demo_devices_def zephyr_entry_def\<close>)

text \<open>A device tree without a list.  A node that is compatible with both bindings counts as a device, so a
  tree has no ROM when every list node is also a device; then the interfaces are the devices in the
  order of the tree, each with its address, interrupt and device, and no word is read.\<close>

lemma zephyr_table_devices:
  assumes "\<forall>d \<in> set ds. dev_type d \<noteq> 2"
  shows "zephyr_table tree start ds found v
    = (True, found, v @ map (zephyr_entry start) (filter (\<lambda>d. dev_type d = 1) ds))"
  using assms by (induction ds arbitrary: v) auto

lemma node_type:
  "dev_type (FPGA_IP_ACCESS_DEV n)
    = (if compat_fpga_ip_access n then 1 else if compat_fpga_ip_access_dfl n then 2 else 0)"
  by (simp add: FPGA_IP_ACCESS_DEV_def Let_def)

lemma zephyr_device_tree:
  assumes "zephyr_parse_args options s = Ret () s1" and "scan_ready s1" and "vec_size s1 = 0"
    and "\<forall>n \<in> set nodes. compat_fpga_ip_access_dfl n \<longrightarrow> compat_fpga_ip_access n"
    and "nodes \<noteq> []" and "length nodes < 256" and "s_zephyr_single_component_mode s1 = 0"
  shows "wp (fpga_zephyr_platform_init fuel (fpga_ip_access_dev_table nodes) options) (\<lambda>r t. r
      \<and> vec_abs t = map (zephyr_entry (s_zephyr_start_addr s1) \<circ> FPGA_IP_ACCESS_DEV) (filter compat_fpga_ip_access nodes)
      \<and> s_zephyr_dfl_found t = s_zephyr_dfl_found s1) s"
proof -
  let ?table = "fpga_ip_access_dev_table nodes" and ?tree = "\<lambda>a. undefined"
  have rom: "\<forall>d \<in> set ?table. dev_type d \<noteq> 2"
    using assms(4) by (auto simp: fpga_ip_access_dev_table_def node_type)
  have "filter (\<lambda>d. dev_type d = 1) ?table = map FPGA_IP_ACCESS_DEV (filter compat_fpga_ip_access nodes)"
    by (induction nodes) (simp_all add: fpga_ip_access_dev_table_def node_type)
  moreover have "zephyr_roms (dfl_view s1) fuel ?tree (s_zephyr_start_addr s1) ?table"
    using rom assms(6) by (auto simp: zephyr_roms_def fpga_ip_access_dev_table_def)
  ultimately show ?thesis
    using assms(5,6) zephyr_table_devices [OF rom, of ?tree]
    by (intro wp_mono [OF wp_zephyr_init [OF assms(1,2) _ _ _ assms(3,7), where tree = ?tree]])
      (simp_all add: fpga_ip_access_dev_table_def)
qed

text \<open>What a start keeps.  With one ROM in the device table, the interfaces are those of the list
  followed by the devices that the table names after the ROM; the devices before the ROM are lost,
  because the scan of the list replaces the interface table.  The source assumes the ROM at index 0,
  and does not check it.\<close>

lemma zephyr_devices_before_rom:
  assumes "zephyr_parse_args options s = Ret () s1" and "scan_ready s1" and "vec_size s1 = 0"
    and "\<not> s_zephyr_dfl_found s1" and "s_zephyr_single_component_mode s1 = 0"
    and "\<forall>d \<in> set before \<union> set after. dev_type d = 1" and "dev_type rom = 2"
    and "length before + length after < 255"
    and "a = dev_base_addr rom + s_zephyr_start_addr s1"
    and "dfl_at (dfl_view s1) a x" and "tree_fits x" and "fuel_level x \<le> fuel"
  shows "wp (fpga_zephyr_platform_init fuel (before @ rom # after) options) (\<lambda>r t. r
      \<and> vec_abs t = rows a x @ map (zephyr_entry (s_zephyr_start_addr s1)) after) s"
proof -
  let ?start = "s_zephyr_start_addr s1"
  have devices: "\<forall>d \<in> set ds. dev_type d = 1 \<Longrightarrow> zephyr_table (\<lambda>_. x) ?start (ds @ es) found v
      = zephyr_table (\<lambda>_. x) ?start es found (v @ map (zephyr_entry ?start) ds)" for ds es found v
    by (induction ds arbitrary: v) simp_all
  have "zephyr_table (\<lambda>_. x) ?start (before @ rom # after) False []
      = (True, True, rows a x @ map (zephyr_entry ?start) after)"
    using assms(6,7,9) devices [of before "rom # after"] devices [of after "[]"] by simp
  moreover have "zephyr_roms (dfl_view s1) fuel (\<lambda>_. x) ?start (before @ rom # after)"
    using assms(6,9-12) by (auto simp: zephyr_roms_def)
  then have "wp (fpga_zephyr_platform_init fuel (before @ rom # after) options) (\<lambda>r t. scan_ready t
      \<and> zephyr_table (\<lambda>_. x) ?start (before @ rom # after) (s_zephyr_dfl_found s1) []
          = (r, s_zephyr_dfl_found t, vec_abs t)
      \<and> live t - vec_blocks t = live s1 - vec_blocks s1 \<and> kept_rest s1 t) s"
    by (intro wp_zephyr_init) (use assms in simp_all)
  ultimately show ?thesis using assms(4) by (auto elim!: wp_mono)
qed

lemma zephyr_devices_before_rom_witness:
  "wp (fpga_zephyr_platform_init 5 (rev demo_devices) [])
     (\<lambda>r t. r \<and> map base_address (vec_abs t) = [0x41000, 0x60000, 0x50000])
     (zephyr_process (table_read demo_words))"
proof -
  let ?s = "zephyr_process (table_read demo_words)"
  have view: "dfl_at (dfl_view ?s) 0x1000 demo_tree" using demo_tree_at by (simp add: dfl_view_custom)
  have rev: "rev demo_devices = [demo_devices ! 1] @ demo_devices ! 0 # []"
    by (simp add: demo_devices_def)
  show ?thesis
    unfolding rev
    by (rule wp_mono [OF zephyr_devices_before_rom [OF zephyr_no_args zephyr_process_ready(1),
            where a = "0x1000", OF _ _ _ _ _ _ _ view demo_tree_fits(1,2)]])
      (auto simp: demo_devices_def demo_rows)
qed

section \<open>A second start\<close>

text \<open>Once a list was found, every ROM ends the scan.\<close>

lemma wp_scan_found:
  assumes "scan_ready s" and "s_zephyr_dfl_found s" and "vec_size s + length ds < 2 ^ 32"
  shows "wp (zephyr_scan_devices fuel ds) (\<lambda>r t. r = (\<forall>d \<in> set ds. dev_type d \<noteq> 2)) s"
  using assms
proof (induction ds arbitrary: s)
  case Nil
  then show ?case by (simp add: wp_ret)
next
  case (Cons d ds)
  show ?case
  proof (cases "dev_type d = 1")
    case True
    have "Suc (vec_size s) < 2 ^ 32" using Cons.prems(3) by simp
    from wp_add_device [OF Cons.prems(1) this] show ?thesis
      unfolding zephyr_scan_devices.simps if_P [OF True] wp_thn
    proof (rule wp_mono)
      fix t
      assume t: "scan_ready t \<and> vec_abs t = vec_abs s @ [zephyr_entry (s_zephyr_start_addr s) d]
        \<and> live t - vec_blocks t = live s - vec_blocks s \<and> same_rest s t"
      then have "vec_size t = Suc (vec_size s)"
        using length_vec_abs [of t] length_vec_abs [of s] Cons.prems(1) by (simp add: scan_ready_def)
      moreover have "s_zephyr_dfl_found t"
        using t Cons.prems(2) zephyr_more(2) [of t s] by (simp add: same_rest_def)
      ultimately show "wp (zephyr_scan_devices fuel ds)
          (\<lambda>r t. r = (\<forall>e \<in> set (d # ds). dev_type e \<noteq> 2)) t"
        using Cons.IH [of t] t Cons.prems(3) True by simp
    qed
  next
    case False
    with Cons.IH [of s] Cons.prems show ?thesis by (simp add: wp_bnd wp_gets wp_ret)
  qed
qed

text \<open>C40: A second start fails.  The cleanup releases the table but does not forget that a list was
  found; the next initialisation of the same process, on a device table with a ROM, returns
  \<open>false\<close>.\<close>

theorem zephyr_restart_fails:
  assumes "s_zephyr_dfl_found s" and "table_tight s" and "can_print s" and "allocs_ok s"
    and "dfh_parent_stack s = zero_stack" and "d \<in> set table" and "dev_type d = 2"
    and "length table < 256"
  shows "wp (thn fpga_zephyr_platform_cleanup (fpga_zephyr_platform_init fuel table [])) (\<lambda>r t. \<not> r) s"
  unfolding wp_thn
proof (rule wp_mono [OF wp_zephyr_cleanup [OF assms(3,2)]])
  fix x and t :: "'a zephyr_state_scheme"
  assume t: "vec t = None \<and> vec_size t = 0
      \<and> live t = live s - vec_blocks s \<and> os_calls t = os_calls s
      \<and> s_zephyr_dfl_found t = s_zephyr_dfl_found s \<and> s_zephyr_dfl_addr t = s_zephyr_dfl_addr s
      \<and> s_zephyr_single_component_mode t = 0 \<and> s_zephyr_start_addr t = 0 \<and> errno t = -1
      \<and> env t = env s \<and> mem t = mem s \<and> dfh_parent_stack t = dfh_parent_stack s
      \<and> vec_inv t"
  then have "scan_ready t" using assms(4,5) by (simp add: scan_ready_def allocs_ok_def)
  then have "wp (zephyr_scan_devices fuel table) (\<lambda>r t. r = (\<forall>d \<in> set table. dev_type d \<noteq> 2)) t"
    using t assms(1,8) by (intro wp_scan_found) simp_all
  moreover have "0 < length table" using assms(6) by (cases table) simp_all
  then have "0 < (of_nat (length table) :: u8)"
    using assms(8) by (simp add: word_less_nat_alt unat_of_nat)
  ultimately show "wp (fpga_zephyr_platform_init fuel table []) (\<lambda>r t. \<not> r) t"
    using t assms(6,7)
    by (auto simp: fpga_zephyr_platform_init_def zephyr_validate_args_def zephyr_scan_interfaces_def
        wp_thn wp_bnd wp_ret wp_gets elim!: wp_mono)
qed

lemma zephyr_restart_fails_witness:
  "wp (thn fpga_zephyr_platform_cleanup (fpga_zephyr_platform_init 5 demo_devices [])) (\<lambda>r t. \<not> r)
     zephyr_started"
  by (rule zephyr_restart_fails [where d = "demo_devices ! 0"])
    (simp_all add: zephyr_started_def zephyr_process_def demo_devices_def table_tight_def vec_inv_def
      can_print_def allocs_ok_def info_ok_def)

section \<open>The interrupt functions\<close>





end
