(* ===== verification/Api_Client.thy ===== *)
theory Api_Client
  imports Platform_Table
begin

text \<open>
  Applications of the library.  An application is a function that decides, from the calls it has made
  and their answers, which function of the API to call next, if any.  What it may rely on is the locale
  \<open>api_platform\<close>: every call returns, the answers are those of an abstract machine with the
  interfaces and the two kinds of claims, and the state stays well formed.  What it owes is
  \<open>well_behaved\<close>: it accesses registers only through handles that \<open>fpga_open\<close> gave it, inside the
  window and aligned.  The three platforms provide the locale in \<open>Uio_Session\<close>, \<open>Devmem_Session\<close> and
  \<open>Zephyr_Session\<close>.
\<close>

section \<open>Calls and answers\<close>

datatype table_call =
    Call_num_of_interfaces
  | Call_interface_at u32 bool
  | Call_open u32
  | Call_close u32
  | Call_interrupt_open u32
  | Call_interrupt_close u32

datatype access_call =
    Call_read_8 u32
  | Call_read_16 u32
  | Call_read_32 u32
  | Call_read_64 u32
  | Call_read_512 u32
  | Call_write_8 u32 u8
  | Call_write_16 u32 u16
  | Call_write_32 u32 u32
  | Call_write_64 u32 u64
  | Call_write_512 u32 "u8 list"

datatype interrupt_call =
    Call_register_isr u64 u64
  | Call_enable_interrupt
  | Call_disable_interrupt

datatype api_call =
    Table table_call
  | Access int access_call
  | Interrupt int interrupt_call

datatype api_answer =
    Answer_unit
  | Answer_int int
  | Answer_num u32
  | Answer_info bool "FPGA_INTERFACE_INFO option"
  | Answer_word u64
  | Answer_block "u8 list"

type_synonym history = "(api_call \<times> api_answer) list"
type_synonym client = "history \<Rightarrow> api_call option"

text \<open>The functions on the table are the same for every platform.\<close>

fun table_perform :: "table_call \<Rightarrow> ('e, api_answer) cmn" where
  "table_perform Call_num_of_interfaces = bnd fpga_get_num_of_interfaces (\<lambda>n. ret (Answer_num n))"
| "table_perform (Call_interface_at i buffer) =
     bnd (fpga_get_interface_at i buffer) (\<lambda>(r, x). ret (Answer_info r x))"
| "table_perform (Call_open i) = bnd (fpga_open i) (\<lambda>h. ret (Answer_int h))"
| "table_perform (Call_close i) = thn (fpga_close i) (ret Answer_unit)"
| "table_perform (Call_interrupt_open i) = bnd (fpga_interrupt_open i) (\<lambda>h. ret (Answer_int h))"
| "table_perform (Call_interrupt_close i) = thn (fpga_interrupt_close i) (ret Answer_unit)"

text \<open>The register accesses of a platform whose functions differ in the base address only.\<close>

fun access_perform :: "'e base_of \<Rightarrow> int \<Rightarrow> access_call \<Rightarrow> ('e, api_answer) mmio" where
  "access_perform g h (Call_read_8 a) = bnd (fpga_read_8 g h a) (\<lambda>w. ret (Answer_word (ucast w)))"
| "access_perform g h (Call_read_16 a) = bnd (fpga_read_16 g h a) (\<lambda>w. ret (Answer_word (ucast w)))"
| "access_perform g h (Call_read_32 a) = bnd (fpga_read_32 g h a) (\<lambda>w. ret (Answer_word (ucast w)))"
| "access_perform g h (Call_read_64 a) =
     bnd (fpga_read_64 g (fpga_read_32 g) h a) (\<lambda>w. ret (Answer_word w))"
| "access_perform g h (Call_read_512 a) =
     bnd (fpga_read_512 (fpga_read_64 g (fpga_read_32 g) h) a) (\<lambda>bs. ret (Answer_block bs))"
| "access_perform g h (Call_write_8 a w) = thn (fpga_write_8 g h a w) (ret Answer_unit)"
| "access_perform g h (Call_write_16 a w) = thn (fpga_write_16 g h a w) (ret Answer_unit)"
| "access_perform g h (Call_write_32 a w) = thn (fpga_write_32 g h a w) (ret Answer_unit)"
| "access_perform g h (Call_write_64 a w) =
     thn (fpga_write_64 g (fpga_write_32 g) h a w) (ret Answer_unit)"
| "access_perform g h (Call_write_512 a bs) =
     thn (fpga_write_512 (fpga_write_64 g (fpga_write_32 g) h) a bs) (ret Answer_unit)"

text \<open>A session: at most \<open>k\<close> calls, until the application stops.\<close>

fun run_client :: "(api_call \<Rightarrow> (api_answer, 's) prog) \<Rightarrow> nat \<Rightarrow> client \<Rightarrow> history \<Rightarrow> (history, 's) prog" where
  "run_client perform 0 client h = ret h"
| "run_client perform (Suc k) client h =
     (case client h of
        None \<Rightarrow> ret h
      | Some c \<Rightarrow> bnd (perform c) (\<lambda>a. run_client perform k client (h @ [(c, a)])))"

section \<open>What the application owes\<close>

text \<open>An access lies in the window, and its offset is a multiple of its unit; the unit of a block is a
  64-bit word.  \<open>doc/intel_fpga_api.h\<close> leaves any other access undefined.\<close>

fun access_fits :: "u32 \<Rightarrow> access_call \<Rightarrow> bool" where
  "access_fits l (Call_read_8 a) = (unat a + 1 \<le> unat l)"
| "access_fits l (Call_read_16 a) = (unat a + 2 \<le> unat l \<and> 2 dvd unat a)"
| "access_fits l (Call_read_32 a) = (unat a + 4 \<le> unat l \<and> 4 dvd unat a)"
| "access_fits l (Call_read_64 a) = (unat a + 8 \<le> unat l \<and> 8 dvd unat a)"
| "access_fits l (Call_read_512 a) = (unat a + 64 \<le> unat l \<and> 8 dvd unat a)"
| "access_fits l (Call_write_8 a w) = (unat a + 1 \<le> unat l)"
| "access_fits l (Call_write_16 a w) = (unat a + 2 \<le> unat l \<and> 2 dvd unat a)"
| "access_fits l (Call_write_32 a w) = (unat a + 4 \<le> unat l \<and> 4 dvd unat a)"
| "access_fits l (Call_write_64 a w) = (unat a + 8 \<le> unat l \<and> 8 dvd unat a)"
| "access_fits l (Call_write_512 a bs) = (unat a + 64 \<le> unat l \<and> 8 dvd unat a \<and> 64 \<le> length bs)"

definition given_handle :: "history \<Rightarrow> int \<Rightarrow> bool" where
  "given_handle h r \<longleftrightarrow>
     r \<noteq> INVALID_HANDLE \<and> (\<exists>(c, a) \<in> set h. (case c of Table (Call_open i) \<Rightarrow> a = Answer_int r | _ \<Rightarrow> False))"

text \<open>\<open>l\<close> is the length of the windows; \<open>irqs\<close> says which calls of the interrupt functions the application
  makes: none where the platform does not have them.  An interrupt that is enabled makes another thread
  of control run, the interrupt thread of the UIO platform or an ISR, whose steps are not part of a
  session; \<open>Uio_Interrupts\<close> has those of the thread.\<close>

fun may_call :: "u32 \<Rightarrow> (interrupt_call \<Rightarrow> bool) \<Rightarrow> history \<Rightarrow> api_call \<Rightarrow> bool" where
  "may_call l irqs h (Table c) = True"
| "may_call l irqs h (Access r c) = (given_handle h r \<and> access_fits l c)"
| "may_call l irqs h (Interrupt r c) = (irqs c \<and> - INT_MAX - 1 \<le> r \<and> r \<le> INT_MAX)"

definition well_behaved :: "u32 \<Rightarrow> (interrupt_call \<Rightarrow> bool) \<Rightarrow> client \<Rightarrow> bool" where
  "well_behaved l irqs client \<longleftrightarrow> (\<forall>h c. client h = Some c \<longrightarrow> may_call l irqs h c)"

lemma well_behaved_mono:
  "well_behaved l irqs client \<Longrightarrow> (\<And>c. irqs c \<Longrightarrow> irqs' c) \<Longrightarrow> well_behaved l irqs' client"
proof -
  assume w: "well_behaved l irqs client" and i: "\<And>c. irqs c \<Longrightarrow> irqs' c"
  have "may_call l irqs' h c" if "may_call l irqs h c" for h c
    using that i by (cases c) auto
  with w show ?thesis by (simp add: well_behaved_def)
qed

text \<open>The application that leaves the interrupts disabled.\<close>

definition never_enables :: "interrupt_call \<Rightarrow> bool" where
  "never_enables c \<longleftrightarrow> c \<noteq> Call_enable_interrupt"

section \<open>What it may rely on\<close>

text \<open>The members of an entry that no call of the API changes.\<close>

definition fixed_part :: "FPGA_INTERFACE_INFO \<Rightarrow> FPGA_INTERFACE_INFO" where
  "fixed_part x = x\<lparr>is_mmio_opened := False, is_interrupt_opened := False, interrupt_enable := False,
     isr_callback := 0, isr_context := 0\<rparr>"

text \<open>
  Where an access of an interface goes: to memory, from some base address on, or to a driver of the
  operating system, which answers what it will.  The 64-bit accesses of memory are single ones or pairs.
\<close>

record register_map =
  placement :: "FPGA_INTERFACE_INFO \<Rightarrow> access_call \<Rightarrow> u64 option"
  access_width :: read_mode

text \<open>Interfaces whose registers are all memory, at their base addresses.\<close>

definition memory_layout :: "read_mode \<Rightarrow> register_map" where
  "memory_layout wd = \<lparr>placement = (\<lambda>x c. Some (base_address x)), access_width = wd\<rparr>"

definition block_word :: "u8 list \<Rightarrow> nat \<Rightarrow> u64" where
  "block_word bs j = le_word (take 8 (drop (8 * j) bs))"

text \<open>An access of memory: its answer, its effect and what is seen on the bus.\<close>

definition bytes_of :: "memory \<Rightarrow> u64 \<Rightarrow> nat \<Rightarrow> u8 list" where
  "bytes_of m a n = the (load_bytes m a n)"

fun access_answer :: "memory \<Rightarrow> u64 \<Rightarrow> access_call \<Rightarrow> api_answer" where
  "access_answer m b (Call_read_8 a) = Answer_word (le_word (bytes_of m (b + ucast a) 1))"
| "access_answer m b (Call_read_16 a) = Answer_word (le_word (bytes_of m (b + ucast a) 2))"
| "access_answer m b (Call_read_32 a) = Answer_word (le_word (bytes_of m (b + ucast a) 4))"
| "access_answer m b (Call_read_64 a) = Answer_word (le_word (bytes_of m (b + ucast a) 8))"
| "access_answer m b (Call_read_512 a) = Answer_block (bytes_of m (b + ucast a) 64)"
| "access_answer m b c = Answer_unit"

fun access_effect :: "memory \<Rightarrow> u64 \<Rightarrow> access_call \<Rightarrow> memory" where
  "access_effect m b (Call_write_8 a w) = store_bytes m (b + ucast a) (bytes_le 1 w)"
| "access_effect m b (Call_write_16 a w) = store_bytes m (b + ucast a) (bytes_le 2 w)"
| "access_effect m b (Call_write_32 a w) = store_bytes m (b + ucast a) (bytes_le 4 w)"
| "access_effect m b (Call_write_64 a w) = store_bytes m (b + ucast a) (bytes_le 8 w)"
| "access_effect m b (Call_write_512 a bs) = store_bytes m (b + ucast a) (take 64 bs)"
| "access_effect m b c = m"

text \<open>A read sees what was written: the same width at the same address gives the same value.\<close>

lemma written_word:
  fixes w :: "'v::len word"
  assumes "unat (a :: u32) + 64 \<le> 2 ^ 32" and "LENGTH('v) = 8 * n" and "n \<le> 8"
  shows "(le_word (bytes_of (store_bytes m (b + ucast a) (bytes_le n w)) (b + ucast a) n) :: u64) = ucast w"
proof -
  have "load_bytes (store_bytes m (b + ucast a) (bytes_le n w)) (b + ucast a) n = Some (bytes_le n w)"
    using load_store_same [of "unat a" "bytes_le n w" n m b] assms by simp
  moreover have "(le_word (bytes_le n w) :: u64) = ucast w"
    using ucast_le_word [of "bytes_le n w", where 'b = 'v and 'a = 64] le_word_bytes_le [of n w] assms(2) by simp
  ultimately show ?thesis by (simp add: bytes_of_def)
qed

lemma read_back:
  assumes "unat a + 64 \<le> 2 ^ 32"
  shows "access_answer (access_effect m b (Call_write_8 a w8)) b (Call_read_8 a) = Answer_word (ucast w8)"
    and "access_answer (access_effect m b (Call_write_16 a w16)) b (Call_read_16 a) = Answer_word (ucast w16)"
    and "access_answer (access_effect m b (Call_write_32 a w32)) b (Call_read_32 a) = Answer_word (ucast w32)"
    and "access_answer (access_effect m b (Call_write_64 a w64)) b (Call_read_64 a) = Answer_word w64"
    and "64 \<le> length bs \<Longrightarrow>
      access_answer (access_effect m b (Call_write_512 a bs)) b (Call_read_512 a) = Answer_block (take 64 bs)"
proof -
  show "access_answer (access_effect m b (Call_write_8 a w8)) b (Call_read_8 a) = Answer_word (ucast w8)"
    using written_word [OF assms, of 1 m b w8] by (simp del: One_nat_def)
  show "access_answer (access_effect m b (Call_write_16 a w16)) b (Call_read_16 a) = Answer_word (ucast w16)"
    using written_word [OF assms, of 2 m b w16] by simp
  show "access_answer (access_effect m b (Call_write_32 a w32)) b (Call_read_32 a) = Answer_word (ucast w32)"
    using written_word [OF assms, of 4 m b w32] by simp
  show "access_answer (access_effect m b (Call_write_64 a w64)) b (Call_read_64 a) = Answer_word w64"
    using written_word [OF assms, of 8 m b w64] by simp
  show "access_answer (access_effect m b (Call_write_512 a bs)) b (Call_read_512 a) = Answer_block (take 64 bs)"
    if "64 \<le> length bs"
    using load_store_same [of "unat a" "take 64 bs" 64 m b] assms that by (simp add: bytes_of_def)
qed

fun access_events :: "read_mode \<Rightarrow> u64 \<Rightarrow> access_call \<Rightarrow> bus_event list" where
  "access_events wd b (Call_read_8 a) = [Bus_read 1 (b + ucast a)]"
| "access_events wd b (Call_read_16 a) = [Bus_read 2 (b + ucast a)]"
| "access_events wd b (Call_read_32 a) = [Bus_read 4 (b + ucast a)]"
| "access_events wd b (Call_read_64 a) = read_events wd (b + ucast a)"
| "access_events wd b (Call_read_512 a) =
     concat (map (\<lambda>j. read_events wd (b + ucast a + of_nat (8 * j))) [0..<8])"
| "access_events wd b (Call_write_8 a w) = [Bus_write 1 (b + ucast a) (ucast w)]"
| "access_events wd b (Call_write_16 a w) = [Bus_write 2 (b + ucast a) (ucast w)]"
| "access_events wd b (Call_write_32 a w) = [Bus_write 4 (b + ucast a) (ucast w)]"
| "access_events wd b (Call_write_64 a w) = write_events wd (b + ucast a) w"
| "access_events wd b (Call_write_512 a bs) =
     concat (map (\<lambda>j. write_events wd (b + ucast a + of_nat (8 * j)) (block_word bs j)) [0..<8])"

text \<open>
  The abstract machine: the interfaces, the claimed registers and interrupts, and the contents of the
  registers.
\<close>

type_synonym claims = "nat set \<times> nat set"
type_synonym machine = "claims \<times> memory"

text \<open>The interrupt functions refuse every handle that is not an index of the table.\<close>

definition irq_answer :: "bool \<Rightarrow> api_answer \<Rightarrow> bool" where
  "irq_answer known a \<longleftrightarrow>
     (case a of Answer_int i \<Rightarrow> (if known then - 1 \<le> i \<and> i \<le> 1 else i = - 1) | _ \<Rightarrow> False)"

fun answer_ok :: "FPGA_INTERFACE_INFO list \<Rightarrow> register_map \<Rightarrow> machine \<Rightarrow> api_call \<Rightarrow> api_answer \<Rightarrow> bool" where
  "answer_ok xs W S (Table Call_num_of_interfaces) a = (a = Answer_num (of_nat (length xs)))"
| "answer_ok xs W S (Table (Call_interface_at i buffer)) a =
     (if unat i < length xs \<and> buffer
      then (case a of Answer_info True (Some x) \<Rightarrow> fixed_part x = fixed_part (xs ! unat i) | _ \<Rightarrow> False)
      else a = Answer_info False None)"
| "answer_ok xs W S (Table (Call_open i)) a =
     (a = Answer_int (fst (claim_step (length xs) (Claim i) (fst (fst S)))))"
| "answer_ok xs W S (Table (Call_interrupt_open i)) a =
     (a = Answer_int (fst (claim_step (length xs) (Claim i) (snd (fst S)))))"
| "answer_ok xs W S (Table c) a = (a = Answer_unit)"
| "answer_ok xs W S (Access r c) a =
     (case placement W (xs ! nat r) c of None \<Rightarrow> True | Some b \<Rightarrow> a = access_answer (snd S) b c)"
| "answer_ok xs W S (Interrupt r c) a =
     irq_answer (0 \<le> r \<and> nat r < length xs) a"

fun next_claims :: "nat \<Rightarrow> claims \<Rightarrow> api_call \<Rightarrow> claims" where
  "next_claims n C (Table (Call_open i)) = (snd (claim_step n (Claim i) (fst C)), snd C)"
| "next_claims n C (Table (Call_close i)) = (snd (claim_step n (Release i) (fst C)), snd C)"
| "next_claims n C (Table (Call_interrupt_open i)) = (fst C, snd (claim_step n (Claim i) (snd C)))"
| "next_claims n C (Table (Call_interrupt_close i)) = (fst C, snd (claim_step n (Release i) (snd C)))"
| "next_claims n C c = C"

fun next_registers :: "FPGA_INTERFACE_INFO list \<Rightarrow> register_map \<Rightarrow> memory \<Rightarrow> api_call \<Rightarrow> memory" where
  "next_registers xs W m (Access r c) =
     (case placement W (xs ! nat r) c of None \<Rightarrow> m | Some b \<Rightarrow> access_effect m b c)"
| "next_registers xs W m c = m"

definition next_machine :: "FPGA_INTERFACE_INFO list \<Rightarrow> register_map \<Rightarrow> machine \<Rightarrow> api_call \<Rightarrow> machine" where
  "next_machine xs W S c = (next_claims (length xs) (fst S) c, next_registers xs W (snd S) c)"

text \<open>What a call shows on the bus.\<close>

fun call_events :: "FPGA_INTERFACE_INFO list \<Rightarrow> register_map \<Rightarrow> api_call \<Rightarrow> bus_event list" where
  "call_events xs W (Access r c) =
     (case placement W (xs ! nat r) c of None \<Rightarrow> [] | Some b \<Rightarrow> access_events (access_width W) b c)"
| "call_events xs W c = []"

definition history_events :: "FPGA_INTERFACE_INFO list \<Rightarrow> register_map \<Rightarrow> history \<Rightarrow> bus_event list" where
  "history_events xs W h = concat (map (\<lambda>(c, a). call_events xs W c) h)"

fun history_ok :: "FPGA_INTERFACE_INFO list \<Rightarrow> register_map \<Rightarrow> machine \<Rightarrow> history \<Rightarrow> bool" where
  "history_ok xs W S [] = True"
| "history_ok xs W S ((c, a) # h) = (answer_ok xs W S c a \<and> history_ok xs W (next_machine xs W S c) h)"

fun machine_after :: "FPGA_INTERFACE_INFO list \<Rightarrow> register_map \<Rightarrow> machine \<Rightarrow> history \<Rightarrow> machine" where
  "machine_after xs W S [] = S"
| "machine_after xs W S ((c, a) # h) = machine_after xs W (next_machine xs W S c) h"

text \<open>The calls of a session are those that the application chose, until it stops or has made \<open>k\<close> calls.\<close>

fun played :: "client \<Rightarrow> nat \<Rightarrow> history \<Rightarrow> bool" where
  "played client 0 h = (h = [])"
| "played client (Suc k) [] = (client [] = None)"
| "played client (Suc k) ((c, a) # h) = (client [] = Some c \<and> played (\<lambda>g. client ((c, a) # g)) k h)"

lemma played_length: "played client k h \<Longrightarrow> length h \<le> k"
  by (induction client k h rule: played.induct) simp_all

lemma history_snoc:
  "history_ok xs W S (h @ [(c, a)]) \<longleftrightarrow> history_ok xs W S h \<and> answer_ok xs W (machine_after xs W S h) c a"
  "machine_after xs W S (h @ [(c, a)]) = next_machine xs W (machine_after xs W S h) c"
  "history_events xs W (h @ [(c, a)]) = history_events xs W h @ call_events xs W c"
proof (induction h arbitrary: S)
  case (Cons p h)
  case 1
  from Cons show ?case by (cases p) simp
  case 2
  from Cons show ?case by (cases p) simp
qed (simp_all add: history_events_def)

text \<open>All this depends on the fixed members only.\<close>

definition fixed_layout :: "register_map \<Rightarrow> bool" where
  "fixed_layout W \<longleftrightarrow> (\<forall>x c. placement W (fixed_part x) c = placement W x c)"

lemma place_cong:
  assumes "fixed_layout W" and "map fixed_part xs = map fixed_part ys" and "i < length xs"
  shows "placement W (xs ! i) c = placement W (ys ! i) c"
proof -
  have "length xs = length ys" using assms(2) by (rule map_eq_imp_length_eq)
  then have "fixed_part (xs ! i) = fixed_part (ys ! i)"
    using arg_cong [OF assms(2), of "\<lambda>zs. zs ! i"] assms(3) by simp
  then show ?thesis using assms(1) unfolding fixed_layout_def by metis
qed

text \<open>Accesses go to interfaces that exist.\<close>

fun access_known :: "nat \<Rightarrow> api_call \<Rightarrow> bool" where
  "access_known n (Access r c) = (nat r < n)"
| "access_known n c = True"

lemma machine_cong:
  assumes W: "fixed_layout W" and eq: "map fixed_part xs = map fixed_part ys"
    and c: "access_known (length ys) c"
  shows "answer_ok xs W S c a = answer_ok ys W S c a"
    and "next_machine xs W S c = next_machine ys W S c" and "call_events xs W c = call_events ys W c"
proof -
  have len: "length xs = length ys" using eq by (rule map_eq_imp_length_eq)
  have fixed: "fixed_part (xs ! i) = fixed_part (ys ! i)" if "i < length ys" for i
    using arg_cong [OF eq, of "\<lambda>zs. zs ! i"] that len by simp
  have placement: "placement W (xs ! i) d = placement W (ys ! i) d" if "i < length ys" for i d
    by (rule place_cong [OF W eq]) (use that len in simp)
  show "answer_ok xs W S c a = answer_ok ys W S c a"
    using c by (cases "(xs, W, S, c, a)" rule: answer_ok.cases)
      (auto simp: len fixed placement split: api_answer.split bool.split option.split)
  show "next_machine xs W S c = next_machine ys W S c" and "call_events xs W c = call_events ys W c"
    using c by (cases c; simp add: next_machine_def len placement)+
qed

lemma sint_small:
  assumes "unat (i :: u32) < 2 ^ 31"
  shows "sint i = int (unat i)"
proof -
  obtain k where k: "i = of_nat k" "unat i = k" using that [of "unat i"] by simp
  have "sint (of_nat k :: u32) = int k"
    using assms k(2) by (simp add: signed_of_nat signed_take_bit_int_eq_self)
  with k show ?thesis by simp
qed

text \<open>A handle that was given is the index of an interface.\<close>

lemma given_handle_valid:
  assumes "history_ok xs W S h" and "given_handle h r" and "length xs \<le> 2 ^ 31"
  shows "0 \<le> r \<and> nat r < length xs"
  using assms
proof (induction h arbitrary: S)
  case Nil
  then show ?case by (simp add: given_handle_def)
next
  case (Cons p h)
  obtain c a where p: "p = (c, a)" by fastforce
  show ?case
  proof (cases "given_handle h r")
    case True
    with Cons.IH [of "next_machine xs W S c"] Cons.prems p show ?thesis by simp
  next
    case False
    with Cons.prems(2) p obtain i where c: "c = Table (Call_open i)" "a = Answer_int r" "r \<noteq> INVALID_HANDLE"
      by (auto simp: given_handle_def split: api_call.splits table_call.splits)
    with Cons.prems(1) p have i: "unat i < length xs" "r = sint i" by (auto split: if_splits)
    have "unat i < 2 ^ 31" using i(1) Cons.prems(3) by simp
    then have "sint i = int (unat i)" by (rule sint_small)
    with i show ?thesis by simp
  qed
qed

section \<open>The interface of the platforms\<close>

fun call_in_range :: "nat \<Rightarrow> u32 \<Rightarrow> (interrupt_call \<Rightarrow> bool) \<Rightarrow> api_call \<Rightarrow> bool" where
  "call_in_range n l irqs (Table c) = True"
| "call_in_range n l irqs (Access r c) = (0 \<le> r \<and> nat r < n \<and> access_fits l c)"
| "call_in_range n l irqs (Interrupt r c) = (irqs c \<and> - INT_MAX - 1 \<le> r \<and> r \<le> INT_MAX)"

locale api_platform =
  fixes perform :: "api_call \<Rightarrow> (api_answer, 's) prog"
    and ok :: "'s \<Rightarrow> bool"
    and interfaces :: "'s \<Rightarrow> FPGA_INTERFACE_INFO list"
    and layout :: "'s \<Rightarrow> register_map"
    and machine :: "'s \<Rightarrow> machine"
    and trace :: "'s \<Rightarrow> bus_event list"
    and frame :: "'s \<Rightarrow> 's \<Rightarrow> bool"
    and l :: u32
    and irqs :: "interrupt_call \<Rightarrow> bool"
  assumes few: "ok s \<Longrightarrow> length (interfaces s) \<le> 2 ^ 31"
    and layout_fixed: "fixed_layout (layout s)"
    and frame_refl: "frame s s"
    and frame_trans: "frame s t \<Longrightarrow> frame t u \<Longrightarrow> frame s u"
    and frame_keeps: "frame s t \<Longrightarrow> layout t = layout s
      \<and> map fixed_part (interfaces t) = map fixed_part (interfaces s)"
    and call_law: "ok s \<Longrightarrow> call_in_range (length (interfaces s)) l irqs c \<Longrightarrow>
      wp (perform c) (\<lambda>a t. ok t \<and> frame s t
        \<and> answer_ok (interfaces s) (layout s) (machine s) c a
        \<and> machine t = next_machine (interfaces s) (layout s) (machine s) c
        \<and> trace t = trace s @ call_events (interfaces s) (layout s) c) s"
begin

lemma run_from:
  assumes "ok s" and "well_behaved l irqs client" and "frame s0 s"
    and "history_ok (interfaces s0) (layout s0) (machine s0) h"
    and "machine s = machine_after (interfaces s0) (layout s0) (machine s0) h"
    and "trace s = trace s0 @ history_events (interfaces s0) (layout s0) h"
  shows "wp (run_client perform k client h) (\<lambda>h' t. ok t \<and> frame s0 t
      \<and> history_ok (interfaces s0) (layout s0) (machine s0) h'
      \<and> machine t = machine_after (interfaces s0) (layout s0) (machine s0) h'
      \<and> trace t = trace s0 @ history_events (interfaces s0) (layout s0) h'
      \<and> (\<exists>g. h' = h @ g \<and> played (\<lambda>g. client (h @ g)) k g)) s"
  using assms(1,3-6)
proof (induction k arbitrary: h s)
  case 0
  then show ?case by (simp add: wp_ret)
next
  case (Suc k)
  let ?xs = "interfaces s0" and ?W = "layout s0"
  have W: "layout s = ?W" and eq: "map fixed_part (interfaces s) = map fixed_part ?xs"
    using frame_keeps [OF Suc.prems(2)] by simp_all
  have len: "length (interfaces s) = length ?xs" using eq by (rule map_eq_imp_length_eq)
  show ?case
  proof (cases "client h")
    case None
    then have "played (\<lambda>g. client (h @ g)) (Suc k) []" by simp
    with None Suc.prems show ?thesis by (auto simp: wp_ret intro!: exI [of _ "[]"])
  next
    case (Some c)
    have "may_call l irqs h c" using assms(2) Some by (simp add: well_behaved_def)
    then have range: "call_in_range (length (interfaces s)) l irqs c" and known: "access_known (length ?xs) c"
      using given_handle_valid [OF Suc.prems(3)] few [OF Suc.prems(1)] len by (cases c; auto)+
    note cong = machine_cong [OF layout_fixed eq known]
    have step: "wp (run_client perform k client (h @ [(c, a)])) (\<lambda>h' u. ok u \<and> frame s0 u
      \<and> history_ok ?xs ?W (machine s0) h' \<and> machine u = machine_after ?xs ?W (machine s0) h'
      \<and> trace u = trace s0 @ history_events ?xs ?W h'
      \<and> (\<exists>g. h' = h @ g \<and> played (\<lambda>g. client (h @ g)) (Suc k) g)) t"
      if t: "ok t" "frame s t" "answer_ok (interfaces s) (layout s) (machine s) c a"
        "machine t = next_machine (interfaces s) (layout s) (machine s) c"
        "trace t = trace s @ call_events (interfaces s) (layout s) c" for a t
    proof (rule wp_mono [OF Suc.IH [OF t(1)]])
      show "frame s0 t" using Suc.prems(2) t(2) by (rule frame_trans)
      have "\<exists>g. h' = h @ g \<and> played (\<lambda>g. client (h @ g)) (Suc k) g"
        if "h' = (h @ [(c, a)]) @ g" "played (\<lambda>g. client ((h @ [(c, a)]) @ g)) k g" for h' g
        by (rule exI [of _ "(c, a) # g"]) (use that Some in simp)
      then show "ok u \<and> frame s0 u
        \<and> history_ok ?xs ?W (machine s0) h' \<and> machine u = machine_after ?xs ?W (machine s0) h'
        \<and> trace u = trace s0 @ history_events ?xs ?W h'
        \<and> (\<exists>g. h' = h @ g \<and> played (\<lambda>g. client (h @ g)) (Suc k) g)"
        if "ok u \<and> frame s0 u
        \<and> history_ok ?xs ?W (machine s0) h' \<and> machine u = machine_after ?xs ?W (machine s0) h'
        \<and> trace u = trace s0 @ history_events ?xs ?W h'
        \<and> (\<exists>g. h' = (h @ [(c, a)]) @ g \<and> played (\<lambda>g. client ((h @ [(c, a)]) @ g)) k g)" for h' u
        using that by blast
    qed (use t(3-5) Suc.prems cong in \<open>simp_all add: history_snoc W\<close>)
    show ?thesis
      unfolding run_client.simps Some option.case wp_bnd
      by (rule wp_mono [OF call_law [OF Suc.prems(1) range]]) (use step in blast)
  qed
qed

lemma session:
  assumes "ok s" and "well_behaved l irqs client"
  shows "wp (run_client perform k client []) (\<lambda>h t. ok t \<and> frame s t
      \<and> history_ok (interfaces s) (layout s) (machine s) h
      \<and> machine t = machine_after (interfaces s) (layout s) (machine s) h
      \<and> trace t = trace s @ history_events (interfaces s) (layout s) h
      \<and> played client k h) s"
  using run_from [OF assms frame_refl, of "[]" k] by (simp add: history_events_def)

lemma answers:
  assumes "ok s" and "well_behaved l irqs client"
  shows "wp (run_client perform k client []) (\<lambda>h t. ok t \<and> frame s t
      \<and> history_ok (interfaces s) (layout s) (machine s) h \<and> played client k h) s"
  by (rule wp_mono [OF session [OF assms]]) simp

end

end
