(* ===== verification/Api_Frame.thy ===== *)
theory Api_Frame
  imports Api_Client
begin

text \<open>
  What the calls of the API that the platforms share do to the state: calls on the table change the
  claims of one entry, register accesses change memory and the trace of the bus, interrupt calls
  change the interrupt members of one entry.  The platform theories put these frames together.
\<close>

section \<open>The table\<close>

definition table_kept :: "'e cmn_state_scheme \<Rightarrow> 'e cmn_state_scheme \<Rightarrow> bool" where
  "table_kept s t \<longleftrightarrow> vec_inv t \<and> map fixed_part (vec_abs t) = map fixed_part (vec_abs s)
     \<and> vec_blocks t = vec_blocks s \<and> (vec t = None) = (vec s = None)
     \<and> (\<exists>v. t = s\<lparr>g_common_fpga_interface_info_vec := v\<rparr>)"

lemma table_kept_refl: "vec_inv s \<Longrightarrow> table_kept s s"
  by (cases s) (auto simp: table_kept_def)

lemma table_kept_trans:
  assumes "table_kept s t" and "table_kept t u"
  shows "table_kept s u"
proof -
  from assms obtain v w where "t = s\<lparr>g_common_fpga_interface_info_vec := v\<rparr>"
    "u = t\<lparr>g_common_fpga_interface_info_vec := w\<rparr>"
    unfolding table_kept_def by blast
  then have "u = s\<lparr>g_common_fpga_interface_info_vec := w\<rparr>" by simp
  with assms show ?thesis unfolding table_kept_def by metis
qed

lemma fixed_part_upd:
  assumes "\<And>x. fixed_part (f x) = fixed_part x" and "i < length xs"
  shows "map fixed_part (xs[i := f (xs ! i)]) = map fixed_part xs"
  using assms by (simp add: map_update list_update_same_conv)

lemma wp_vec_upd_kept:
  assumes inv: "vec_inv s" and i: "i < vec_size s"
    and fixed: "\<And>x. fixed_part (f x) = fixed_part x"
  shows "wp (vec_upd i f) (\<lambda>_ t. table_kept s t \<and> vec_abs t = (vec_abs s)[i := f (vec_abs s ! i)]) s"
proof -
  have keep: "parameters (f x) = parameters x" "num_of_parameters (f x) = num_of_parameters x" for x
    using arg_cong [OF fixed [of x], of parameters] arg_cong [OF fixed [of x], of num_of_parameters]
    by (simp_all add: fixed_part_def)
  have len: "i < length (vec_abs s)" using inv i by (simp add: length_vec_abs)
  from inv i obtain xs where xs: "vec s = Some xs" "i < length xs" by (rule vec_inv_Some)
  show ?thesis
    using vec_upd_abs [OF inv i keep] xs fixed_part_upd [OF fixed len]
    by (auto simp: wp_vec_upd table_kept_def)
qed

text \<open>What an update of one entry does to the claims.\<close>

lemma held_upd:
  assumes "vec_inv s" and "i < vec_size s" and "vec_size t = vec_size s"
    and "vec_abs t = (vec_abs s)[i := x]"
  shows "mmio_held t = (if is_mmio_opened x then insert i (mmio_held s) else mmio_held s - {i})"
    and "interrupt_held t = (if is_interrupt_opened x then insert i (interrupt_held s)
        else interrupt_held s - {i})"
  using assms by (auto simp: mmio_held_def interrupt_held_def length_vec_abs nth_list_update split: if_splits)

definition held :: "'e cmn_state_scheme \<Rightarrow> claims" where
  "held s = (mmio_held s, interrupt_held s)"

lemma held_cong: "vec_abs s = vec_abs t \<Longrightarrow> vec_size s = vec_size t \<Longrightarrow> held s = held t"
  by (simp add: held_def mmio_held_def interrupt_held_def)

lemma table_kept_registers: "table_kept s t \<Longrightarrow> mem t = mem s \<and> bus t = bus s"
  by (auto simp: table_kept_def)

lemma table_kept_size: "table_kept s t \<Longrightarrow> vec_size t = vec_size s"
  by (auto simp: table_kept_def)

lemma wp_claim_upd:
  assumes inv: "vec_inv s" and i: "i < vec_size s" and fixed: "\<And>x. fixed_part (f x) = fixed_part x"
    and m: "is_mmio_opened (f (vec_abs s ! i)) = m" and n: "is_interrupt_opened (f (vec_abs s ! i)) = n"
    and Q: "\<And>t. table_kept s t \<Longrightarrow> held t =
      (if m then insert i (mmio_held s) else mmio_held s - {i},
       if n then insert i (interrupt_held s) else interrupt_held s - {i}) \<Longrightarrow> Q () t"
  shows "wp (vec_upd i f) Q s"
proof (rule wp_mono [OF wp_vec_upd_kept [OF inv i fixed]])
  fix x t
  assume t: "table_kept s t \<and> vec_abs t = (vec_abs s)[i := f (vec_abs s ! i)]"
  then have "vec_size t = vec_size s" by (simp add: table_kept_size)
  from held_upd [OF inv i this conjunct2 [OF t]] m n have "held t =
      (if m then insert i (mmio_held s) else mmio_held s - {i},
       if n then insert i (interrupt_held s) else interrupt_held s - {i})"
    by (simp add: held_def)
  with t Q show "Q x t" by (cases x) simp
qed

text \<open>The claim that an update does not touch stays as it is.\<close>

lemma same_claim:
  assumes "i < vec_size s"
  shows "(if is_mmio_opened (vec_abs s ! i) then insert i (mmio_held s) else mmio_held s - {i}) = mmio_held s"
    and "(if is_interrupt_opened (vec_abs s ! i) then insert i (interrupt_held s)
          else interrupt_held s - {i}) = interrupt_held s"
  using assms by (auto simp: mmio_held_def interrupt_held_def)

text \<open>The claims with their frame.\<close>

lemma wp_fpga_open_kept:
  assumes inv: "vec_inv s"
  shows "wp (fpga_open i) (\<lambda>r t. table_kept s t
      \<and> (r, mmio_held t) = claim_step (vec_size s) (Claim i) (mmio_held s) \<and> interrupt_held t = interrupt_held s) s"
proof (cases "unat i < vec_size s \<and> unat i \<notin> mmio_held s")
  case True
  then have i: "unat i < vec_size s" and free: "unat i \<notin> mmio_held s" by simp_all
  with inv obtain xs where "vec s = Some xs" "unat i < length xs" "\<not> is_mmio_opened (xs ! unat i)"
    by (elim vec_inv_Some) (auto simp: mmio_held_def)
  with i free show ?thesis
    by (simp add: fpga_open_def wp_bnd wp_thn wp_ret wp_vec_size wp_vec_at wp_ret_eta)
      (rule wp_claim_upd [OF inv i _ refl refl], simp_all add: fixed_part_def same_claim [OF i] held_def wp_ret)
next
  case False
  then show ?thesis
    using mmio_claim.claim_refused [OF inv, of i] table_kept_refl [OF inv] by (auto simp: wp_def)
qed

lemma wp_fpga_interrupt_open_kept:
  assumes inv: "vec_inv s"
  shows "wp (fpga_interrupt_open i) (\<lambda>r t. table_kept s t
      \<and> (r, interrupt_held t) = claim_step (vec_size s) (Claim i) (interrupt_held s) \<and> mmio_held t = mmio_held s) s"
proof (cases "unat i < vec_size s \<and> unat i \<notin> interrupt_held s")
  case True
  then have i: "unat i < vec_size s" and free: "unat i \<notin> interrupt_held s" by simp_all
  with inv obtain xs where "vec s = Some xs" "unat i < length xs" "\<not> is_interrupt_opened (xs ! unat i)"
    by (elim vec_inv_Some) (auto simp: interrupt_held_def)
  with i free show ?thesis
    by (simp add: fpga_interrupt_open_def wp_bnd wp_thn wp_ret wp_vec_size wp_vec_at wp_ret_eta)
      (rule wp_claim_upd [OF inv i _ refl refl], simp_all add: fixed_part_def same_claim [OF i] held_def wp_ret)
next
  case False
  then show ?thesis
    using interrupt_claim.claim_refused [OF inv, of i] table_kept_refl [OF inv] by (auto simp: wp_def)
qed

lemma wp_fpga_close_kept:
  assumes inv: "vec_inv s"
  shows "wp (fpga_close i) (\<lambda>r t. table_kept s t \<and> mmio_held t = mmio_held s - {unat i} \<and> interrupt_held t = interrupt_held s) s"
proof (cases "unat i < vec_size s")
  case i: True
  then show ?thesis
    by (simp add: fpga_close_def wp_bnd wp_vec_size)
      (rule wp_claim_upd [OF inv i _ refl refl], simp_all add: fixed_part_def same_claim [OF i] held_def)
next
  case False
  then show ?thesis
    using table_kept_refl [OF inv] by (auto simp: fpga_close_def wp_bnd wp_vec_size wp_ret mmio_held_def)
qed

lemma wp_fpga_interrupt_close_kept:
  assumes inv: "vec_inv s"
  shows "wp (fpga_interrupt_close i) (\<lambda>r t. table_kept s t \<and> interrupt_held t = interrupt_held s - {unat i} \<and> mmio_held t = mmio_held s) s"
proof (cases "unat i < vec_size s")
  case i: True
  then show ?thesis
    by (simp add: fpga_interrupt_close_def wp_bnd wp_vec_size)
      (rule wp_claim_upd [OF inv i _ refl refl], simp_all add: fixed_part_def same_claim [OF i] held_def)
next
  case False
  then show ?thesis
    using table_kept_refl [OF inv] by (auto simp: fpga_interrupt_close_def wp_bnd wp_vec_size wp_ret interrupt_held_def)
qed

lemma wp_interface_at_kept:
  assumes inv: "vec_inv s"
  shows "fpga_get_interface_at i buffer s =
     (if unat i < length (vec_abs s) \<and> buffer then Ret (True, Some (vec_abs s ! unat i)) s
      else Ret (False, None) s)"
proof (cases buffer)
  case True
  with run_interface_at [OF inv, of i] show ?thesis by simp
next
  case False
  then show ?thesis
    by (simp add: fpga_get_interface_at_def common_fpga_interface_info_vec_size_def run_rules)
qed

lemma wp_table_perform:
  assumes inv: "vec_inv s"
  shows "wp (table_perform c) (\<lambda>a t. table_kept s t \<and> answer_ok (vec_abs s) W (held s, m) (Table c) a
      \<and> held t = next_claims (vec_size s) (held s) (Table c)) s"
proof (cases c)
  case Call_num_of_interfaces
  with table_kept_refl [OF inv] length_vec_abs [OF inv] show ?thesis
    by (simp add: fpga_get_num_of_interfaces_def wp_bnd wp_ret wp_vec_size)
next
  case (Call_interface_at i buffer)
  with table_kept_refl [OF inv] wp_interface_at_kept [OF inv, of i buffer] show ?thesis
    by (simp add: wp_def run_rules)
next
  case (Call_open i)
  then show ?thesis
    by (auto simp: wp_bnd wp_ret held_def length_vec_abs [OF inv] simp del: claim_step.simps
        dest!: sym [of "(_, _)"] intro!: wp_mono [OF wp_fpga_open_kept [OF inv]])
next
  case (Call_close i)
  then show ?thesis
    by (auto simp: wp_thn wp_ret held_def intro!: wp_mono [OF wp_fpga_close_kept [OF inv]])
next
  case (Call_interrupt_open i)
  then show ?thesis
    by (auto simp: wp_bnd wp_ret held_def length_vec_abs [OF inv] simp del: claim_step.simps
        dest!: sym [of "(_, _)"] intro!: wp_mono [OF wp_fpga_interrupt_open_kept [OF inv]])
next
  case (Call_interrupt_close i)
  then show ?thesis
    by (auto simp: wp_thn wp_ret held_def intro!: wp_mono [OF wp_fpga_interrupt_close_kept [OF inv]])
qed

section \<open>Register accesses\<close>

definition mem_only :: "'e mmio_state_scheme \<Rightarrow> 'e mmio_state_scheme \<Rightarrow> bool" where
  "mem_only s t \<longleftrightarrow> dom (mem t) = dom (mem s) \<and> (\<exists>m ev. t = s\<lparr>mem := m, bus := ev\<rparr>)"

lemma mem_only_trans: "mem_only s t \<Longrightarrow> mem_only t u \<Longrightarrow> mem_only s u"
  by (auto simp: mem_only_def) (rule exI, rule exI, rule refl)

lemma mapped_dom: "dom m = dom m' \<Longrightarrow> mapped m b n = mapped m' b n"
  by (auto simp: mapped_def dom_def set_eq_iff)

lemma mem_only_window: "window g h b l s \<Longrightarrow> mem_only s t \<Longrightarrow> window g h b l t"
proof -
  assume w: "window g h b l s" and t: "mem_only s t"
  then obtain m ev where "t = s\<lparr>mem := m, bus := ev\<rparr>" "dom m = dom (mem s)" by (auto simp: mem_only_def)
  with window_update [OF w, of m ev] w show ?thesis
    by (simp add: mapped_dom [of m "mem s"] window_def register_space_def)
qed

lemma bus_called [simp]: "bus (called c f s) = bus s"
  by (simp add: called_def)

lemma dom_store:
  assumes "load_bytes m a (length bs) \<noteq> None"
  shows "dom (store_bytes m a bs) = dom m"
proof -
  from assms obtain cs where cs: "\<forall>i < length bs. m (a + of_nat i) = Some (cs ! i)"
    by (auto simp: load_bytes_iff)
  have "m x \<noteq> None" if "unat (x - a) < length bs" for x
  proof -
    have "x = a + of_nat (unat (x - a))" by simp
    with cs that show ?thesis by (metis option.distinct(1))
  qed
  then show ?thesis by (auto simp: store_bytes_def dom_def)
qed

lemma wp_bus_only:
  assumes "register_space (mem s) b lim" and "x + n \<le> lim" and "n dvd x" and "n dvd 8"
  shows "wp (bus_read n (b + of_nat x)) (\<lambda>_ t. mem_only s t) s"
    and "wp (bus_write n (b + of_nat x) w) (\<lambda>_ t. mem_only s t) s"
proof -
  have eq: "s\<lparr>bus := ev\<rparr> = s\<lparr>mem := mem s, bus := ev\<rparr>" for ev by (cases s) simp
  have "mem_only s (s\<lparr>bus := ev\<rparr>)" for ev
    unfolding mem_only_def by (intro conjI exI, simp) (rule eq)
  then show "wp (bus_read n (b + of_nat x)) (\<lambda>_ t. mem_only s t) s"
    by (simp add: wp_def run_bus_read [OF assms])
  have "mapped (mem s) b lim" using assms(1) by (simp add: register_space_def)
  from mapped_load [OF this assms(2)] obtain bs where "load_bytes (mem s) (b + of_nat x) n = Some bs" by blast
  then have "dom (store_bytes (mem s) (b + of_nat x) (bytes_le n w)) = dom (mem s)" by (intro dom_store) simp
  then show "wp (bus_write n (b + of_nat x) w) (\<lambda>_ t. mem_only s t) s"
    by (auto simp: wp_def run_bus_write [OF assms] mem_only_def)
qed

text \<open>The block transfers keep what the word accesses keep.\<close>

lemma unat_add_8_u32: "unat (a :: u32) + 16 \<le> unat (l :: u32) \<Longrightarrow> unat (a + 8) = unat a + 8"
  using unat_u32 [of l] by (simp add: unat_word_ariths)

lemma wp_read_512_loop:
  assumes rd: "\<And>a s. I s \<Longrightarrow> unat a + 8 \<le> unat l \<Longrightarrow> wp (rd a) (\<lambda>_ t. I t \<and> R s t) s"
    and trans: "\<And>s t u. R s t \<Longrightarrow> R t u \<Longrightarrow> R s u" and refl: "\<And>s. R s s"
  shows "I s \<Longrightarrow> unat a + 8 * k \<le> unat (l :: u32) \<Longrightarrow> wp (read_512_loop k rd a) (\<lambda>_ t. I t \<and> R s t) s"
proof (induction k arbitrary: a s)
  case 0
  then show ?case by (simp add: wp_ret refl)
next
  case (Suc k)
  have "wp (read_512_loop k rd (a + 8)) (\<lambda>bs u. I u \<and> R s u) t" if "I t \<and> R s t" for t
  proof (cases k)
    case 0
    with that show ?thesis by (simp add: wp_ret)
  next
    case (Suc k')
    then have "unat (a + 8) = unat a + 8" using Suc.prems(2) by (intro unat_add_8_u32 [of a l]) simp
    with Suc.IH [of t "a + 8"] Suc.prems(2) that show ?thesis by (auto elim!: wp_mono dest: trans)
  qed
  moreover have "unat a + 8 \<le> unat l" using Suc.prems(2) by simp
  ultimately show ?case
    by (auto simp: wp_bnd wp_ret_eta intro!: wp_mono [OF rd [OF Suc.prems(1)]])
qed

lemma wp_write_512_loop:
  assumes wr: "\<And>a s w. I s \<Longrightarrow> unat a + 8 \<le> unat l \<Longrightarrow> wp (wr a w) (\<lambda>_ t. I t \<and> R s t) s"
    and trans: "\<And>s t u. R s t \<Longrightarrow> R t u \<Longrightarrow> R s u" and refl: "\<And>s. R s s"
  shows "I s \<Longrightarrow> unat a + 8 * k \<le> unat (l :: u32) \<Longrightarrow> 8 * k \<le> length bs \<Longrightarrow>
    wp (write_512_loop k wr a bs) (\<lambda>_ t. I t \<and> R s t) s"
proof (induction k arbitrary: a s bs)
  case 0
  then show ?case by (simp add: wp_ret refl)
next
  case (Suc k)
  have "wp (write_512_loop k wr (a + 8) (drop 8 bs)) (\<lambda>_ u. I u \<and> R s u) t" if "I t \<and> R s t" for t
  proof (cases k)
    case 0
    with that show ?thesis by (simp add: wp_ret)
  next
    case (Suc k')
    then have "unat (a + 8) = unat a + 8" using Suc.prems(2) by (intro unat_add_8_u32 [of a l]) simp
    moreover have "8 * k \<le> length (drop 8 bs)" using Suc.prems(3) by simp
    ultimately show ?thesis
      using Suc.IH [of t "a + 8" "drop 8 bs"] Suc.prems(2) that by (auto elim!: wp_mono dest: trans)
  qed
  moreover have "unat a + 8 \<le> unat l" "8 \<le> length bs" using Suc.prems(2,3) by simp_all
  ultimately show ?case
    by (auto simp: wp_thn wp_require intro!: wp_mono [OF wr [OF Suc.prems(1)]])
qed

text \<open>What the block transfers do exactly, on word accesses that do what those of memory do.\<close>

lemma length_bytes_of:
  assumes "mapped m b lim" and "x + n \<le> lim"
  shows "length (bytes_of m (b + of_nat x) n) = n"
  by (rule mapped_load [OF assms]) (simp add: bytes_of_def)

lemma bytes_of_append:
  assumes "mapped m b lim" and "x + (n + k) \<le> lim"
  shows "bytes_of m (b + of_nat x) (n + k) = bytes_of m (b + of_nat x) n @ bytes_of m (b + of_nat x + of_nat n) k"
proof -
  obtain bs where "load_bytes m (b + of_nat x) (n + k) = Some bs"
    using mapped_load [OF assms] by blast
  then show ?thesis by (auto simp: bytes_of_def load_bytes_append split: option.splits)
qed

lemma ucast_step:
  assumes "unat (a :: u32) + 16 \<le> unat (l :: u32)"
  shows "(ucast (a + 8) :: u64) = ucast a + 8"
  using unat_add_8_u32 [OF assms] by (metis offset_nat of_nat_add of_nat_numeral)

lemma run_read_512_loop:
  fixes s :: "'e mmio_state_scheme"
  assumes rd: "\<And>(s :: 'e mmio_state_scheme) a. I s \<Longrightarrow> unat a + 8 \<le> unat l \<Longrightarrow> 8 dvd unat a \<Longrightarrow>
      rd a s = Ret (port_word b s a) (s\<lparr>bus := bus s @ read_events wd (b + ucast a)\<rparr>)"
    and I: "\<And>s ev. I s \<Longrightarrow> I (s\<lparr>bus := ev\<rparr>)" and map: "\<And>s. I s \<Longrightarrow> mapped (mem s) b (unat l)"
  shows "I s \<Longrightarrow> unat a + 8 * k \<le> unat (l :: u32) \<Longrightarrow> 8 dvd unat a \<Longrightarrow>
    read_512_loop k rd a s = Ret (bytes_of (mem s) (b + ucast a) (8 * k))
      (s\<lparr>bus := bus s @ concat (map (\<lambda>j. read_events wd (b + ucast a + of_nat (8 * j))) [0..<k])\<rparr>)"
proof (induction k arbitrary: a s)
  case 0
  then show ?case by (simp add: run_rules bytes_of_def)
next
  case (Suc k)
  let ?s = "s\<lparr>bus := bus s @ read_events wd (b + ucast a)\<rparr>"
  have a: "unat a + 8 \<le> unat l" using Suc.prems(2) by simp
  have events: "concat (map (\<lambda>j. read_events wd (b + ucast a + of_nat (8 * j))) [0..<Suc k])
      = read_events wd (b + ucast a)
        @ concat (map (\<lambda>j. read_events wd (b + ucast a + 8 + of_nat (8 * j))) [0..<k])"
    by (simp add: upt_conv_Cons map_Suc_upt [symmetric] comp_def add.assoc del: upt_Suc)
  have "length (bytes_of (mem s) (b + ucast a) 8) = 8"
    unfolding offset_nat by (rule length_bytes_of [OF map [OF Suc.prems(1)] a])
  then have first: "bytes_le 8 (port_word b s a) = bytes_of (mem s) (b + ucast a) 8"
    by (simp add: port_word_def bytes_of_def bytes_le_le_word)
  have "bytes_of (mem s) (b + ucast a) (8 * Suc k)
      = bytes_of (mem s) (b + ucast a) 8 @ bytes_of (mem s) (b + ucast a + 8) (8 * k)"
    using bytes_of_append [OF map [OF Suc.prems(1)], of "unat a" 8 "8 * k"] Suc.prems(2) by simp
  moreover have "read_512_loop k rd (a + 8) ?s = Ret (bytes_of (mem s) (b + ucast a + 8) (8 * k))
      (?s\<lparr>bus := bus ?s @ concat (map (\<lambda>j. read_events wd (b + ucast a + 8 + of_nat (8 * j))) [0..<k])\<rparr>)"
  proof (cases k)
    case 0
    then show ?thesis by (simp add: run_rules bytes_of_def)
  next
    case (Suc k')
    then have a8: "unat (a + 8) = unat a + 8" "(ucast (a + 8) :: u64) = ucast a + 8"
      using Suc.prems(2) by (intro unat_add_8_u32 [of a l] ucast_step [of a l]; simp)+
    have "unat (a + 8) + 8 * k \<le> unat l" "8 dvd unat (a + 8)" using a8(1) Suc.prems(2,3) by simp_all
    from Suc.IH [OF I [OF Suc.prems(1)] this] show ?thesis by (simp add: a8(2) add.assoc)
  qed
  ultimately show ?case
    using rd [OF Suc.prems(1) a Suc.prems(3)] unfolding events by (simp add: run_rules first)
qed

lemma run_write_512_loop:
  fixes s :: "'e mmio_state_scheme"
  assumes wr: "\<And>(s :: 'e mmio_state_scheme) a w. I s \<Longrightarrow> unat a + 8 \<le> unat l \<Longrightarrow> 8 dvd unat a \<Longrightarrow>
      wr a w s = Ret () (s\<lparr>mem := store_bytes (mem s) (b + ucast a) (bytes_le 8 w),
        bus := bus s @ write_events wd (b + ucast a) w\<rparr>)"
    and I: "\<And>s x bs ev. I s \<Longrightarrow> I (s\<lparr>mem := store_bytes (mem s) x bs, bus := ev\<rparr>)"
  shows "I s \<Longrightarrow> unat a + 8 * k \<le> unat (l :: u32) \<Longrightarrow> 8 dvd unat a \<Longrightarrow> 8 * k \<le> length bs \<Longrightarrow>
    write_512_loop k wr a bs s = Ret () (s\<lparr>mem := store_bytes (mem s) (b + ucast a) (take (8 * k) bs),
      bus := bus s @ concat (map (\<lambda>j. write_events wd (b + ucast a + of_nat (8 * j)) (block_word bs j)) [0..<k])\<rparr>)"
proof (induction k arbitrary: a s bs)
  case 0
  then show ?case by (simp add: run_rules store_bytes_def)
next
  case (Suc k)
  let ?b = "take 8 bs"
  let ?s = "s\<lparr>mem := store_bytes (mem s) (b + ucast a) ?b,
      bus := bus s @ write_events wd (b + ucast a) (le_word ?b)\<rparr>"
  have a: "unat a + 8 \<le> unat l" and len: "8 \<le> length bs" using Suc.prems(2,4) by simp_all
  then have one: "bytes_le 8 (le_word ?b :: u64) = ?b" by (simp add: bytes_le_le_word)
  have Is: "I ?s" by (rule I [OF Suc.prems(1)])
  have word: "block_word (drop 8 bs) j = block_word bs (Suc j)" "block_word bs 0 = le_word ?b" for j
    by (simp_all add: block_word_def add.commute)
  have events: "concat (map (\<lambda>j. write_events wd (b + ucast a + of_nat (8 * j)) (block_word bs j)) [0..<Suc k])
      = write_events wd (b + ucast a) (le_word ?b)
        @ concat (map (\<lambda>j. write_events wd (b + ucast a + 8 + of_nat (8 * j)) (block_word (drop 8 bs) j)) [0..<k])"
    by (simp add: upt_conv_Cons map_Suc_upt [symmetric] comp_def add.assoc word del: upt_Suc)
  have "length (?b @ take (8 * k) (drop 8 bs)) \<le> 2 ^ 32"
    using Suc.prems(2) unat_u32 [of l] by simp
  then have "store_bytes (store_bytes (mem s) (b + ucast a) ?b) (b + ucast a + 8) (take (8 * k) (drop 8 bs))
      = store_bytes (mem s) (b + ucast a) (take (8 * Suc k) bs)"
    using store_bytes_append [of ?b "take (8 * k) (drop 8 bs)" "mem s" "b + ucast a"] len
    by (simp add: take_add)
  moreover have "write_512_loop k wr (a + 8) (drop 8 bs) ?s = Ret () (?s\<lparr>mem :=
      store_bytes (mem ?s) (b + ucast a + 8) (take (8 * k) (drop 8 bs)), bus := bus ?s @
      concat (map (\<lambda>j. write_events wd (b + ucast a + 8 + of_nat (8 * j)) (block_word (drop 8 bs) j)) [0..<k])\<rparr>)"
  proof (cases k)
    case 0
    then show ?thesis by (simp add: run_rules store_bytes_def)
  next
    case (Suc k')
    then have a8: "unat (a + 8) = unat a + 8" "(ucast (a + 8) :: u64) = ucast a + 8"
      using Suc.prems(2) by (intro unat_add_8_u32 [of a l] ucast_step [of a l]; simp)+
    have "unat (a + 8) + 8 * k \<le> unat l" "8 dvd unat (a + 8)" "8 * k \<le> length (drop 8 bs)"
      using a8(1) Suc.prems(2-4) by simp_all
    from Suc.IH [OF Is this] show ?thesis by (simp add: a8(2) add.assoc)
  qed
  ultimately show ?case
    using wr [OF Suc.prems(1) a Suc.prems(3), of "le_word ?b"] len unfolding events
    by (simp add: run_rules one)
qed

text \<open>Single accesses.\<close>

lemma window_read:
  assumes "window g h b l s" and "unat a + n \<le> unat l" and "n dvd unat a" and "n dvd 8"
  shows "bus_read n (b + ucast a) s = Ret (le_word (bytes_of (mem s) (b + ucast a) n))
    (s\<lparr>bus := bus s @ [Bus_read n (b + ucast a)]\<rparr>)"
  using run_bus_read [of s b "unat l" "unat a" n] assms by (simp add: window_def bytes_of_def)

lemma window_write:
  assumes "window g h b l s" and "unat a + n \<le> unat l" and "n dvd unat a" and "n dvd 8"
  shows "bus_write n (b + ucast a) w s = Ret () (s\<lparr>mem := store_bytes (mem s) (b + ucast a) (bytes_le n w),
    bus := bus s @ [Bus_write n (b + ucast a) (ucast w)]\<rparr>)"
  using run_bus_write [of s b "unat l" "unat a" n w] assms by (simp add: window_def)

lemma narrow_answer:
  assumes "window g h b l s" and "unat a + n \<le> unat l" and "8 * n \<le> LENGTH('v)"
  shows "(ucast (le_word (bytes_of (mem s) (b + ucast a) n) :: 'v::len word) :: u64)
    = le_word (bytes_of (mem s) (b + ucast a) n)"
  using length_bytes_of [of "mem s" b "unat l" "unat a" n] assms
  by (intro ucast_le_word) (simp add: window_def register_space_def)

lemma run_window_512:
  fixes s :: "'e mmio_state_scheme"
  assumes w: "window g h b l s" and a: "unat a + 8 * 8 \<le> unat l" and d: "8 dvd unat a"
  shows "read_512_loop 8 (fpga_read_64 g (fpga_read_32 g) h) a s = Ret (bytes_of (mem s) (b + ucast a) (8 * 8))
      (s\<lparr>bus := bus s @ concat (map (\<lambda>j. read_events (env_read_mode (env s))
        (b + ucast a + of_nat (8 * j))) [0..<8])\<rparr>)"
    and "8 * 8 \<le> length bs \<Longrightarrow> write_512_loop 8 (fpga_write_64 g (fpga_write_32 g) h) a bs s =
      Ret () (s\<lparr>mem := store_bytes (mem s) (b + ucast a) (take (8 * 8) bs), bus := bus s @
        concat (map (\<lambda>j. write_events (env_read_mode (env s))
          (b + ucast a + of_nat (8 * j)) (block_word bs j)) [0..<8])\<rparr>)"
proof -
  let ?I = "\<lambda>t. window g h b l t \<and> env t = env s"
  have map: "mapped (mem t) b (unat l)" if "window g h b l t" for t
    using that by (simp add: window_def register_space_def)
  have I: "?I (t\<lparr>bus := ev\<rparr>)" "?I (t\<lparr>mem := store_bytes (mem t) x ys, bus := ev\<rparr>)" if "?I t" for t ev x ys
    using that window_update [of g h b l t "mem t" ev] window_update [of g h b l t] register_space_store
    by (simp_all add: window_def)
  show "read_512_loop 8 (fpga_read_64 g (fpga_read_32 g) h) a s = Ret (bytes_of (mem s) (b + ucast a) (8 * 8))
      (s\<lparr>bus := bus s @ concat (map (\<lambda>j. read_events (env_read_mode (env s))
        (b + ucast a + of_nat (8 * j))) [0..<8])\<rparr>)"
    by (rule run_read_512_loop [where I = ?I and l = l]) (use w a d I(1) map in \<open>simp_all add: run_read_64 [of g h b l]\<close>)
  show "write_512_loop 8 (fpga_write_64 g (fpga_write_32 g) h) a bs s =
      Ret () (s\<lparr>mem := store_bytes (mem s) (b + ucast a) (take (8 * 8) bs), bus := bus s @
        concat (map (\<lambda>j. write_events (env_read_mode (env s))
          (b + ucast a + of_nat (8 * j)) (block_word bs j)) [0..<8])\<rparr>)"
    if "8 * 8 \<le> length bs"
    by (rule run_write_512_loop [where I = ?I and l = l]) (use w a d that I(2) in \<open>simp_all add: run_write_64 [of g h b l]\<close>)
qed

text \<open>Every access through a window is the access of the abstract machine.\<close>

lemma run_access:
  fixes s :: "'e mmio_state_scheme"
  assumes w: "window g h b l s" and fits: "access_fits l c"
  shows "access_perform g h c s = Ret (access_answer (mem s) b c)
    (s\<lparr>mem := access_effect (mem s) b c, bus := bus s @ access_events (env_read_mode (env s)) b c\<rparr>)"
proof -
  have base: "g h s = Ret b s" using w by (rule window_base)
  have same: "s\<lparr>mem := mem s, bus := ev\<rparr> = s\<lparr>bus := ev\<rparr>" for ev by (cases s) simp
  show ?thesis
  proof (cases c)
    case (Call_read_64 a)
    with fits show ?thesis
      by (simp add: run_rules run_read_64 [OF w] port_word_def bytes_of_def same)
  next
    case (Call_write_64 a v)
    with fits show ?thesis by (simp add: run_rules run_write_64 [OF w])
  next
    case (Call_read_512 a)
    then have "unat a + 8 * 8 \<le> unat l" "8 dvd unat a" using fits by simp_all
    from run_window_512(1) [OF w this] show ?thesis
      unfolding Call_read_512 by (simp add: fpga_read_512_def run_rules same)
  next
    case (Call_write_512 a bs)
    then have "unat a + 8 * 8 \<le> unat l" "8 dvd unat a" "8 * 8 \<le> length bs" using fits by simp_all
    from run_window_512(2) [OF w this] show ?thesis
      unfolding Call_write_512 by (simp add: fpga_write_512_def run_rules)
  qed (use fits base same in \<open>simp_all add: run_rules fpga_read_8_def fpga_read_16_def
      fpga_read_32_def fpga_write_8_def fpga_write_16_def fpga_write_32_def window_read [OF w]
      window_write [OF w] narrow_answer [OF w] del: One_nat_def\<close>)
qed

lemma dom_access_effect:
  assumes m: "mapped m b (unat l)" and fits: "access_fits l c"
  shows "dom (access_effect m b c) = dom m"
proof -
  have "load_bytes m (b + ucast a) n \<noteq> None" if "unat a + n \<le> unat l" for a :: u32 and n
    using mapped_load [OF m that] by auto
  then have store: "dom (store_bytes m (b + ucast a) bs) = dom m" if "unat a + length bs \<le> unat l" for a :: u32 and bs
    using that by (intro dom_store) blast
  show ?thesis using fits by (cases c) (simp_all add: store)
qed

lemma access_mem_only:
  assumes "window g h b l s" and "access_fits l c"
  shows "mem_only s (s\<lparr>mem := access_effect (mem s) b c, bus := ev\<rparr>)"
  using dom_access_effect [of "mem s" b l c] assms by (auto simp: mem_only_def window_def register_space_def)


section \<open>Steps of a session\<close>

text \<open>What every call of a session keeps.  \<open>rest\<close> is what the platform needs of its own variables,
  \<open>may\<close> the system calls it may make on the way.\<close>

definition api_step ::
    "('e os_state_scheme \<Rightarrow> 'r) \<Rightarrow> (os_call \<Rightarrow> bool) \<Rightarrow> 'e os_state_scheme \<Rightarrow> 'e os_state_scheme \<Rightarrow> bool" where
  "api_step rest may s t \<longleftrightarrow>
     (vec_inv s \<longrightarrow> vec_inv t) \<and> map fixed_part (vec_abs t) = map fixed_part (vec_abs s)
     \<and> vec_size t = vec_size s \<and> vec_blocks t = vec_blocks s \<and> (vec t = None) = (vec s = None)
     \<and> live t = live s \<and> env t = env s \<and> out t = out s \<and> can_print t = can_print s
     \<and> dom (mem t) = dom (mem s) \<and> os t = os s \<and> rest t = rest s
     \<and> (\<exists>cs. os_calls t = os_calls s @ cs \<and> list_all may cs)"

text \<open>The registers of an entry start at an address that its fixed members determine.\<close>

definition session_ok ::
    "('e os_state_scheme \<Rightarrow> 'r) \<Rightarrow> ('r \<Rightarrow> FPGA_INTERFACE_INFO \<Rightarrow> u64) \<Rightarrow> u32 \<Rightarrow> 'e os_state_scheme \<Rightarrow> bool" where
  "session_ok rest addr l s \<longleftrightarrow> vec_inv s \<and> vec_size s \<le> 2 ^ 31
     \<and> (\<forall>x \<in> set (vec_abs s). register_space (mem s) (addr (rest s) x) (unat l))"

text \<open>Where the accesses go: to the window of the entry, unless the platform gives them to a driver.\<close>

definition layout_of ::
    "('e os_state_scheme \<Rightarrow> 'r) \<Rightarrow> ('r \<Rightarrow> FPGA_INTERFACE_INFO \<Rightarrow> u64)
      \<Rightarrow> (read_mode \<Rightarrow> FPGA_INTERFACE_INFO \<Rightarrow> access_call \<Rightarrow> bool) \<Rightarrow> 'e os_state_scheme \<Rightarrow> register_map" where
  "layout_of rest addr direct s =
     \<lparr>placement = (\<lambda>x c. if direct (env_read_mode (env s)) x c then Some (addr (rest s) x) else None),
      access_width = env_read_mode (env s)\<rparr>"

definition machine_of :: "'e mmio_state_scheme \<Rightarrow> machine" where
  "machine_of s = (held s, mem s)"

text \<open>A call that did what the abstract machine does.\<close>

definition call_done :: "register_map \<Rightarrow> 'e mmio_state_scheme \<Rightarrow> api_call \<Rightarrow> api_answer \<Rightarrow> 'e mmio_state_scheme \<Rightarrow> bool" where
  "call_done W s c a t \<longleftrightarrow> answer_ok (vec_abs s) W (machine_of s) c a
     \<and> machine_of t = next_machine (vec_abs s) W (machine_of s) c
     \<and> bus t = bus s @ call_events (vec_abs s) W c"

lemma api_step_refl: "api_step rest may s s"
  by (simp add: api_step_def)

lemma api_step_trans:
  assumes "api_step rest may s t" and "api_step rest may t u"
  shows "api_step rest may s u"
proof -
  from assms obtain cs ds where "os_calls t = os_calls s @ cs" "list_all may cs"
    "os_calls u = os_calls t @ ds" "list_all may ds"
    unfolding api_step_def by blast
  then have "\<exists>cs. os_calls u = os_calls s @ cs \<and> list_all may cs" by auto
  with assms show ?thesis unfolding api_step_def by simp
qed

locale platform_frame =
  fixes rest :: "'e os_state_scheme \<Rightarrow> 'r"
    and addr :: "'r \<Rightarrow> FPGA_INTERFACE_INFO \<Rightarrow> u64"
    and direct :: "read_mode \<Rightarrow> FPGA_INTERFACE_INFO \<Rightarrow> access_call \<Rightarrow> bool"
    and may :: "os_call \<Rightarrow> bool"
  assumes rest_vec: "rest (s\<lparr>g_common_fpga_interface_info_vec := v\<rparr>) = rest s"
    and rest_mem: "rest (s\<lparr>mem := m, bus := ev\<rparr>) = rest s"
    and rest_called: "rest (called c f s) = rest s"
    and addr_fixed: "addr r (fixed_part x) = addr r x"
    and direct_fixed: "direct wd (fixed_part x) d = direct wd x d"
begin

abbreviation "layout \<equiv> layout_of rest addr direct"

lemma step_table:
  assumes "table_kept s t"
  shows "api_step rest may s t"
proof -
  from assms obtain v where t: "t = s\<lparr>g_common_fpga_interface_info_vec := v\<rparr>"
    unfolding table_kept_def by blast
  have "vec_size t = vec_size s" using assms by (rule table_kept_size)
  with assms show ?thesis
    unfolding api_step_def table_kept_def by (auto simp: t rest_vec can_print_def)
qed

lemma step_mem:
  assumes "mem_only s t"
  shows "api_step rest may s t"
proof -
  from assms obtain m ev where t: "t = s\<lparr>mem := m, bus := ev\<rparr>" and d: "dom m = dom (mem s)"
    unfolding mem_only_def by auto
  have "vec_inv t = vec_inv s" "vec_abs t = vec_abs s" "vec_blocks t = vec_blocks s"
    by (rule vec_cong; simp add: t)+
  with d show ?thesis unfolding api_step_def by (simp add: t rest_mem can_print_def)
qed

lemma step_called:
  assumes "may c"
  shows "api_step rest may s (called c f s)"
proof -
  have "vec_inv (called c f s) = vec_inv s" "vec_abs (called c f s) = vec_abs s"
    "vec_blocks (called c f s) = vec_blocks s"
    by (rule vec_cong; simp)+
  with assms show ?thesis unfolding api_step_def by (simp add: rest_called)
qed

lemma ok_step:
  assumes ok: "session_ok rest addr l s" and step: "api_step rest may s t"
  shows "session_ok rest addr l t"
proof -
  have fixed: "map fixed_part (vec_abs t) = map fixed_part (vec_abs s)"
    and d: "dom (mem t) = dom (mem s)" and r: "rest t = rest s"
    using step by (simp_all add: api_step_def)
  have "register_space (mem t) (addr (rest t) x) (unat l)" if x: "x \<in> set (vec_abs t)" for x
  proof -
    have "fixed_part x \<in> set (map fixed_part (vec_abs t))" using x by simp
    then obtain y where y: "y \<in> set (vec_abs s)" "fixed_part x = fixed_part y"
      unfolding fixed by auto
    have "addr (rest t) x = addr (rest s) y"
      using addr_fixed [of "rest s" x] addr_fixed [of "rest s" y] y(2) r by simp
    with ok y(1) mapped_dom [OF d] show ?thesis by (simp add: session_ok_def register_space_def)
  qed
  with ok step show ?thesis by (auto simp: session_ok_def api_step_def)
qed

text \<open>Calls on the table, on any platform.\<close>

lemma table_law:
  assumes ok: "session_ok rest addr l s"
  shows "wp (table_perform c) (\<lambda>a t. api_step rest may s t \<and> call_done (layout s) s (Table c) a t) s"
proof -
  have inv: "vec_inv s" using ok by (simp add: session_ok_def)
  show ?thesis
    by (rule wp_mono [OF wp_table_perform [OF inv, of _ "layout s" "mem s"]])
      (use step_table length_vec_abs [OF inv] in
        \<open>auto simp: call_done_def machine_of_def next_machine_def dest: table_kept_registers\<close>)
qed

text \<open>An access through a window.\<close>

lemma access_law:
  assumes ok: "session_ok rest addr l s" and r: "0 \<le> r" "nat r < length (vec_abs s)" "access_fits l c"
    and g: "\<And>i. i < vec_size s \<Longrightarrow> register_space (mem s) (addr (rest s) (vec_abs s ! i)) (unat l) \<Longrightarrow>
      window g (int i) (addr (rest s) (vec_abs s ! i)) l s"
    and d: "direct (env_read_mode (env s)) (vec_abs s ! nat r) c"
  shows "wp (access_perform g r c) (\<lambda>a t. api_step rest may s t \<and> call_done (layout s) s (Access r c) a t) s"
proof -
  let ?b = "addr (rest s) (vec_abs s ! nat r)"
  let ?t = "s\<lparr>mem := access_effect (mem s) ?b c, bus := bus s @ access_events (env_read_mode (env s)) ?b c\<rparr>"
  have n: "nat r < vec_size s" using r(2) ok by (simp add: session_ok_def length_vec_abs)
  have "vec_abs s ! nat r \<in> set (vec_abs s)" using r(2) by simp
  then have w: "window g r ?b l s" using g [OF n] ok r(1) by (auto simp: session_ok_def)
  have "api_step rest may s ?t" by (rule step_mem [OF access_mem_only [OF w r(3)]])
  moreover have "held ?t = held s" by (rule held_cong) (simp_all add: vec_abs_def split: option.split)
  then have "call_done (layout s) s (Access r c) (access_answer (mem s) ?b c) ?t"
    using d by (simp add: call_done_def machine_of_def next_machine_def layout_of_def)
  ultimately show ?thesis unfolding wp_def run_access [OF w r(3)] by simp
qed

text \<open>A call that leaves the claims, the registers and the bus alone.\<close>

lemma quiet_law:
  assumes w: "wp p (\<lambda>a t. api_step rest may s t \<and> held t = held s \<and> mem t = mem s \<and> bus t = bus s
      \<and> answer_ok (vec_abs s) (layout s) (machine_of s) c a) s"
    and c: "next_claims (length (vec_abs s)) (held s) c = held s"
      "next_registers (vec_abs s) (layout s) (mem s) c = mem s" "call_events (vec_abs s) (layout s) c = []"
  shows "wp p (\<lambda>a t. api_step rest may s t \<and> call_done (layout s) s c a t) s"
  by (rule wp_mono [OF w]) (use c in \<open>simp add: call_done_def machine_of_def next_machine_def\<close>)

lemma driver_law:
  assumes d: "\<not> direct (env_read_mode (env s)) (vec_abs s ! nat r) c"
    and w: "wp p (\<lambda>a t. api_step rest may s t \<and> held t = held s \<and> mem t = mem s \<and> bus t = bus s) s"
  shows "wp p (\<lambda>a t. api_step rest may s t \<and> call_done (layout s) s (Access r c) a t) s"
  by (rule quiet_law) (use d w in \<open>simp_all add: layout_of_def\<close>)

lemma layout_kept:
  assumes "api_step rest may s t"
  shows "layout t = layout s"
proof -
  have "rest t = rest s" "env t = env s" using assms by (auto simp: api_step_def)
  then show ?thesis unfolding layout_of_def by (simp only:)
qed

end

text \<open>
  What is left for a platform to show: calls on a handle make steps and do what the abstract machine
  does.  With the table, which is common, this gives the whole contract of \<open>api_platform\<close>.
\<close>

fun of_table :: "api_call \<Rightarrow> bool" where
  "of_table (Table c) = True"
| "of_table c = False"

locale platform_calls = platform_frame rest addr direct may
  for rest :: "'e os_state_scheme \<Rightarrow> 'r"
    and addr :: "'r \<Rightarrow> FPGA_INTERFACE_INFO \<Rightarrow> u64"
    and direct :: "read_mode \<Rightarrow> FPGA_INTERFACE_INFO \<Rightarrow> access_call \<Rightarrow> bool"
    and may :: "os_call \<Rightarrow> bool" +
  fixes perform :: "api_call \<Rightarrow> (api_answer, 'e os_state_scheme) prog"
    and l :: u32
    and irqs :: "interrupt_call \<Rightarrow> bool"
  assumes table_calls: "perform (Table d) = table_perform d"
    and handle_calls: "session_ok rest addr l s \<Longrightarrow> call_in_range (length (vec_abs s)) l irqs c \<Longrightarrow>
      \<not> of_table c \<Longrightarrow>
      wp (perform c) (\<lambda>a t. api_step rest may s t \<and> call_done (layout_of rest addr direct s) s c a t) s"
begin

lemma any_call:
  assumes ok: "session_ok rest addr l s" and c: "call_in_range (length (vec_abs s)) l irqs c"
  shows "wp (perform c) (\<lambda>a t. session_ok rest addr l t \<and> api_step rest may s t
     \<and> answer_ok (vec_abs s) (layout s) (machine_of s) c a
     \<and> machine_of t = next_machine (vec_abs s) (layout s) (machine_of s) c
     \<and> bus t = bus s @ call_events (vec_abs s) (layout s) c) s"
proof -
  have "wp (perform c) (\<lambda>a t. api_step rest may s t \<and> call_done (layout s) s c a t) s"
  proof (cases c)
    case (Table d)
    then show ?thesis by (simp add: table_calls table_law [OF ok])
  qed (use handle_calls [OF ok c] in simp_all)
  then show ?thesis by (rule wp_mono) (use ok_step [OF ok] in \<open>simp add: call_done_def\<close>)
qed

end

sublocale platform_calls \<subseteq> api_platform perform "session_ok rest addr l" vec_abs layout machine_of bus
  "api_step rest may" l irqs
proof unfold_locales
  show "length (vec_abs s) \<le> 2 ^ 31" if "session_ok rest addr l s" for s
    using that by (simp add: session_ok_def length_vec_abs)
  show "fixed_layout (layout s)" for s
    by (simp add: fixed_layout_def layout_of_def addr_fixed direct_fixed)
  show "api_step rest may s u" if "api_step rest may s t" "api_step rest may t u" for s t u
    using that by (rule api_step_trans)
  show "layout t = layout s \<and> map fixed_part (vec_abs t) = map fixed_part (vec_abs s)"
    if "api_step rest may s t" for s t
    using that layout_kept by (simp add: api_step_def)
qed (rule api_step_refl, rule any_call)

text \<open>An update of the interrupt members of one entry.\<close>

lemma wp_irq_upd:
  assumes inv: "vec_inv s" and i: "i < vec_size s" and fixed: "\<And>x. fixed_part (f x) = fixed_part x"
    and flags: "\<And>x. is_mmio_opened (f x) = is_mmio_opened x" "\<And>x. is_interrupt_opened (f x) = is_interrupt_opened x"
  shows "wp (vec_upd i f) (\<lambda>_ t. table_kept s t \<and> held t = held s) s"
  by (rule wp_claim_upd [OF inv i fixed refl refl]) (simp add: flags same_claim [OF i] held_def)

lemma valid_handle_range:
  assumes "- INT_MAX - 1 \<le> h" and "h \<le> INT_MAX" and "n \<le> 2 ^ 31"
  shows "valid_handle h n \<longleftrightarrow> 0 \<le> h \<and> nat h < n"
  using assms by (cases "0 \<le> h") (auto simp: valid_handle_def size_t_of_int_negative)

end
