(* ===== verification/Uio_Session.thy ===== *)
theory Uio_Session
  imports Api_Frame Uio_Interrupt_Main
begin

text \<open>
  Sessions of an application on the UIO platform: its dispatcher, and the proof that it provides
  \<open>api_platform\<close>.
\<close>

fun uio_perform :: "api_call \<Rightarrow> ('e, api_answer) uio" where
  "uio_perform (Table c) = table_perform c"
| "uio_perform (Access r c) = access_perform fpga_uio_get_base_address r c"
| "uio_perform (Interrupt r (Call_register_isr isr ctx)) =
     bnd (fpga_register_isr r isr ctx) (\<lambda>i. ret (Answer_int i))"
| "uio_perform (Interrupt r Call_enable_interrupt) = bnd (fpga_enable_interrupt r) (\<lambda>i. ret (Answer_int i))"
| "uio_perform (Interrupt r Call_disable_interrupt) = bnd (fpga_disable_interrupt r) (\<lambda>i. ret (Answer_int i))"

text \<open>What a session needs of the platform: the descriptor, the thread and what the cleanup will do.\<close>

definition uio_rest :: "'e uio_state_scheme \<Rightarrow> int \<times> nat" where
  "uio_rest s = (s_uio_drv_handle s, s_intThread_id s)"

definition uio_may :: "os_call \<Rightarrow> bool" where
  "uio_may c \<longleftrightarrow> c = Sem_getvalue \<or> c = Sem_post"

abbreviation uio_ok :: "u32 \<Rightarrow> 'e uio_state_scheme \<Rightarrow> bool" where
  "uio_ok \<equiv> session_ok uio_rest (\<lambda>r. base_address)"

abbreviation uio_direct :: "read_mode \<Rightarrow> FPGA_INTERFACE_INFO \<Rightarrow> access_call \<Rightarrow> bool" where
  "uio_direct wd x c \<equiv> True"

abbreviation uio_layout :: "'e uio_state_scheme \<Rightarrow> register_map" where
  "uio_layout \<equiv> layout_of uio_rest (\<lambda>r. base_address) uio_direct"

lemma uio_layout_memory: "uio_layout s = memory_layout (env_read_mode (env s))"
  by (simp add: layout_of_def memory_layout_def)

interpretation uio_frame: platform_frame uio_rest "\<lambda>r. base_address" uio_direct uio_may
  by unfold_locales (simp_all add: uio_rest_def fixed_part_def)

lemma uio_step_sem: "api_step uio_rest uio_may s (s\<lparr>g_intSem := v\<rparr>)" "held (s\<lparr>g_intSem := v\<rparr>) = held s"
proof -
  have "vec_blocks (s\<lparr>g_intSem := v\<rparr>) = vec_blocks s" by (rule vec_cong) simp_all
  then show "api_step uio_rest uio_may s (s\<lparr>g_intSem := v\<rparr>)" by (simp add: api_step_def uio_rest_def)
  show "held (s\<lparr>g_intSem := v\<rparr>) = held s" by (rule held_cong) simp_all
qed

text \<open>The semaphore calls of a step.\<close>

definition uio_after :: "'e uio_state_scheme \<Rightarrow> 'e uio_state_scheme \<Rightarrow> bool" where
  "uio_after s t \<longleftrightarrow> api_step uio_rest uio_may s t \<and> held t = held s \<and> mem t = mem s \<and> bus t = bus s"

lemma uio_after_sem:
  fixes s t :: "'e uio_state_scheme"
  assumes "uio_after s t"
  shows "uio_after s (called Sem_getvalue f t)" and "uio_after s (called Sem_post f t)"
    and "uio_after s (t\<lparr>g_intSem := v\<rparr>)"
  using assms uio_step_sem [where s = t and v = v] uio_frame.step_called [of Sem_getvalue t f]
    uio_frame.step_called [of Sem_post t f] held_cong [of "called Sem_getvalue f t" t]
    held_cong [of "called Sem_post f t" t]
  by (auto simp: uio_after_def uio_may_def intro: api_step_trans)

text \<open>An update of the interrupt members of one entry, and the handshake with the thread.\<close>

lemma wp_uio_irq_upd:
  fixes s t :: "'e uio_state_scheme"
  assumes t: "uio_after s t" "vec_inv t" "i < vec_size t"
    and f: "\<And>x. fixed_part (f x) = fixed_part x" "\<And>x. is_mmio_opened (f x) = is_mmio_opened x"
      "\<And>x. is_interrupt_opened (f x) = is_interrupt_opened x"
  shows "wp (vec_upd i f) (\<lambda>_ u. uio_after s u \<and> vec_inv u \<and> vec_size u = vec_size t) t"
  by (rule wp_mono [OF wp_irq_upd [OF t(2,3) f]])
    (use t in \<open>auto simp: uio_after_def table_kept_size dest: table_kept_registers
        intro: api_step_trans uio_frame.step_table\<close>,
      simp add: table_kept_def)

lemma wp_uio_wakeup:
  fixes s t :: "'e uio_state_scheme"
  assumes "uio_after s t"
  shows "wp (bnd sem_getvalue (\<lambda>(status, retVal).
     thn (if status = 0 then
            (if retVal \<le> 0 then bnd sem_post (\<lambda>_. ret ()) else ret ())
          else ret ())
         (ret (0::int)))) (\<lambda>r u. uio_after s u \<and> r = 0) t"
  by (simp add: sem_getvalue_def sem_post_def wp_bnd wp_thn wp_ret wp_gets wp_syscall wp_modify)
    (use uio_after_sem assms in blast)

lemma uio_interrupt_known:
  fixes s :: "'e uio_state_scheme"
  assumes inv: "vec_inv s" and i: "0 \<le> r" "r \<le> INT_MAX" "nat r < vec_size s" and r: "valid_handle r (vec_size s)"
  shows "wp (uio_perform (Interrupt r c)) (\<lambda>a t. uio_after s t \<and> irq_answer True a) s"
proof -
  obtain xs where xs: "vec s = Some xs" "nat r < length xs"
    using inv i(3) by (blast elim: vec_inv_Some)
  have "uio_after s s" by (simp add: uio_after_def api_step_refl)
  note start = wp_uio_irq_upd [OF this inv i(3)]
  show ?thesis
  proof (cases c)
    case (Call_register_isr isr ctx)
    have "wp (vec_upd (nat r) (\<lambda>x. x\<lparr>isr_callback := isr\<rparr>)) (\<lambda>_ t. wp (vec_upd (nat r) (\<lambda>x. x\<lparr>isr_context := ctx\<rparr>))
        (\<lambda>_ u. uio_after s u) t) s"
      by (rule wp_mono [OF start], simp_all add: fixed_part_def, rule wp_mono [OF wp_uio_irq_upd [where s = s]])
        (use i in \<open>simp_all add: fixed_part_def\<close>)
    with Call_register_isr r i xs show ?thesis
      by (simp add: fpga_register_isr_def wp_eta wp_ret_eta wp_vec_size wp_vec_at irq_answer_def)
  next
    case Call_disable_interrupt
    have "wp (vec_upd (nat r) (\<lambda>x. x\<lparr>interrupt_enable := False\<rparr>))
        (\<lambda>_ u. uio_after s u) s"
      by (rule wp_mono [OF start]) (simp_all add: fixed_part_def)
    with Call_disable_interrupt r i show ?thesis
      by (simp add: fpga_disable_interrupt_def wp_bnd wp_thn wp_ret_eta wp_vec_size irq_answer_def)
  next
    case Call_enable_interrupt
    have "wp (vec_upd (nat r) (\<lambda>x. x\<lparr>interrupt_enable := True\<rparr>)) (\<lambda>_. wp (bnd sem_getvalue (\<lambda>(status, retVal).
       thn (if status = 0 then
              (if retVal \<le> 0 then bnd sem_post (\<lambda>_. ret ()) else ret ())
            else ret ())
           (ret (0::int)))) (\<lambda>r u. uio_after s u \<and> r = 0)) s"
      by (intro wp_mono [OF start]) (simp_all add: fixed_part_def wp_uio_wakeup)
    with r i have "wp (fpga_enable_interrupt r) (\<lambda>i u. uio_after s u \<and> i = 0) s"
      by (simp add: fpga_enable_interrupt_def wp_bnd [of common_fpga_interface_info_vec_size]
          wp_thn [of "vec_upd _ _"] wp_vec_size)
    then show ?thesis
      unfolding Call_enable_interrupt uio_perform.simps wp_bnd wp_ret_eta
      by (rule wp_mono) (simp add: irq_answer_def)
  qed
qed

lemma uio_interrupt_law:
  fixes s :: "'e uio_state_scheme"
  assumes ok: "uio_ok l s" and r: "- INT_MAX - 1 \<le> r" "r \<le> INT_MAX"
  shows "wp (uio_perform (Interrupt r c)) (\<lambda>a t. uio_after s t \<and> irq_answer (0 \<le> r \<and> nat r < vec_size s) a) s"
proof -
  have inv: "vec_inv s" and n: "vec_size s \<le> 2 ^ 31" using ok by (simp_all add: session_ok_def)
  note known = valid_handle_range [OF r n]
  show ?thesis
  proof (cases "valid_handle r (vec_size s)")
    case True
    with known have "0 \<le> r \<and> nat r < vec_size s" by simp
    with uio_interrupt_known [OF inv _ r(2) _ True] show ?thesis by simp
  next
    case False
    then have "uio_perform (Interrupt r c) s = Ret (Answer_int (-1)) s"
      by (cases c) (simp_all add: run_rules run_invalid_handle)
    then show ?thesis
      using False unfolding known wp_def by (simp add: uio_after_def api_step_refl irq_answer_def)
  qed
qed

text \<open>The platform provides the interface.\<close>

lemma uio_window:
  fixes s :: "'e uio_state_scheme"
  assumes inv: "vec_inv s" and n: "vec_size s \<le> 2 ^ 31" and i: "i < vec_size s"
    and m: "register_space (mem s) (base_address (vec_abs s ! i)) (unat l)"
  shows "window fpga_uio_get_base_address (int i) (base_address (vec_abs s ! i)) l s"
proof -
  from inv i obtain xs where xs: "vec s = Some xs" "i < length xs" "xs ! i = vec_abs s ! i"
    by (rule vec_inv_Some)
  have "size_t_of_int (int i) = i" using i n by simp
  with xs m show ?thesis
    by (intro window_of_entry) (simp_all add: has_info_def info_at_def)
qed

interpretation uio_api: platform_calls uio_rest "\<lambda>r. base_address" uio_direct uio_may uio_perform l "\<lambda>_. True"
  for l
proof unfold_locales
  fix s :: "'a uio_state_scheme" and c
  assume ok: "uio_ok l s" and c: "call_in_range (length (vec_abs s)) l (\<lambda>_. True) c" "\<not> of_table c"
  show "wp (uio_perform c) (\<lambda>a t. api_step uio_rest uio_may s t \<and> call_done (uio_layout s) s c a t) s"
  proof (cases c)
    case (Access r d)
    show ?thesis
      unfolding Access uio_perform.simps
      by (rule uio_frame.access_law [OF ok])
        (use ok c Access in \<open>auto simp: session_ok_def intro: uio_window\<close>)
  next
    case (Interrupt r d)
    then have r: "- INT_MAX - 1 \<le> r" "r \<le> INT_MAX" using c by simp_all
    have "length (vec_abs s) = vec_size s" using ok by (simp add: session_ok_def length_vec_abs)
    then show ?thesis
      unfolding Interrupt
      by (intro uio_frame.quiet_law wp_mono [OF uio_interrupt_law [OF ok r]])
        (simp_all add: uio_after_def)
  qed (use c in simp)
qed simp

end
