(* ===== verification/Devmem_Session.thy ===== *)
theory Devmem_Session
  imports Api_Frame Devmem_Init
begin

text \<open>
  Sessions of an application on the devmem platform.  The platform has no interrupts: their functions
  throw, and a well-behaved application does not call them.
\<close>

fun devmem_perform :: "api_call \<Rightarrow> ('e, api_answer) devmem" where
  "devmem_perform (Table c) = table_perform c"
| "devmem_perform (Access r c) = access_perform fpga_devmem_get_base_address r c"
| "devmem_perform (Interrupt r (Call_register_isr isr ctx)) =
     bnd (fpga_devmem_register_isr r isr ctx) (\<lambda>i. ret (Answer_int i))"
| "devmem_perform (Interrupt r Call_enable_interrupt) =
     bnd (fpga_devmem_enable_interrupt r) (\<lambda>i. ret (Answer_int i))"
| "devmem_perform (Interrupt r Call_disable_interrupt) =
     bnd (fpga_devmem_disable_interrupt r) (\<lambda>i. ret (Answer_int i))"

text \<open>The cleanup needs the descriptor and the map; a session makes no system calls.\<close>

definition devmem_rest :: "'e devmem_state_scheme \<Rightarrow> int \<times> u64 \<times> u64" where
  "devmem_rest s = (s_devmem_drv_handle s, s_devmem_mmap_ptr s, s_devmem_addr_span s)"

abbreviation devmem_ok :: "u32 \<Rightarrow> 'e devmem_state_scheme \<Rightarrow> bool" where
  "devmem_ok \<equiv> session_ok devmem_rest (\<lambda>r. base_address)"

lemma devmem_rest_called [simp]:
  fixes s :: "'e devmem_state_scheme"
  shows "devmem_rest (called c f s) = devmem_rest s"
  by (simp add: devmem_rest_def called_def)

abbreviation devmem_direct :: "read_mode \<Rightarrow> FPGA_INTERFACE_INFO \<Rightarrow> access_call \<Rightarrow> bool" where
  "devmem_direct wd x c \<equiv> True"

abbreviation devmem_layout :: "'e devmem_state_scheme \<Rightarrow> register_map" where
  "devmem_layout \<equiv> layout_of devmem_rest (\<lambda>r. base_address) devmem_direct"

lemma devmem_layout_memory: "devmem_layout s = memory_layout (env_read_mode (env s))"
  by (simp add: layout_of_def memory_layout_def)

interpretation devmem_frame: platform_frame devmem_rest "\<lambda>r. base_address" devmem_direct "\<lambda>c. False"
  by unfold_locales (simp_all add: devmem_rest_def fixed_part_def)

lemma devmem_window:
  fixes s :: "'e devmem_state_scheme"
  assumes inv: "vec_inv s" and n: "vec_size s \<le> 2 ^ 31" and i: "i < vec_size s"
    and m: "register_space (mem s) (base_address (vec_abs s ! i)) (unat l)"
  shows "window fpga_devmem_get_base_address (int i) (base_address (vec_abs s ! i)) l s"
proof -
  from inv i obtain xs where xs: "vec s = Some xs" "i < length xs" "xs ! i = vec_abs s ! i"
    by (rule vec_inv_Some)
  have "size_t_of_int (int i) = i" using i n by simp
  with xs m show ?thesis
    by (intro window_of_entry) (simp_all add: has_info_def info_at_def)
qed

interpretation devmem_api: platform_calls devmem_rest "\<lambda>r. base_address" devmem_direct "\<lambda>c. False"
  devmem_perform l "\<lambda>_. False"
  for l
proof unfold_locales
  fix s :: "'a devmem_state_scheme" and c
  assume ok: "devmem_ok l s" and c: "call_in_range (length (vec_abs s)) l (\<lambda>_. False) c" "\<not> of_table c"
  show "wp (devmem_perform c) (\<lambda>a t. api_step devmem_rest (\<lambda>c. False) s t
      \<and> call_done (devmem_layout s) s c a t) s"
  proof (cases c)
    case (Access r d)
    show ?thesis
      unfolding Access devmem_perform.simps
      by (rule devmem_frame.access_law [OF ok])
        (use ok c Access in \<open>auto simp: session_ok_def intro: devmem_window\<close>)
  qed (use c in simp_all)
qed simp

end
