(* ===== verification/Zephyr_Session.thy ===== *)
theory Zephyr_Session
  imports Api_Frame Zephyr_Init
begin

text \<open>
  Sessions of an application on the Zephyr platform.  The 32-bit access of an interface that does not
  come from a Device Feature List is a call of the syscon driver, and with the emulation so are the
  wider ones; everything else goes through the window of the handle.
\<close>

fun zephyr_access_perform :: "int \<Rightarrow> access_call \<Rightarrow> ('e, api_answer) zephyr" where
  "zephyr_access_perform r (Call_read_8 a) = bnd (fpga_zephyr_read_8 r a) (\<lambda>w. ret (Answer_word (ucast w)))"
| "zephyr_access_perform r (Call_read_16 a) = bnd (fpga_zephyr_read_16 r a) (\<lambda>w. ret (Answer_word (ucast w)))"
| "zephyr_access_perform r (Call_read_32 a) = bnd (fpga_zephyr_read_32 r a) (\<lambda>w. ret (Answer_word (ucast w)))"
| "zephyr_access_perform r (Call_read_64 a) = bnd (fpga_zephyr_read_64 r a) (\<lambda>w. ret (Answer_word w))"
| "zephyr_access_perform r (Call_read_512 a) = bnd (fpga_zephyr_read_512 r a) (\<lambda>bs. ret (Answer_block bs))"
| "zephyr_access_perform r (Call_write_8 a w) = thn (fpga_zephyr_write_8 r a w) (ret Answer_unit)"
| "zephyr_access_perform r (Call_write_16 a w) = thn (fpga_zephyr_write_16 r a w) (ret Answer_unit)"
| "zephyr_access_perform r (Call_write_32 a w) = thn (fpga_zephyr_write_32 r a w) (ret Answer_unit)"
| "zephyr_access_perform r (Call_write_64 a w) = thn (fpga_zephyr_write_64 r a w) (ret Answer_unit)"
| "zephyr_access_perform r (Call_write_512 a bs) = thn (fpga_zephyr_write_512 r a bs) (ret Answer_unit)"

fun zephyr_perform :: "api_call \<Rightarrow> ('e, api_answer) zephyr" where
  "zephyr_perform (Table c) = table_perform c"
| "zephyr_perform (Access r c) = zephyr_access_perform r c"
| "zephyr_perform (Interrupt r (Call_register_isr isr ctx)) =
     bnd (fpga_zephyr_register_isr r isr ctx) (\<lambda>i. ret (Answer_int i))"
| "zephyr_perform (Interrupt r Call_enable_interrupt) =
     bnd (fpga_zephyr_enable_interrupt r) (\<lambda>i. ret (Answer_int i))"
| "zephyr_perform (Interrupt r Call_disable_interrupt) =
     bnd (fpga_zephyr_disable_interrupt r) (\<lambda>i. ret (Answer_int i))"

definition zephyr_rest :: "'e zephyr_state_scheme \<Rightarrow> u64 \<times> bool" where
  "zephyr_rest s = (s_zephyr_dfl_addr s, s_zephyr_dfl_found s)"

fun zephyr_may :: "os_call \<Rightarrow> bool" where
  "zephyr_may (Irq_connect i f x) = True"
| "zephyr_may (Irq_enable i) = True"
| "zephyr_may (Irq_disable i) = True"
| "zephyr_may (Syscon_read d a) = True"
| "zephyr_may (Syscon_write d a w) = True"
| "zephyr_may c = False"

text \<open>The window of an entry starts at its decoded address.\<close>

definition zephyr_addr :: "u64 \<times> bool \<Rightarrow> FPGA_INTERFACE_INFO \<Rightarrow> u64" where
  "zephyr_addr r x = base_address x - fst r"

abbreviation zephyr_ok :: "u32 \<Rightarrow> 'e zephyr_state_scheme \<Rightarrow> bool" where
  "zephyr_ok \<equiv> session_ok zephyr_rest zephyr_addr"

lemma called_zephyr [simp]:
  fixes s :: "'e zephyr_state_scheme"
  shows "s_zephyr_dfl_addr (called c f s) = s_zephyr_dfl_addr s"
    and "s_zephyr_dfl_found (called c f s) = s_zephyr_dfl_found s"
  by (simp_all add: called_def)

text \<open>The accesses that go to memory: all those of an entry of the Device Feature List, and those that
  are not made of 32-bit accesses.\<close>

fun zephyr_direct :: "read_mode \<Rightarrow> FPGA_INTERFACE_INFO \<Rightarrow> access_call \<Rightarrow> bool" where
  "zephyr_direct wd x (Call_read_8 a) = True"
| "zephyr_direct wd x (Call_read_16 a) = True"
| "zephyr_direct wd x (Call_write_8 a w) = True"
| "zephyr_direct wd x (Call_write_16 a w) = True"
| "zephyr_direct wd x (Call_read_32 a) = dfl x"
| "zephyr_direct wd x (Call_write_32 a w) = dfl x"
| "zephyr_direct wd x c = (dfl x \<or> wd \<noteq> Emulated_32)"

abbreviation zephyr_layout :: "'e zephyr_state_scheme \<Rightarrow> register_map" where
  "zephyr_layout \<equiv> layout_of zephyr_rest zephyr_addr zephyr_direct"

text \<open>The same from the decoder's address and the width of the CPU.\<close>

definition decoded_layout :: "u64 \<Rightarrow> read_mode \<Rightarrow> register_map" where
  "decoded_layout d wd =
     \<lparr>placement = (\<lambda>x c. if zephyr_direct wd x c then Some (base_address x - d) else None), access_width = wd\<rparr>"

lemma zephyr_layout_decoded: "zephyr_layout s = decoded_layout (s_zephyr_dfl_addr s) (env_read_mode (env s))"
  by (auto simp: layout_of_def decoded_layout_def zephyr_addr_def zephyr_rest_def fun_eq_iff)

lemma zephyr_direct_fixed: "zephyr_direct wd (fixed_part x) c = zephyr_direct wd x c"
  by (cases c) (simp_all add: fixed_part_def)

interpretation zephyr_frame: platform_frame zephyr_rest zephyr_addr zephyr_direct zephyr_may
  by unfold_locales (simp_all add: zephyr_rest_def zephyr_addr_def zephyr_direct_fixed,
    simp add: fixed_part_def)

section \<open>Accesses of memory\<close>

text \<open>An entry whose 64-bit accesses go to memory.\<close>

definition in_memory :: "int \<Rightarrow> u64 \<Rightarrow> u32 \<Rightarrow> 'e zephyr_state_scheme \<Rightarrow> bool" where
  "in_memory r b l s \<longleftrightarrow> window fpga_zephyr_get_base_address r b l s
     \<and> (env_read_mode (env s) = Emulated_32 \<longrightarrow> zephyr_window r b l s)"

lemma in_memory_update:
  assumes "in_memory r b l s" and "register_space m b (unat l)"
  shows "in_memory r b l (s\<lparr>mem := m, bus := ev\<rparr>)"
  using assms window_update [of fpga_zephyr_get_base_address r b l s m ev]
    zephyr_window_cong [of r b l s m ev]
  by (simp add: in_memory_def)

lemma in_memory_mapped: "in_memory r b l s \<Longrightarrow> register_space (mem s) b (unat l)"
  by (simp add: in_memory_def window_def)

lemma run_memory_64:
  assumes "in_memory r b l s" and "unat a + 8 \<le> unat l" and "8 dvd unat a"
  shows "fpga_zephyr_read_64 r a s =
      Ret (port_word b s a) (s\<lparr>bus := bus s @ read_events (env_read_mode (env s)) (b + ucast a)\<rparr>)"
    and "fpga_zephyr_write_64 r a v s =
      Ret () (s\<lparr>mem := store_bytes (mem s) (b + ucast a) (bytes_le 8 v),
        bus := bus s @ write_events (env_read_mode (env s)) (b + ucast a) v\<rparr>)"
proof -
  have w: "window fpga_zephyr_get_base_address r b l s" using assms(1) by (simp add: in_memory_def)
  note base = run_read_64 [OF w assms(2,3)] run_write_64 [OF w assms(2,3)]
  have same: "fpga_zephyr_read_64 r a s = fpga_read_64 fpga_zephyr_get_base_address
        (fpga_read_32 fpga_zephyr_get_base_address) r a s
    \<and> fpga_zephyr_write_64 r a v s = fpga_write_64 fpga_zephyr_get_base_address
        (fpga_write_32 fpga_zephyr_get_base_address) r a v s"
  proof (cases "env_read_mode (env s) = Emulated_32")
    case True
    with assms(1) have "zephyr_window r b l s" by (simp add: in_memory_def)
    with zephyr_64 [OF this assms(2,3)] show ?thesis by (simp add: zephyr_access)
  next
    case False
    then show ?thesis
      by (simp add: zephyr_access fpga_read_64_def fpga_write_64_def run_rules)
  qed
  show "fpga_zephyr_read_64 r a s =
      Ret (port_word b s a) (s\<lparr>bus := bus s @ read_events (env_read_mode (env s)) (b + ucast a)\<rparr>)"
    using same base by simp
  show "fpga_zephyr_write_64 r a v s =
      Ret () (s\<lparr>mem := store_bytes (mem s) (b + ucast a) (bytes_le 8 v),
        bus := bus s @ write_events (env_read_mode (env s)) (b + ucast a) v\<rparr>)"
    using same base by simp
qed

lemma run_memory_512:
  fixes s :: "'e zephyr_state_scheme"
  assumes m: "in_memory r b l s" and a: "unat a + 64 \<le> unat l" and d: "8 dvd unat a"
  shows "fpga_zephyr_read_512 r a s =
      fpga_read_512 (fpga_read_64 fpga_zephyr_get_base_address (fpga_read_32 fpga_zephyr_get_base_address) r) a s"
    and "64 \<le> length bs \<Longrightarrow> fpga_zephyr_write_512 r a bs s =
      fpga_write_512 (fpga_write_64 fpga_zephyr_get_base_address (fpga_write_32 fpga_zephyr_get_base_address) r) a bs s"
proof -
  let ?I = "\<lambda>t :: 'e zephyr_state_scheme. in_memory r b l t \<and> env t = env s" and ?wd = "env_read_mode (env s)"
  have w: "window fpga_zephyr_get_base_address r b l s" using m by (simp add: in_memory_def)
  have I: "?I (t\<lparr>bus := ev\<rparr>)" "?I (t\<lparr>mem := store_bytes (mem t) x ys, bus := ev\<rparr>)"
    if "?I t" for t :: "'e zephyr_state_scheme" and ev x ys
    using that in_memory_update [of r b l t "mem t" ev] in_memory_mapped [of r b l t] register_space_store
      in_memory_update [of r b l t "store_bytes (mem t) x ys" ev] by simp_all
  have map: "mapped (mem t) b (unat l)" if "?I t" for t using that in_memory_mapped register_space_def by blast
  have a8: "unat a + 8 * 8 \<le> unat l" using a by simp
  have rd: "read_512_loop 8 (fpga_zephyr_read_64 r) a s = Ret (bytes_of (mem s) (b + ucast a) (8 * 8))
      (s\<lparr>bus := bus s @ concat (map (\<lambda>j. read_events ?wd (b + ucast a + of_nat (8 * j))) [0..<8])\<rparr>)"
    by (rule run_read_512_loop [where I = ?I and l = l])
      (use m a8 d I(1) map in \<open>simp_all add: run_memory_64 [of r b l]\<close>)
  then show "fpga_zephyr_read_512 r a s =
      fpga_read_512 (fpga_read_64 fpga_zephyr_get_base_address (fpga_read_32 fpga_zephyr_get_base_address) r) a s"
    using run_window_512(1) [OF w a8 d] by (simp add: fpga_zephyr_read_512_def fpga_read_512_def)
  assume "64 \<le> length bs"
  then have len: "8 * 8 \<le> length bs" by simp
  have "write_512_loop 8 (fpga_zephyr_write_64 r) a bs s =
      Ret () (s\<lparr>mem := store_bytes (mem s) (b + ucast a) (take (8 * 8) bs), bus := bus s @
        concat (map (\<lambda>j. write_events ?wd (b + ucast a + of_nat (8 * j)) (block_word bs j)) [0..<8])\<rparr>)"
    by (rule run_write_512_loop [where I = ?I and l = l])
      (use m a8 d len I(2) in \<open>simp_all add: run_memory_64 [of r b l]\<close>)
  then show "fpga_zephyr_write_512 r a bs s =
      fpga_write_512 (fpga_write_64 fpga_zephyr_get_base_address (fpga_write_32 fpga_zephyr_get_base_address) r) a bs s"
    using run_window_512(2) [OF w a8 d len] by (simp add: fpga_zephyr_write_512_def fpga_write_512_def)
qed

text \<open>An access that goes to memory is the one of the other platforms, on the decoded base.\<close>

lemma zephyr_memory_access:
  assumes w: "window fpga_zephyr_get_base_address r b l s" and info: "has_info s (size_t_of_int r)"
    and fits: "access_fits l c"
    and d: "zephyr_direct (env_read_mode (env s)) (info_at s (size_t_of_int r)) c"
  shows "zephyr_access_perform r c s = access_perform fpga_zephyr_get_base_address r c s"
proof -
  have m: "in_memory r b l s" if "dfl (info_at s (size_t_of_int r)) \<or> env_read_mode (env s) \<noteq> Emulated_32"
    using that w info by (auto simp: in_memory_def zephyr_window_def)
  have z: "zephyr_window r b l s" if "dfl (info_at s (size_t_of_int r))"
    using that w info by (simp add: zephyr_window_def)
  show ?thesis
    using fits d m z
    by (cases c) (simp_all add: run_rules zephyr_32 run_memory_64 run_memory_512 run_read_64 [OF w]
        run_write_64 [OF w] fpga_zephyr_read_8_def fpga_zephyr_read_16_def
        fpga_zephyr_write_8_def fpga_zephyr_write_16_def)
qed

section \<open>Accesses of the syscon driver\<close>

text \<open>What a call that changes no register and no claim does.\<close>

definition zephyr_after :: "'e zephyr_state_scheme \<Rightarrow> 'e zephyr_state_scheme \<Rightarrow> bool" where
  "zephyr_after s t \<longleftrightarrow> api_step zephyr_rest zephyr_may s t \<and> held t = held s \<and> mem t = mem s \<and> bus t = bus s"

lemma zephyr_after_refl: "zephyr_after s s"
  by (simp add: zephyr_after_def api_step_refl)

lemma zephyr_after_trans: "zephyr_after s t \<Longrightarrow> zephyr_after t u \<Longrightarrow> zephyr_after s u"
  by (auto simp: zephyr_after_def intro: api_step_trans)

lemma zephyr_after_called: "zephyr_may c \<Longrightarrow> zephyr_after s (called c f s)"
  using zephyr_frame.step_called [of c s f] held_cong [of "called c f s" s]
    vec_cong(2) [of "called c f s" s] by (simp add: zephyr_after_def)

definition driven :: "int \<Rightarrow> 'e zephyr_state_scheme \<Rightarrow> bool" where
  "driven r s \<longleftrightarrow> has_info s (size_t_of_int r) \<and> \<not> dfl (info_at s (size_t_of_int r))"

abbreviation driven_step :: "int \<Rightarrow> 'e zephyr_state_scheme \<Rightarrow> 'e zephyr_state_scheme \<Rightarrow> bool" where
  "driven_step r s t \<equiv> (driven r t \<and> env t = env s) \<and> zephyr_after s t"

lemma driven_called: "driven r s \<Longrightarrow> zephyr_may c \<Longrightarrow> driven_step r s (called c f s)"
  by (simp add: driven_def has_info_def info_at_def zephyr_after_called)

lemma wp_driven_32:
  fixes s :: "'e zephyr_state_scheme"
  assumes d: "driven r s"
  shows "wp (fpga_zephyr_read_32 r a) (\<lambda>_. driven_step r s) s"
    and "wp (fpga_zephyr_write_32 r a w) (\<lambda>_. driven_step r s) s"
proof -
  have at: "wp (common_fpga_interface_info_vec_at (size_t_of_int r)) Q s
      = Q (info_at s (size_t_of_int r)) s" for Q
    using d by (auto simp: wp_vec_at driven_def has_info_def info_at_def split: option.splits)
  show "wp (fpga_zephyr_read_32 r a) (\<lambda>_. driven_step r s) s"
    "wp (fpga_zephyr_write_32 r a w) (\<lambda>_. driven_step r s) s"
    using d driven_called [OF d]
    by (simp_all add: fpga_zephyr_read_32_def fpga_zephyr_write_32_def wp_eta at driven_def wp_gets
        wp_syscall wp_syscall_ignored wp_ret_eta)
qed

lemma wp_driven_64:
  fixes s :: "'e zephyr_state_scheme"
  assumes d: "driven r s" and md: "env_read_mode (env s) = Emulated_32"
  shows "wp (fpga_zephyr_read_64 r a) (\<lambda>_. driven_step r s) s"
    and "wp (fpga_zephyr_write_64 r a w) (\<lambda>_. driven_step r s) s"
proof -
  have rd: "wp (fpga_zephyr_read_32 r x) (\<lambda>_. driven_step r s) t"
    and wr: "wp (fpga_zephyr_write_32 r x v) (\<lambda>_. driven_step r s) t" if "driven_step r s t" for t x v
    using that by (auto intro!: wp_mono [OF wp_driven_32(1)] wp_mono [OF wp_driven_32(2)]
        intro: zephyr_after_trans)
  have here: "driven_step r s s" using d by (simp add: zephyr_after_refl)
  show "wp (fpga_zephyr_read_64 r a) (\<lambda>_. driven_step r s) s"
    unfolding fpga_zephyr_read_64_def fpga_read_64_def wp_bnd wp_gets md
    using wp_mono [OF rd [OF here] rd] by (simp add: wp_eta wp_ret_eta)
  show "wp (fpga_zephyr_write_64 r a w) (\<lambda>_. driven_step r s) s"
    unfolding fpga_zephyr_write_64_def fpga_write_64_def wp_bnd wp_gets md
    using wp_mono [OF wr [OF here] wr] by (simp add: wp_eta)
qed

lemma wp_driven_access:
  fixes s :: "'e zephyr_state_scheme"
  assumes d: "driven r s" and fits: "access_fits l c"
    and n: "\<not> zephyr_direct (env_read_mode (env s)) (info_at s (size_t_of_int r)) c"
  shows "wp (zephyr_access_perform r c) (\<lambda>_. driven_step r s) s"
proof -
  let ?I = "\<lambda>t. driven r t \<and> env t = env s"
  note rd = wp_read_512_loop [where I = ?I and l = l and R = zephyr_after and rd = "fpga_zephyr_read_64 r"]
    and wr = wp_write_512_loop [where I = ?I and l = l and R = zephyr_after and wr = "fpga_zephyr_write_64 r"]
  have rd512: "wp (read_512_loop 8 (fpga_zephyr_read_64 r) a) (\<lambda>_. driven_step r s) s"
    if "unat a + 64 \<le> unat l" "env_read_mode (env s) = Emulated_32" for a
    by (rule rd) (use that d wp_driven_64(1) zephyr_after_refl zephyr_after_trans in \<open>force\<close>)+
  have wr512: "wp (write_512_loop 8 (fpga_zephyr_write_64 r) a bs) (\<lambda>_. driven_step r s) s"
    if "unat a + 64 \<le> unat l" "64 \<le> length bs" "env_read_mode (env s) = Emulated_32" for a bs
    by (rule wr) (use that d wp_driven_64(2) zephyr_after_refl zephyr_after_trans in \<open>force\<close>)+
  show ?thesis
    using n fits wp_driven_32 [OF d] wp_driven_64 [OF d] rd512 wr512
    by (cases c) (simp_all add: wp_eta wp_ret_eta fpga_zephyr_read_512_def fpga_read_512_def
        fpga_zephyr_write_512_def fpga_write_512_def)
qed

section \<open>The interface\<close>

lemma wp_zephyr_irq_upd:
  fixes s t :: "'e zephyr_state_scheme"
  assumes t: "zephyr_after s t" "vec_inv t" "i < vec_size t"
    and f: "\<And>x. fixed_part (f x) = fixed_part x" "\<And>x. is_mmio_opened (f x) = is_mmio_opened x"
      "\<And>x. is_interrupt_opened (f x) = is_interrupt_opened x"
  shows "wp (vec_upd i f) (\<lambda>_ u. zephyr_after s u \<and> vec_inv u \<and> vec_size u = vec_size t) t"
  by (rule wp_mono [OF wp_irq_upd [OF t(2,3) f]])
    (use t in \<open>auto simp: zephyr_after_def table_kept_size dest: table_kept_registers
        intro: api_step_trans zephyr_frame.step_table\<close>,
      simp add: table_kept_def)

text \<open>The enable flag is set after the kernel has been called.\<close>

lemma wp_zephyr_flag:
  fixes s :: "'e zephyr_state_scheme"
  assumes inv: "vec_inv s" and i: "i < vec_size s" and c: "zephyr_may c"
  shows "wp (vec_upd i (\<lambda>x. x\<lparr>interrupt_enable := b\<rparr>)) (\<lambda>_. zephyr_after s) (called c f s)"
proof (rule wp_mono [OF wp_zephyr_irq_upd [where s = s]])
  show "zephyr_after s (called c f s)" using c by (rule zephyr_after_called)
  show "vec_inv (called c f s)" using inv vec_cong [of "called c f s" s] by simp
qed (use i in \<open>simp_all add: fixed_part_def\<close>)

lemma zephyr_interrupt_known:
  fixes s :: "'e zephyr_state_scheme"
  assumes inv: "vec_inv s" and i: "0 \<le> r" "r \<le> INT_MAX" "nat r < vec_size s" and r: "valid_handle r (vec_size s)"
  shows "wp (zephyr_perform (Interrupt r c)) (\<lambda>a t. zephyr_after s t \<and> irq_answer True a) s"
proof -
  obtain xs where xs: "vec s = Some xs" "nat r < length xs"
    using inv i(3) by (blast elim: vec_inv_Some)
  note start = wp_zephyr_irq_upd [OF zephyr_after_refl inv i(3)]
  have after: "zephyr_after s (called c f t)" if "zephyr_after s t" "zephyr_may c" for c f t
    using that zephyr_after_called [of c t f] zephyr_after_trans by blast
  show ?thesis
  proof (cases c)
    case (Call_register_isr isr ctx)
    have "wp (vec_upd (nat r) (\<lambda>x. x\<lparr>isr_callback := isr\<rparr>)) (\<lambda>_. wp (vec_upd (nat r) (\<lambda>x. x\<lparr>isr_context := ctx\<rparr>))
        (\<lambda>_ u. zephyr_after s u \<and> vec_inv u \<and> vec_size u = vec_size s)) s"
      by (rule wp_mono [OF start], simp_all add: fixed_part_def, rule wp_mono [OF wp_zephyr_irq_upd [where s = s]])
        (use i in \<open>simp_all add: fixed_part_def\<close>)
    then have "wp (vec_upd (nat r) (\<lambda>x. x\<lparr>isr_callback := isr\<rparr>)) (\<lambda>_. wp (vec_upd (nat r) (\<lambda>x. x\<lparr>isr_context := ctx\<rparr>))
        (\<lambda>_. wp (syscall_ignored (Irq_connect j isr ctx)) (\<lambda>_. zephyr_after s))) s" for j
      by (auto simp: wp_syscall_ignored intro!: after elim!: wp_mono)
    with Call_register_isr r i xs show ?thesis
      by (simp add: fpga_zephyr_register_isr_def wp_eta wp_ret_eta wp_vec_size wp_vec_at zephyr_after_refl
          wp_syscall_ignored irq_answer_def)
  qed (use r i xs wp_zephyr_flag [OF inv i(3)] in
      \<open>simp_all add: fpga_zephyr_enable_interrupt_def fpga_zephyr_disable_interrupt_def wp_eta wp_ret_eta
        wp_vec_size wp_vec_at zephyr_after_refl wp_syscall_ignored irq_answer_def\<close>)
qed

lemma zephyr_interrupt_law:
  fixes s :: "'e zephyr_state_scheme"
  assumes ok: "zephyr_ok l s" and r: "- INT_MAX - 1 \<le> r" "r \<le> INT_MAX"
  shows "wp (zephyr_perform (Interrupt r c)) (\<lambda>a t. zephyr_after s t \<and> irq_answer (0 \<le> r \<and> nat r < vec_size s) a) s"
proof -
  have inv: "vec_inv s" and n: "vec_size s \<le> 2 ^ 31" using ok by (simp_all add: session_ok_def)
  note known = valid_handle_range [OF r n]
  show ?thesis
  proof (cases "valid_handle r (vec_size s)")
    case True
    with known have "0 \<le> r \<and> nat r < vec_size s" by simp
    with zephyr_interrupt_known [OF inv _ r(2) _ True] show ?thesis by simp
  next
    case False
    then have "zephyr_perform (Interrupt r c) s = Ret (Answer_int (-1)) s"
      by (cases c) (simp_all add: fpga_zephyr_register_isr_def fpga_zephyr_enable_interrupt_def
          fpga_zephyr_disable_interrupt_def common_fpga_interface_info_vec_size_def run_rules)
    then show ?thesis
      using False unfolding known wp_def by (simp add: zephyr_after_refl irq_answer_def)
  qed
qed

lemma zephyr_base_window:
  fixes s :: "'e zephyr_state_scheme"
  assumes inv: "vec_inv s" and n: "vec_size s \<le> 2 ^ 31" and i: "i < vec_size s"
    and m: "register_space (mem s) (zephyr_addr (zephyr_rest s) (vec_abs s ! i)) (unat l)"
  shows "window fpga_zephyr_get_base_address (int i) (zephyr_addr (zephyr_rest s) (vec_abs s ! i)) l s"
    and "has_info s (size_t_of_int (int i))" and "info_at s (size_t_of_int (int i)) = vec_abs s ! i"
proof -
  from inv i obtain xs where xs: "vec s = Some xs" "i < length xs" "xs ! i = vec_abs s ! i"
    by (rule vec_inv_Some)
  have "size_t_of_int (int i) = i" using i n by simp
  with xs show info: "has_info s (size_t_of_int (int i))"
    "info_at s (size_t_of_int (int i)) = vec_abs s ! i"
    by (simp_all add: has_info_def info_at_def)
  with m show "window fpga_zephyr_get_base_address (int i) (zephyr_addr (zephyr_rest s) (vec_abs s ! i)) l s"
    by (auto simp: window_def fpga_zephyr_get_base_address_def run_rules zephyr_addr_def zephyr_rest_def
      zephyr_dfl_base_addr_decoder_def common_fpga_interface_info_vec_at_def has_info_def info_at_def
      split: option.splits)
qed

lemma zephyr_access_law:
  fixes s :: "'e zephyr_state_scheme"
  assumes ok: "zephyr_ok l s" and r: "0 \<le> r" "nat r < length (vec_abs s)" "access_fits l c"
  shows "wp (zephyr_access_perform r c) (\<lambda>a t. api_step zephyr_rest zephyr_may s t
      \<and> call_done (zephyr_layout s) s (Access r c) a t) s"
proof -
  have inv: "vec_inv s" "vec_size s \<le> 2 ^ 31" using ok by (simp_all add: session_ok_def)
  have i: "nat r < vec_size s" "int (nat r) = r" using r inv by (simp_all add: length_vec_abs)
  have "vec_abs s ! nat r \<in> set (vec_abs s)" using r(2) by simp
  then have "register_space (mem s) (zephyr_addr (zephyr_rest s) (vec_abs s ! nat r)) (unat l)"
    using ok by (simp add: session_ok_def)
  note base = zephyr_base_window [OF inv i(1) this, unfolded i(2)]
  show ?thesis
  proof (cases "zephyr_direct (env_read_mode (env s)) (vec_abs s ! nat r) c")
    case True
    then have "zephyr_direct (env_read_mode (env s)) (info_at s (size_t_of_int r)) c"
      using base(3) by simp
    from zephyr_memory_access [OF base(1,2) r(3) this]
      zephyr_frame.access_law [OF ok r zephyr_base_window(1) [OF inv] True]
    show ?thesis by (simp add: wp_def)
  next
    case False
    have "driven r s" using False base(2,3) by (cases c) (simp_all add: driven_def)
    from wp_driven_access [OF this r(3)] False base(3) show ?thesis
      by (intro zephyr_frame.driver_law [OF False]) (auto simp: zephyr_after_def elim!: wp_mono)
  qed
qed

interpretation zephyr_api: platform_calls zephyr_rest zephyr_addr zephyr_direct zephyr_may zephyr_perform l "\<lambda>_. True"
  for l
proof unfold_locales
  fix s :: "'a zephyr_state_scheme" and c
  assume ok: "zephyr_ok l s" and c: "call_in_range (length (vec_abs s)) l (\<lambda>_. True) c" "\<not> of_table c"
  show "wp (zephyr_perform c) (\<lambda>a t. api_step zephyr_rest zephyr_may s t \<and> call_done (zephyr_layout s) s c a t) s"
  proof (cases c)
    case (Access r d)
    with c zephyr_access_law [OF ok] show ?thesis by simp
  next
    case (Interrupt r d)
    then have r: "- INT_MAX - 1 \<le> r" "r \<le> INT_MAX" using c by simp_all
    have "length (vec_abs s) = vec_size s" using ok by (simp add: session_ok_def length_vec_abs)
    then show ?thesis
      unfolding Interrupt
      by (intro zephyr_frame.quiet_law wp_mono [OF zephyr_interrupt_law [OF ok r]])
        (simp_all add: zephyr_after_def)
  qed (use c in simp)
qed simp

end
