(* ===== verification/Session_Properties.thy ===== *)
theory Session_Properties
  imports Uio_Session Devmem_Session Zephyr_Session Uio_Properties Show_Properties Zephyr_Properties
begin

text \<open>
  The life of an application, from the initialisation of its platform to the cleanup, for the three
  platforms.  The application is any function from the calls it has made and their answers to its
  next call, that keeps to the handles it was given and to the windows.
\<close>

section \<open>UIO\<close>



text \<open>An application for the witnesses: it opens the first interface, writes a register and reads it back.\<close>

definition demo_client :: client where
  "demo_client h =
     (if h = [] then Some (Table (Call_open 0))
      else if given_handle h 0 \<and> length h = 1 then Some (Access 0 (Call_write_64 8 42))
      else if given_handle h 0 \<and> length h = 2 then Some (Access 0 (Call_read_64 8))
      else None)"

definition demo_history :: history where
  "demo_history = [(Table (Call_open 0), Answer_int 0), (Access 0 (Call_write_64 8 42), Answer_unit),
     (Access 0 (Call_read_64 8), Answer_word 42)]"

lemma demo_client_behaves: "well_behaved 64 irqs demo_client"
  by (auto simp: well_behaved_def demo_client_def split: if_splits)

text \<open>The abstract machine leaves it one history.\<close>

lemma demo_played:
  assumes "played demo_client 4 h" and "history_ok xs W (({}, {}), m) h" and "xs \<noteq> []"
    and "placement W (xs ! 0) (Call_write_64 8 42) = Some b" and "placement W (xs ! 0) (Call_read_64 8) = Some b"
  shows "h = demo_history"
proof -
  let ?open = "(Table (Call_open 0), Answer_int 0)"
  have given: "given_handle (?open # g) 0" for g by (simp add: given_handle_def INVALID_HANDLE_def)
  have n: "played demo_client (Suc (Suc (Suc (Suc 0)))) h" using assms(1) by (simp add: eval_nat_numeral)
  then obtain a0 h0 where h: "h = (Table (Call_open 0), a0) # h0"
    by (cases h) (auto simp: demo_client_def)
  have "a0 = Answer_int 0" using assms(2,3) h by simp
  note h = h [unfolded this]
  with n given obtain a1 h1 where h1: "h0 = (Access 0 (Call_write_64 8 42), a1) # h1"
    by (cases h0) (auto simp: demo_client_def)
  have "a1 = Answer_unit" using assms(2,4) h h1 by simp
  note h1 = h1 [unfolded this]
  with n h given obtain a2 h2 where h2: "h1 = (Access 0 (Call_read_64 8), a2) # h2"
    by (cases h1) (auto simp: demo_client_def)
  have "a2 = Answer_word 42"
    using assms(2,4,5) h h1 h2 read_back(4) [of 8 m b 42] by (simp add: next_machine_def)
  moreover have "h2 = []" using n h h1 h2 by (cases h2) (auto simp: demo_client_def)
  ultimately show ?thesis by (simp add: demo_history_def h h1 h2)
qed

lemma demo_played_memory:
  assumes "played demo_client 4 h" and "history_ok xs (memory_layout wd) (({}, {}), m) h" and "xs \<noteq> []"
  shows "h = demo_history"
  by (rule demo_played [OF assms]) (simp_all add: memory_layout_def)

lemma demo_played_decoded:
  assumes "played demo_client 4 h" and "history_ok xs (decoded_layout d wd) (({}, {}), m) h" and "xs \<noteq> []"
    and "wd \<noteq> Emulated_32"
  shows "h = demo_history"
  by (rule demo_played [OF assms(1-3)]) (use assms(4) in \<open>simp_all add: decoded_layout_def\<close>)


section \<open>Devmem\<close>

lemma no_claims:
  assumes "vec_inv s" and "\<forall>x \<in> set (vec_abs s). \<not> is_mmio_opened x \<and> \<not> is_interrupt_opened x"
  shows "held s = ({}, {})"
  using assms by (auto simp: held_def mmio_held_def interrupt_held_def length_vec_abs [symmetric])

lemma no_claims_rows: "x \<in> set (rows a t) \<Longrightarrow> \<not> is_mmio_opened x \<and> \<not> is_interrupt_opened x"
  by (rule rows_all [where P = "\<lambda>x. \<not> is_mmio_opened x \<and> \<not> is_interrupt_opened x"])
    (simp_all add: row_def params_result_def with_params_def interface_of_def)

text \<open>C4: A whole life on the devmem platform, in DFL mode: initialisation, an arbitrary application that
  keeps to its handles and to aligned offsets inside the windows of the listed interfaces, cleanup.  The run ends without
  undefined behaviour; the calls made are those the application chose, and every answer is the one of
  the abstract machine whose interfaces are those of the list and whose registers are memory, so a
  lookup reads the row of its index, a claim succeeds exactly once, and a read sees the writes before
  it; the application causes no system call; the cleanup gives the map and the descriptor back and
  frees every block.\<close>

theorem devmem_session:
  assumes "devmem_parse_args args s = Ret () s1" and "can_print s1" and "devmem_config_ok s1"
    and "s_devmem_single_component_mode s1 = 0" and "devmem_resources path fd p s1" and "0 \<le> fd"
    and "scan_ready s1"
    and "a = p + (s_devmem_dfl_entry_addr s1 - s_devmem_start_addr s1)
               + (s_devmem_start_addr s1 AND NOT MASK_4K_ADDR)"
    and "dfl_at (dfl_view s1) a x" and "tree_fits x" and "fuel_level x \<le> fuel"
    and "\<forall>y \<in> set (rows a x). register_space (mem s1) (base_address y) (unat l)"
    and "well_behaved l (\<lambda>_. False) client"
  shows "wp (bnd (fpga_devmem_platform_init fuel args) (\<lambda>r.
        bnd (run_client devmem_perform k client []) (\<lambda>h.
        thn fpga_devmem_platform_cleanup (ret (r, h)))))
    (\<lambda>(r, h) t. r \<and> devmem_cleaned t \<and> live t = live s1 - vec_blocks s1
       \<and> history_ok (rows a x) (memory_layout (env_read_mode (env s1))) (({}, {}), mem s1) h \<and> played client k h
       \<and> os_calls t = os_calls s1 @ devmem_map_calls path fd s1
           @ [Munmap p (s_devmem_addr_span s1), Close fd]) s" (is "wp _ ?Q s")
  unfolding wp_bnd
proof (rule wp_devmem_init [OF assms(1,2)])
  fix t
  assume t: "more_messages s1 t"
  note f = more_messagesD [OF t]
  have c: "can_print t" "devmem_resources path fd p t" "s_devmem_single_component_mode t = 0"
    "scan_ready t" "a = p + (s_devmem_dfl_entry_addr t - s_devmem_start_addr t)
               + (s_devmem_start_addr t AND NOT MASK_4K_ADDR)" "dfl_at (dfl_view t) a x"
    and vb: "vec_blocks t = vec_blocks s1"
    using assms f vec_cong [of t s1] dfl_view_cong [of t s1]
    by (simp_all add: devmem_resources_def allocs_ok_def scan_ready_def)
  show "wp (devmem_bring_up fuel) (\<lambda>r. wp (run_client devmem_perform k client [])
      (\<lambda>h. wp (thn fpga_devmem_platform_cleanup (ret (r, h))) ?Q)) t"
  proof (rule wp_mono [OF wp_devmem_dfl [OF c(2,1,3-6) assms(10,11)]])
    fix r and u :: "'a devmem_state_scheme"
    assume u: "r \<and> vec_inv u \<and> vec_abs u = rows a x
      \<and> live u - vec_blocks u = live t - vec_blocks t
      \<and> os_calls u = os_calls t @ devmem_map_calls path fd t
      \<and> can_print u \<and> s_devmem_drv_handle u = fd \<and> s_devmem_mmap_ptr u = p
      \<and> g_common_fpga_platform_printf u = g_common_fpga_platform_printf t
      \<and> s_devmem_addr_span u = s_devmem_addr_span t \<and> mem u = mem t \<and> env u = env t"
    have n: "0 < vec_size u" "vec_size u \<le> 2 ^ 31"
      using u assms(10) size_level_pos [of x] length_vec_abs [of u]
      by (simp_all add: tree_fits_def rows_def length_rows)
    have ok: "devmem_ok l u" using u n assms(12) f by (simp add: session_ok_def)
    have claims: "held u = ({}, {})"
      by (rule no_claims) (use u no_claims_rows in auto)
    have start: "machine_of u = (({}, {}), mem s1)"
      "devmem_layout u = memory_layout (env_read_mode (env s1))"
      using u f claims by (simp_all add: machine_of_def devmem_layout_memory)
    show "wp (run_client devmem_perform k client []) (\<lambda>h. wp (thn fpga_devmem_platform_cleanup (ret (r, h))) ?Q) u"
    proof (rule wp_mono [OF devmem_api.answers [OF ok assms(13)]])
      fix h and v :: "'a devmem_state_scheme"
      assume v: "devmem_ok l v \<and> api_step devmem_rest (\<lambda>c. False) u v
        \<and> history_ok (vec_abs u) (devmem_layout u) (machine_of u) h \<and> played client k h"
      then have "os_calls v = os_calls u" by (auto simp: api_step_def list_all_iff)
      with v u n have g: "table_tight v" "can_print v" "s_devmem_drv_handle v = fd" "s_devmem_mmap_ptr v = p"
        "s_devmem_addr_span v = s_devmem_addr_span t" "os_calls v = os_calls u"
        "live v - vec_blocks v = live s1 - vec_blocks s1"
        using f vb by (auto simp: table_tight_def session_ok_def api_step_def devmem_rest_def)
      show "wp (thn fpga_devmem_platform_cleanup (ret (r, h))) ?Q v"
        unfolding wp_thn wp_ret_eta
        by (rule wp_mono [OF wp_devmem_cleanup [OF g(2,1)]])
          (use u v f g start assms(6) in \<open>auto simp: devmem_map_calls_def\<close>)
    qed
  qed
qed (use assms(3) in simp)

lemma demo_bases:
  assumes "x \<in> set (rows 0x1000 demo_tree)"
  shows "8 dvd unat (base_address x)" and "8 dvd unat (base_address x - 0x1000)"
proof -
  have "base_address x \<in> set (map base_address (rows 0x1000 demo_tree))" using assms by simp
  then show "8 dvd unat (base_address x)" and "8 dvd unat (base_address x - 0x1000)"
    unfolding demo_rows(1) by auto
qed

lemma demo_some: "rows 0x1000 demo_tree \<noteq> []"
  using arg_cong [OF demo_rows(1), of length] by auto

lemma devmem_session_witness:
  "wp (bnd (fpga_devmem_platform_init 5
          [''-s'', show_nat 0x1000, ''-a'', show_nat 0x1000, ''-w'', show_nat 0x1000]) (\<lambda>r.
        bnd (run_client devmem_perform 4 demo_client []) (\<lambda>h.
        thn fpga_devmem_platform_cleanup (ret (r, h)))))
    (\<lambda>(r, h) t. r \<and> live t = 0 \<and> h = demo_history)
    ((devmem_process (table_read demo_words) demo_os)\<lparr>mem := (\<lambda>a. Some 0)\<rparr>)"
proof -
  let ?s = "(devmem_process (table_read demo_words) demo_os)\<lparr>mem := (\<lambda>a. Some 0)\<rparr>"
  let ?s1 = "?s\<lparr>s_devmem_addr_span := 0x1000, s_devmem_start_addr := 0x1000,
         s_devmem_dfl_entry_addr := 0x1000, s_devmem_single_component_mode := 0\<rparr>"
  have "devmem_parse_args [''-s'', show_nat 0x1000, ''-a'', show_nat 0x1000, ''-w'', show_nat 0x1000] ?s
      = Ret () (?s\<lparr>s_devmem_addr_span := of_nat 0x1000, s_devmem_start_addr := of_nat 0x1000,
         s_devmem_dfl_entry_addr := of_nat 0x1000, s_devmem_single_component_mode := 0\<rparr>)"
    by (rule devmem_parse_three) (simp_all add: devmem_process_def LONG_MAX_def ERANGE_def can_print_def)
  then have p: "devmem_parse_args
      [''-s'', show_nat 0x1000, ''-a'', show_nat 0x1000, ''-w'', show_nat 0x1000] ?s = Ret () ?s1"
    by simp
  have view: "dfl_at (dfl_view ?s1) 0x1000 demo_tree"
    using demo_tree_at by (simp add: dfl_view_custom devmem_process_def)
  have m: "register_space (mem ?s1) b n \<longleftrightarrow> 8 dvd unat b" for b n by (simp add: register_space_all)
  show ?thesis
    by (rule wp_mono [OF devmem_session [OF p, where path = "''/dev/mem''" and fd = 3 and p = "0x1000"
        and a = "0x1000" and l = 64 and k = 4 and client = demo_client, OF _ _ _ _ _ _ _ view demo_tree_fits(1,2)]])
      (use m demo_client_behaves in \<open>auto simp: devmem_process_def can_print_def devmem_config_ok_def
        devmem_resources_def demo_os_def MAP_FAILED_def vec_inv_def allocs_ok_def scan_ready_def
        MASK_4K_ADDR_def vec_blocks_def demo_some demo_bases dest: demo_played_memory\<close>)
qed

section \<open>Zephyr\<close>

lemma no_claims_table:
  assumes "\<forall>x \<in> set v. \<not> is_mmio_opened x \<and> \<not> is_interrupt_opened x"
    and "zephyr_table tree start ds found v = (r, found', xs)"
  shows "\<forall>x \<in> set xs. \<not> is_mmio_opened x \<and> \<not> is_interrupt_opened x"
  using assms
proof (induction ds arbitrary: found v)
  case Nil
  then show ?case by simp
next
  case (Cons d ds)
  have dev: "\<forall>x \<in> set (v @ [zephyr_entry start d]). \<not> is_mmio_opened x \<and> \<not> is_interrupt_opened x"
    using Cons.prems(1) by (auto simp: zephyr_entry_def zero_info_def)
  have rom: "\<forall>x \<in> set (rows a (tree a)). \<not> is_mmio_opened x \<and> \<not> is_interrupt_opened x" for a
    using no_claims_rows by blast
  from Cons.prems Cons.IH [OF dev] Cons.IH [OF rom] Cons.IH [OF Cons.prems(1)] show ?case
    by (simp split: if_splits)
qed

text \<open>C5: A whole life on the Zephyr platform: initialisation from the device table, an arbitrary
  application that leaves the interrupts disabled and keeps to its handles and to aligned offsets inside
  the windows, cleanup.  When the registers of every interface of the table are mapped, at its base
  address as the decoder moves it, the run ends without undefined behaviour; the calls made
  are those the application chose, and every answer is
  the one of the abstract machine whose interfaces are those of \<open>zephyr_table\<close>, and whose registers
  are memory at the decoded addresses where an access does not go to the syscon driver; the application
  causes only calls of the interrupt controller and of the syscon driver, and the cleanup frees every
  block of the table.\<close>

theorem zephyr_session:
  assumes "zephyr_parse_args options s = Ret () s1" and "scan_ready s1" and "vec_size s1 = 0"
    and "can_print s1"
    and "zephyr_roms (dfl_view s1) fuel tree (s_zephyr_start_addr s1) table"
    and "0 < length table" and "length table < 256" and "s_zephyr_single_component_mode s1 = 0"
    and "zephyr_table tree (s_zephyr_start_addr s1) table (s_zephyr_dfl_found s1) [] = (r, found, xs)"
    and "xs \<noteq> []" and "length xs \<le> 2 ^ 31"
    and "\<forall>x \<in> set xs. register_space (mem s1)
        (base_address x - rom_address table (s_zephyr_dfl_found s1) (s_zephyr_dfl_addr s1)) (unat l)"
    and "well_behaved l never_enables client"
  shows "wp (bnd (fpga_zephyr_platform_init fuel table options) (\<lambda>r.
        bnd (run_client zephyr_perform k client []) (\<lambda>h.
        thn fpga_zephyr_platform_cleanup (ret (r, h)))))
    (\<lambda>(r', h) t. r' = r \<and> vec t = None \<and> live t = live s1 - vec_blocks s1
       \<and> history_ok xs (decoded_layout (rom_address table (s_zephyr_dfl_found s1) (s_zephyr_dfl_addr s1))
           (env_read_mode (env s1))) (({}, {}), mem s1) h \<and> played client k h
       \<and> (\<exists>cs. os_calls t = os_calls s1 @ cs \<and> list_all zephyr_may cs)) s" (is "wp _ ?Q s")
  unfolding wp_bnd
proof (rule wp_mono [OF wp_zephyr_init_done(1) [OF assms(1,2,5-7,3,8)]])
  fix r' and u :: "'a zephyr_state_scheme"
  assume "devices_done tree table s1 r' u"
  note u = this [unfolded devices_done_def wp_zephyr_init_done(2) [OF assms(1,2,5-7,3,8)]]
  then have xs: "vec_abs u = xs" "r' = r" and inv: "vec_inv u" using assms(9) by (simp_all add: scan_ready_def)
  have n: "0 < vec_size u" "vec_size u \<le> 2 ^ 31" using xs assms(10,11) length_vec_abs [OF inv] by (cases xs; auto)+
  have "mem u = mem s1"
    and "s_zephyr_dfl_addr u = rom_address table (s_zephyr_dfl_found s1) (s_zephyr_dfl_addr s1)"
    using u by (simp_all add: kept_rest_def)
  with n inv xs assms(12) have ok: "zephyr_ok l u"
    by (simp add: session_ok_def zephyr_addr_def zephyr_rest_def)
  have "held u = ({}, {})"
    by (rule no_claims [OF inv]) (use no_claims_table [OF _ assms(9)] xs in simp)
  then have start: "machine_of u = (({}, {}), mem s1)" "zephyr_layout u
      = decoded_layout (rom_address table (s_zephyr_dfl_found s1) (s_zephyr_dfl_addr s1)) (env_read_mode (env s1))"
    using u by (simp_all add: machine_of_def zephyr_layout_decoded kept_rest_def)
  show "wp (run_client zephyr_perform k client []) (\<lambda>h. wp (thn fpga_zephyr_platform_cleanup (ret (r', h))) ?Q) u"
  proof (rule wp_mono [OF zephyr_api.answers [OF ok well_behaved_mono [OF assms(13) TrueI]]])
    fix h and v :: "'a zephyr_state_scheme"
    assume v: "zephyr_ok l v \<and> api_step zephyr_rest zephyr_may u v
      \<and> history_ok (vec_abs u) (zephyr_layout u) (machine_of u) h \<and> played client k h"
    then obtain cs where cs: "os_calls v = os_calls s1 @ cs" "list_all zephyr_may cs"
      using u by (auto simp: api_step_def kept_rest_def)
    from v u n have g: "table_tight v" "can_print v" "live v - vec_blocks v = live s1 - vec_blocks s1"
      using assms(4) by (auto simp: table_tight_def session_ok_def api_step_def kept_rest_def)
    show "wp (thn fpga_zephyr_platform_cleanup (ret (r', h))) ?Q v"
      unfolding wp_thn wp_ret_eta
      by (rule wp_mono [OF wp_zephyr_cleanup [OF g(2,1)]])
        (use v g cs xs start in auto)
  qed
qed

lemma zephyr_session_witness:
  "wp (bnd (fpga_zephyr_platform_init 5 demo_devices []) (\<lambda>r.
        bnd (run_client zephyr_perform 4 demo_client []) (\<lambda>h.
        thn fpga_zephyr_platform_cleanup (ret (r, h)))))
    (\<lambda>(r, h) t. r \<and> live t = 0 \<and> h = demo_history) (zephyr_process (table_read demo_words))"
proof -
  have len: "length (rows 0x1000 demo_tree) = 3"
    using arg_cong [OF demo_rows(1), of length] by simp
  have table: "zephyr_table (\<lambda>a. demo_tree) 0 demo_devices False []
      = (True, True, rows 0x1000 demo_tree @ [zephyr_entry 0 (demo_devices ! 1)])"
    by (simp add: demo_devices_def)
  show ?thesis
    by (rule wp_mono [OF zephyr_session [OF zephyr_no_args zephyr_process_ready(1),
            where fuel = 5 and tree = "\<lambda>a. demo_tree" and l = 64 and k = 4 and client = demo_client]])
      (use demo_roms table in \<open>auto simp: zephyr_process_ready len demo_client_behaves demo_devices_def
        register_space_all demo_bases zephyr_entry_def zero_info_def dest: demo_played_decoded\<close>)
qed

section \<open>All platforms\<close>

text \<open>A session as the abstract machine has it: the application's calls, their answers, the claims and the
  registers at the end, and every access on the bus.\<close>

definition session_done ::
    "register_map \<Rightarrow> client \<Rightarrow> nat \<Rightarrow> 'e mmio_state_scheme \<Rightarrow> history \<Rightarrow> 'e mmio_state_scheme \<Rightarrow> bool" where
  "session_done W client k s h t \<longleftrightarrow> played client k h
     \<and> history_ok (vec_abs s) W (machine_of s) h
     \<and> machine_of t = machine_after (vec_abs s) W (machine_of s) h
     \<and> bus t = bus s @ history_events (vec_abs s) W h
     \<and> map fixed_part (vec_abs t) = map fixed_part (vec_abs s) \<and> live t = live s"

text \<open>C7: Well-behaved applications do not go wrong.  On each platform, from any well-formed state, one with
  a well-formed table of at most two to the 31 entries whose windows are mapped from boundaries of eight
  bytes on, every finite run of calls that keeps to the given handles and to aligned offsets inside the
  windows returns, in a well-formed state with the same
  interfaces and the same heap blocks.  The calls are the application's, in its order, and answers, claims,
  memory and the trace of the bus are those of the abstract machine, access by access; only the calls of
  the platform's interrupts and registers have reached the operating system.  The run is the one of the
  application's thread: the steps of the interrupt thread are those of the relation of \<open>Uio_Interrupts\<close>.\<close>

theorem sessions_keep_types:
  assumes "uio_ok l s" and "devmem_ok l d" and "zephyr_ok l z"
    and "well_behaved l (\<lambda>_. True) client" and "well_behaved l (\<lambda>_. False) polling"
  shows "wp (run_client uio_perform k client [])
      (\<lambda>h t. uio_ok l t \<and> session_done (uio_layout s) client k s h t
        \<and> (\<exists>cs. os_calls t = os_calls s @ cs \<and> list_all uio_may cs)) s
    \<and> wp (run_client devmem_perform k polling [])
      (\<lambda>h t. devmem_ok l t \<and> session_done (devmem_layout d) polling k d h t \<and> os_calls t = os_calls d) d
    \<and> wp (run_client zephyr_perform k client [])
      (\<lambda>h t. zephyr_ok l t \<and> session_done (zephyr_layout z) client k z h t
        \<and> (\<exists>cs. os_calls t = os_calls z @ cs \<and> list_all zephyr_may cs)) z"
  by (intro conjI wp_mono [OF uio_api.session [OF assms(1,4)]] wp_mono [OF devmem_api.session [OF assms(2,5)]]
      wp_mono [OF zephyr_api.session [OF assms(3,4)]])
    (auto simp: session_done_def api_step_def list_all_iff)

text \<open>An interface at 0x1000, a table without interfaces, and the single device of a Zephyr board.\<close>

lemma sessions_keep_types_witness:
  "wp (run_client uio_perform 4 demo_client [])
     (\<lambda>h t. h = demo_history \<and> bus t = [Bus_write 8 0x1008 42, Bus_read 8 0x1008])
     (register_process Native_64)
   \<and> wp (run_client devmem_perform 4 demo_client []) (\<lambda>h t. vec_inv t) (devmem_process (\<lambda>a. 0) demo_os)
   \<and> wp (run_client zephyr_perform 4 demo_client []) (\<lambda>h t. vec_inv t) zephyr_started"
proof -
  let ?s = "register_process Native_64"
  have abs: "vec_abs ?s = [single_entry 0x1000]" by (simp add: vec_abs_def)
  have u: "uio_ok 64 ?s" and z: "zephyr_ok 64 zephyr_started"
    by (simp_all add: session_ok_def vec_inv_def vec_abs_def register_space_all zephyr_started_def info_ok_def
        zephyr_addr_def zephyr_rest_def single_entry_def zero_info_def)
  have "held ?s = ({}, {})" by (rule no_claims) (use u abs in \<open>simp_all add: session_ok_def single_entry_def\<close>)
  then have start: "machine_of ?s = (({}, {}), \<lambda>a. Some 0)" "uio_layout ?s = memory_layout Native_64"
    by (simp_all add: machine_of_def uio_layout_memory)
  have demo: "h = demo_history \<and> bus t = [Bus_write 8 0x1008 42, Bus_read 8 0x1008]"
    if "session_done (uio_layout ?s) demo_client 4 ?s h t" for h t
  proof -
    have h: "played demo_client 4 h" "history_ok [single_entry 0x1000] (memory_layout Native_64) (({}, {}), \<lambda>a. Some 0) h"
      and ev: "bus t = history_events [single_entry 0x1000] (memory_layout Native_64) h"
      using that by (simp_all add: session_done_def start abs)
    from demo_played_memory [OF h] have "h = demo_history" by simp
    then show ?thesis
      by (simp add: ev history_events_def demo_history_def memory_layout_def single_entry_def
          write_events_def read_events_def)
  qed
  have d: "devmem_ok 64 (devmem_process (\<lambda>a. 0) demo_os)"
    by (simp add: session_ok_def devmem_process_def vec_inv_def vec_abs_def)
  show ?thesis
    using sessions_keep_types [OF u d z demo_client_behaves demo_client_behaves, of 4] demo
    by (auto simp: session_ok_def elim!: wp_mono)
qed

end
