(* ===== verification/Zephyr_Test.thy ===== *)
theory Zephyr_Test
  imports Zephyr_Session Dfl_Report
begin

text \<open>
  The program \<open>zephyr/test/main.c\<close>: it starts the Zephyr platform and checks the five interfaces of one
  board, two memories of a Device Feature List and three PIO blocks.  The board is an argument: what
  the build generates of the device tree, and the two version strings.  With \<open>ZEPHYR_UNIT_TEST_INT\<close> an
  interactive part follows that never ends; \<open>k_sleep\<close> changes nothing, and what the interrupts do
  meanwhile is left out.
\<close>

section \<open>Messages\<close>

text \<open>\<open>customize_print\<close>: what the program's own function writes for a message.\<close>

definition customize_print :: "FPGA_MSG_PRINTF_TYPE \<Rightarrow> string \<Rightarrow> msg_arg list \<Rightarrow> out_event list" where
  "customize_print type format args =
     (case type of
        FPGA_MSG_PRINTF_DEBUG \<Rightarrow> [Stdout_vprintf ''DEBUG: '' []]
      | FPGA_MSG_PRINTF_WARNING \<Rightarrow> [Stdout_vprintf ''WARNING: '' []]
      | FPGA_MSG_PRINTF_ERROR \<Rightarrow> [Stdout_vprintf ''ERROR: '' []]
      | FPGA_MSG_PRINTF_INFO \<Rightarrow> [Stdout_vprintf ''INFO: '' []]
      | FPGA_MSG_PRINTF_INVALID i \<Rightarrow> []) @ [Stdout_vprintf format args]"

text \<open>The console: a message to the registered function is what that function writes.\<close>

definition console :: "out_event list \<Rightarrow> out_event list" where
  "console evs = concat (map (\<lambda>ev. case ev of
     App_message type format args \<Rightarrow> customize_print type format args | _ \<Rightarrow> [ev]) evs)"

text \<open>\<open>printf\<close> and \<open>printk\<close>.\<close>

definition print_console :: "string \<Rightarrow> msg_arg list \<Rightarrow> ('e, unit) cmn" where
  "print_console fmt args = bnd (vprintf fmt args) (\<lambda>_. ret ())"

section \<open>The board\<close>

record board =
  config_board :: string
  app_version_base :: string
  git_version :: string
  rom_addr :: "nat \<Rightarrow> u64 option"
  myip1 :: nat
  myip2 :: nat
  myip3 :: nat

definition check_rom :: "board \<Rightarrow> nat \<Rightarrow> u64 \<Rightarrow> string \<Rightarrow> ('e, bool) cmn" where
  "check_rom B d expected message =
     (case rom_addr B d of
        None \<Rightarrow> thn (error_line message []) (ret False)
      | Some a \<Rightarrow> if a \<noteq> expected then thn (error_line message []) (ret False) else ret True)"

section \<open>The table\<close>

definition check_count :: "('e, bool) cmn" where
  "check_count =
     bnd fpga_get_num_of_interfaces (\<lambda>n.
     if n \<noteq> 5 then
       thn (error_line ''Error!: Number of interfaces test failed!\<newline>'' [])
      (bnd fpga_get_num_of_interfaces (\<lambda>n.
       thn (error_line ''interface number =%d, expected number = %d!\<newline>'' [Arg_word (ucast n), Arg_int 5])
           (ret False)))
     else ret True)"

fun list_addresses :: "nat \<Rightarrow> nat \<Rightarrow> ('e, unit) cmn" where
  "list_addresses 0 i = ret ()"
| "list_addresses (Suc k) i =
     bnd (common_fpga_interface_info_vec_at i) (\<lambda>x.
     thn (info_line ''common_fpga_interface_info_vec_at(%d), base_addr = %p\<newline>''
            [Arg_int (int i), Arg_word (base_address x)])
         (list_addresses k (Suc i)))"

text \<open>The GUID tests join the comparisons of the two halves by \<open>&&\<close>.\<close>

definition check_guids :: "('e, bool) cmn" where
  "check_guids =
     bnd (gets (\<lambda>s. env_junk_info (env s))) (\<lambda>info.
     bnd (fpga_get_interface_at 0 True) (\<lambda>(found, copied).
     let info = (case copied of None \<Rightarrow> info | Some x \<Rightarrow> x) in
     if guid_h (guid info) \<noteq> 0xDF3F3B5A300B4087 \<and> guid_l (guid info) \<noteq> 0x8CE57F09B3459B69 then
       thn (error_line ''Error! Device 1 GUID test failed!.\<newline>'' []) (ret False)
     else
       bnd (fpga_get_interface_at 1 True) (\<lambda>(found, copied).
       let info = (case copied of None \<Rightarrow> info | Some x \<Rightarrow> x) in
       if guid_h (guid info) \<noteq> 0xE3A2A9843F0340D0 \<and> guid_l (guid info) \<noteq> 0xB679F5A982E806B4 then
         thn (error_line ''Error! Device 2 GUID test failed!.\<newline>'' []) (ret False)
       else thn (info_line ''Devices GUID test passed.\<newline>\<newline>'' []) (ret True))))"

section \<open>The memories\<close>

text \<open>\<open>||\<close> on expressions with effects.\<close>

definition orelse :: "(bool, 's) prog \<Rightarrow> (bool, 's) prog \<Rightarrow> (bool, 's) prog" where
  "orelse a b = bnd a (\<lambda>x. if x then ret True else b)"

definition differs_from :: "int \<Rightarrow> u32 \<Rightarrow> u32 \<Rightarrow> ('e, bool) zephyr" where
  "differs_from h offset v = bnd (fpga_zephyr_read_32 h offset) (\<lambda>w. ret (w \<noteq> v))"

definition differs_from_memory :: "int \<Rightarrow> u32 \<Rightarrow> u64 \<Rightarrow> ('e, bool) zephyr" where
  "differs_from_memory h offset a =
     bnd (fpga_zephyr_read_32 h offset) (\<lambda>w. bnd (bus_read 4 a) (\<lambda>v. ret (w \<noteq> v)))"

text \<open>The result only says whether the interface could be claimed: a failed comparison is reported and
  does not end the program.\<close>

definition check_memory ::
    "u32 \<Rightarrow> u32 \<Rightarrow> u32 \<Rightarrow> u32 \<Rightarrow> u64 \<Rightarrow> string \<Rightarrow> string \<Rightarrow> ('e, bool) zephyr" where
  "check_memory index offset v w a invalid failed =
     bnd (fpga_open index) (\<lambda>h.
     if h = INVALID_HANDLE then thn (error_line invalid []) (ret False)
     else
       thn (fpga_zephyr_write_32 h offset v)
      (thn (fpga_zephyr_write_32 h (offset + 4) w)
      (bnd (orelse (differs_from h offset v)
           (orelse (differs_from h (offset + 4) w)
           (orelse (differs_from_memory h offset a)
                   (differs_from_memory h (offset + 4) (a + 4))))) (\<lambda>bad.
       thn (if bad then error_line failed [] else ret ()) (ret True)))))"

section \<open>The PIO blocks\<close>

definition PIO_INT_MASK_REG_OFFSET :: u32 where "PIO_INT_MASK_REG_OFFSET = 0x08"
definition PIO_EDGECAPTURE_REG_OFFSET :: u32 where "PIO_EDGECAPTURE_REG_OFFSET = 0x0c"

definition check_mask :: "int \<Rightarrow> u32 \<Rightarrow> string \<Rightarrow> ('e, bool) zephyr" where
  "check_mask h expected message =
     bnd (fpga_zephyr_read_32 h PIO_INT_MASK_REG_OFFSET) (\<lambda>v.
     if v \<noteq> expected then
       bnd (fpga_zephyr_read_32 h PIO_INT_MASK_REG_OFFSET) (\<lambda>v.
       thn (error_line message [Arg_word (ucast v)]) (ret False))
     else ret True)"

definition check_pios :: "(int \<Rightarrow> int \<Rightarrow> int \<Rightarrow> ('e, int) zephyr) \<Rightarrow> ('e, int) zephyr" where
  "check_pios rest =
     bnd (fpga_open 2) (\<lambda>m_handle.
     bnd (fpga_open 3) (\<lambda>m_handle_2.
     bnd (fpga_open 4) (\<lambda>m_handle_3.
     if m_handle = INVALID_HANDLE then thn (error_line ''Error!: Invalid m_handle\<newline>'' []) (ret (-1))
     else if m_handle_2 = INVALID_HANDLE then thn (error_line ''Error!: Invalid m_handle_2\<newline>'' []) (ret (-1))
     else if m_handle_3 = INVALID_HANDLE then thn (error_line ''Error!: Invalid m_handle_3\<newline>'' []) (ret (-1))
     else
       thn (fpga_zephyr_write_32 m_handle PIO_INT_MASK_REG_OFFSET 0)
      (thn (fpga_zephyr_write_32 m_handle PIO_INT_MASK_REG_OFFSET 0xffffffff)
      (thn (fpga_zephyr_write_32 m_handle_2 PIO_INT_MASK_REG_OFFSET 0)
      (thn (fpga_zephyr_write_32 m_handle_2 PIO_INT_MASK_REG_OFFSET 0xffffffff)
      (thn (fpga_zephyr_write_32 m_handle_3 PIO_INT_MASK_REG_OFFSET 0)
      (thn (fpga_zephyr_write_32 m_handle_3 PIO_INT_MASK_REG_OFFSET 0xffffffff)
      (bnd (check_mask m_handle 0x7ff
              ''Error!: m_handle read value %x mismatched with expected value 0x7ff.\<newline>'') (\<lambda>ok.
       if \<not> ok then ret (-1)
       else
         bnd (check_mask m_handle_2 0x3ff
                ''Error!: m_handle_2 read value %x mismatched with expected value 0x3ff.\<newline>'') (\<lambda>ok.
         if \<not> ok then ret (-1)
         else
           bnd (check_mask m_handle_3 0x3ff
                  ''Error!: m_handle_3 read value %x mismatched with expected value 0x3ff.\<newline>'') (\<lambda>ok.
           if \<not> ok then ret (-1)
           else
             thn (info_line ''Memory address test passed.\<newline>\<newline>'' [])
                 (rest m_handle m_handle_2 m_handle_3)))))))))))))"

section \<open>The interrupt test\<close>

text \<open>The three ISRs differ in the message; the argument points to a static handle.\<close>

definition my_isr :: "string \<Rightarrow> int option \<Rightarrow> ('e, unit) zephyr" where
  "my_isr message args =
     thn (print_console message [])
         (case args of None \<Rightarrow> ret ()
          | Some h \<Rightarrow> fpga_zephyr_write_32 h PIO_EDGECAPTURE_REG_OFFSET 0xffffffff)"

text \<open>The addresses of an ISR and of the static handle it gets.\<close>

type_synonym isr_place = "u64 \<times> u64"

definition setup_isr :: "isr_place \<Rightarrow> int \<Rightarrow> ('e, unit) zephyr" where
  "setup_isr place h =
     (if h \<noteq> INVALID_HANDLE then
        bnd (fpga_zephyr_register_isr h (fst place) (snd place)) (\<lambda>_.
        fpga_zephyr_write_32 h PIO_INT_MASK_REG_OFFSET 0xffffffff)
      else ret ())"

fun countdown :: "nat \<Rightarrow> ('e, unit) cmn" where
  "countdown 0 = ret ()"
| "countdown (Suc k) =
     thn (info_line ''Clock counting down... %d\<newline>'' [Arg_int (int (Suc k))]) (countdown k)"

text \<open>The edge capture registers are cleared before the interrupts are enabled again; the first write
  has the constant 0 for its handle.\<close>

definition clear_edge_captures :: "int \<Rightarrow> int \<Rightarrow> int \<Rightarrow> ('e, unit) zephyr" where
  "clear_edge_captures m_handle m_handle_2 m_handle_3 =
     thn (fpga_zephyr_write_32 0 PIO_EDGECAPTURE_REG_OFFSET 0xffffffff)
    (bnd (fpga_zephyr_enable_interrupt m_handle) (\<lambda>_.
     thn (if m_handle_2 \<noteq> INVALID_HANDLE then
            thn (fpga_zephyr_write_32 m_handle_2 PIO_EDGECAPTURE_REG_OFFSET 0xffffffff)
                (bnd (fpga_zephyr_enable_interrupt m_handle_2) (\<lambda>_. ret ()))
          else ret ())
         (if m_handle_3 \<noteq> INVALID_HANDLE then
            thn (fpga_zephyr_write_32 m_handle_3 PIO_EDGECAPTURE_REG_OFFSET 0xffffffff)
                (bnd (fpga_zephyr_enable_interrupt m_handle_3) (\<lambda>_. ret ()))
          else ret ())))"

text \<open>The last loop has no end; the fuel is the number of seconds one looks at it.\<close>

fun tick_forever :: "nat \<Rightarrow> ('e, unit) cmn" where
  "tick_forever 0 = halt Out_of_fuel"
| "tick_forever (Suc k) = thn (info_line ''Clock ticking forever...\<newline>'' []) (tick_forever k)"

definition interrupt_test ::
    "isr_place \<Rightarrow> isr_place \<Rightarrow> isr_place \<Rightarrow> nat \<Rightarrow> int \<Rightarrow> int \<Rightarrow> int \<Rightarrow> ('e, unit) zephyr" where
  "interrupt_test p1 p2 p3 seconds m_handle m_handle_2 m_handle_3 =
     thn (info_line ''Interrupt Manual Test started....\<newline>'' [])
    (thn (info_line ''User expected to stop test manually\<newline>'' [])
    (thn (setup_isr p1 m_handle)
    (thn (setup_isr p2 m_handle_2)
    (thn (setup_isr p3 m_handle_3)
    (bnd (fpga_zephyr_enable_interrupt m_handle) (\<lambda>_.
     thn (if m_handle_2 \<noteq> INVALID_HANDLE
          then bnd (fpga_zephyr_enable_interrupt m_handle_2) (\<lambda>_. ret ()) else ret ())
    (thn (if m_handle_3 \<noteq> INVALID_HANDLE
          then bnd (fpga_zephyr_enable_interrupt m_handle_3) (\<lambda>_. ret ()) else ret ())
    (thn (info_line ''Interrupt enabled\<newline>'' [])
    (thn (countdown 30)
    (bnd (fpga_zephyr_disable_interrupt m_handle) (\<lambda>_.
     thn (if m_handle_2 \<noteq> INVALID_HANDLE
          then bnd (fpga_zephyr_disable_interrupt m_handle_2) (\<lambda>_. ret ()) else ret ())
    (thn (if m_handle_3 \<noteq> INVALID_HANDLE
          then bnd (fpga_zephyr_disable_interrupt m_handle_3) (\<lambda>_. ret ()) else ret ())
    (thn (info_line ''Interrupt disabled\<newline>'' [])
    (thn (countdown 30)
    (thn (clear_edge_captures m_handle m_handle_2 m_handle_3)
    (thn (info_line ''Interrupt enabled\<newline>'' [])
         (tick_forever seconds)))))))))))))))))"

section \<open>The program\<close>

text \<open>\<open>interactive\<close> stands for what is compiled in after the checks: nothing, or \<open>interrupt_test\<close>
  with \<open>ZEPHYR_UNIT_TEST_INT\<close>.\<close>

definition no_interrupt_test :: "int \<Rightarrow> int \<Rightarrow> int \<Rightarrow> ('e, unit) zephyr" where
  "no_interrupt_test m_handle m_handle_2 m_handle_3 = ret ()"

definition zephyr_test_checks ::
    "(int \<Rightarrow> int \<Rightarrow> int \<Rightarrow> ('e, unit) zephyr) \<Rightarrow> board \<Rightarrow> ('e, int) zephyr" where
  "zephyr_test_checks interactive B =
     thn (info_line ''Fpga platform init completed\<newline>\<newline>'' [])
    (bnd (check_rom B (myip1 B) 0xa0000 ''Error!: DEVICE_MMIO_ROM_PTR(dev_1)\<newline>'') (\<lambda>ok.
     if \<not> ok then ret (-1) else
     bnd (check_rom B (myip2 B) 0xb0000 ''Error!: DEVICE_MMIO_ROM_PTR(dev_2)\<newline>'') (\<lambda>ok.
     if \<not> ok then ret (-1) else
     bnd (check_rom B (myip3 B) 0xc0000 ''Error!: DEVICE_MMIO_ROM_PTR(dev_3)\<newline>'') (\<lambda>ok.
     if \<not> ok then ret (-1) else
     bnd check_count (\<lambda>ok.
     if \<not> ok then ret (-1) else
     thn (info_line ''Number of devices discovery test passed.\<newline>'' [])
    (bnd common_fpga_interface_info_vec_size (\<lambda>n.
     thn (list_addresses n 0)
    (thn (info_line ''Please check the base address for each interface shown above\<newline>\<newline>'' [])
    (bnd check_guids (\<lambda>ok.
     if \<not> ok then ret (-1) else
     bnd (check_memory 0 0x0 0xABABABAB 0xBEEFBEEF 0x300000
            ''Error!: Invalid m_dfl_handle\<newline>'' ''Error! Device 1 memory test failed!.\<newline>'') (\<lambda>ok.
     if \<not> ok then ret (-1) else
     bnd (check_memory 1 0x10 0xAAAABBBB 0xDEEDDEED 0x400010
            ''Error!: Invalid m_dfl_handle_2\<newline>'' ''Error! Device 2 memory test failed!.\<newline>'') (\<lambda>ok.
     if \<not> ok then ret (-1) else
     check_pios (\<lambda>m_handle m_handle_2 m_handle_3.
       thn (interactive m_handle m_handle_2 m_handle_3)
      (thn (info_line ''###Test finished###\<newline>'' []) (ret 0)))))))))))))))"

definition zephyr_test_main ::
    "(int \<Rightarrow> int \<Rightarrow> int \<Rightarrow> ('e, unit) zephyr) \<Rightarrow> board \<Rightarrow> nat \<Rightarrow> dev_info list \<Rightarrow> ('e, int) zephyr" where
  "zephyr_test_main interactive B fuel table =
     thn (print_console ''\<newline>\<newline>This is Zephyr fpga ip access test on %s platform.\<newline>'' [Arg_str (config_board B)])
    (thn (print_console ''######################################\<newline>'' [])
    (thn (print_console ''###Zephyr fpga ip access test started ###\<newline>'' [])
    (thn (print_console ''###Version %s-%s            ###\<newline>'' [Arg_str (app_version_base B), Arg_str (git_version B)])
    (thn (print_console ''######################################\<newline>\<newline>'' [])
    (bnd (gets (\<lambda>s. env_vprintf (env s))) (\<lambda>vp.
     thn (fpga_platform_register_printf (App_printf (\<lambda>type. vp)))
    (bnd (fpga_zephyr_platform_init fuel table []) (\<lambda>rc.
     if \<not> rc then thn (error_line ''Error!: fpga_platform_init\<newline>'' []) (ret (-1))
     else zephyr_test_checks interactive B))))))))"

section \<open>A board that answers\<close>

text \<open>The state of the program when it has claimed the first \<open>n\<close> interfaces; those of the list are at
  aligned addresses.\<close>

abbreviation (input) claimed :: "FPGA_INTERFACE_INFO \<Rightarrow> FPGA_INTERFACE_INFO" where
  "claimed x \<equiv> x\<lparr>is_mmio_opened := True\<rparr>"

definition test_at :: "FPGA_INTERFACE_INFO list \<Rightarrow> os_env \<Rightarrow> nat \<Rightarrow> 'e zephyr_state_scheme \<Rightarrow> bool" where
  "test_at xs osys n s \<longleftrightarrow> vec_inv s \<and> vec_abs s = map claimed (take n xs) @ drop n xs
     \<and> (\<forall>a. mem s a \<noteq> None) \<and> os s = osys \<and> can_print s
     \<and> (\<forall>x \<in> set xs. dfl x \<longrightarrow> aligned 4 (base_address x - s_zephyr_dfl_addr s))"

lemma test_at_cong:
  assumes "test_at xs osys n s" and "vec t = vec s" and "vec_size t = vec_size s"
    and "vec_reserved t = vec_reserved s" and "dom (mem t) = dom (mem s)" and "os t = os s"
    and "can_print t = can_print s" and "s_zephyr_dfl_addr t = s_zephyr_dfl_addr s"
  shows "test_at xs osys n t"
proof -
  have "mem t a \<noteq> None" for a using assms(1,5) by (auto simp: test_at_def dom_def)
  with assms vec_cong(1,2) [of t s] show ?thesis by (simp add: test_at_def)
qed

lemma wp_test_lines:
  assumes "test_at xs osys n s"
  shows "wp (info_line fmt args) (\<lambda>_. test_at xs osys n) s"
    and "wp (error_line fmt args) (\<lambda>_. test_at xs osys n) s"
proof -
  have "test_at xs osys n (s\<lparr>out := ev\<rparr>)" for ev
    by (rule test_at_cong [OF assms]) simp_all
  moreover have "can_print s" using assms by (simp add: test_at_def)
  ultimately show "wp (info_line fmt args) (\<lambda>_. test_at xs osys n) s"
    and "wp (error_line fmt args) (\<lambda>_. test_at xs osys n) s"
    by (simp_all add: wp_lines)
qed

lemma test_entry:
  assumes s: "test_at xs osys n s" and i: "i < length xs" "int i \<le> INT_MAX"
  obtains x where "common_fpga_interface_info_vec_at i s = Ret x s" and "vec_abs s ! i = x"
    and "x = (if i < n then claimed (xs ! i) else xs ! i)"
    and "size_t_of_int (int i) = i" and "i < vec_size s"
proof -
  have inv: "vec_inv s" and abs: "vec_abs s = map claimed (take n xs) @ drop n xs"
    using s by (simp_all add: test_at_def)
  have sz: "i < vec_size s" using length_vec_abs [OF inv] abs i(1) by simp
  from inv sz obtain ys where ys: "vec s = Some ys" "i < length ys" "ys ! i = vec_abs s ! i"
    by (rule vec_inv_Some)
  have "vec_abs s ! i = (if i < n then claimed (xs ! i) else xs ! i)"
    using i(1) by (auto simp: abs nth_append)
  moreover have "size_t_of_int (int i) = i" using i(2) by simp
  ultimately show ?thesis
    using that ys sz by (simp add: common_fpga_interface_info_vec_at_def run_rules)
qed

lemma wp_test_bus:
  fixes s :: "'e zephyr_state_scheme"
  assumes s: "test_at xs osys n s" and a: "aligned 4 a"
  shows "wp (bus_read 4 a :: (u32, 'e zephyr_state_scheme) prog) (\<lambda>_. test_at xs osys n) s"
    and "wp (bus_write 4 a (v :: u32)) (\<lambda>_. test_at xs osys n) s"
proof -
  have "mapped (mem s) a 4" using s by (auto simp: test_at_def mapped_def)
  from mapped_load [OF this, of 0 4] obtain bs where ld: "load_bytes (mem s) a 4 = Some bs" by auto
  then have m: "dom (store_bytes (mem s) a (bytes_le 4 w)) = dom (mem s)" for w :: u32
    by (intro dom_store) simp
  have keep': "test_at xs osys n (s\<lparr>mem := m, bus := ev\<rparr>)" if "dom m = dom (mem s)" for m ev
    by (rule test_at_cong [OF s]) (simp_all add: can_print_def that)
  show "wp (bus_read 4 a :: (u32, 'e zephyr_state_scheme) prog) (\<lambda>_. test_at xs osys n) s"
    using a ld keep' [of "mem s"] by (simp add: bus_read_def wp_rules)
  show "wp (bus_write 4 a (v :: u32)) (\<lambda>_. test_at xs osys n) s"
    using a ld keep' [OF m] by (simp add: bus_write_def wp_rules)
qed

lemma aligned_sum:
  assumes "aligned 4 b" and "4 dvd unat (a :: u32)"
  shows "aligned 4 (b + ucast a)"
  using assms by (simp add: aligned_def unat_word_ariths unsigned_ucast_eq take_bit_eq_mod dvd_mod)

text \<open>An interface that does not come from the list answers as the syscon driver does.\<close>

definition answers :: "os_env \<Rightarrow> FPGA_INTERFACE_INFO \<Rightarrow> u32 \<Rightarrow> u32 \<Rightarrow> bool" where
  "answers osys x offset v \<longleftrightarrow> \<not> dfl x \<and> (\<forall>cs. \<not> os_result osys cs (Syscon_read (dev x) offset) < 0
     \<and> os_word osys cs (Syscon_read (dev x) offset) = v)"

lemma wp_test_32:
  fixes s :: "'e zephyr_state_scheme"
  assumes s: "test_at xs osys n s" and i: "i < length xs" "int i \<le> INT_MAX" and a: "4 dvd unat a"
  shows "wp (fpga_zephyr_read_32 (int i) a) (\<lambda>v t. test_at xs osys n t
      \<and> (\<forall>w. answers osys (xs ! i) a w \<longrightarrow> v = w)) s"
    and "wp (fpga_zephyr_write_32 (int i) a v) (\<lambda>_. test_at xs osys n) s"
proof -
  from s i obtain x where x: "common_fpga_interface_info_vec_at i s = Ret x s"
    "x = (if i < n then claimed (xs ! i) else xs ! i)" "size_t_of_int (int i) = i"
    by (rule test_entry)
  have at: "wp (common_fpga_interface_info_vec_at i) Q s = Q x s" for Q using x(1) by (rule wp_Ret)
  have base: "wp (fpga_zephyr_get_base_address (int i)) Q s = Q (base_address x - s_zephyr_dfl_addr s) s" for Q
    by (simp add: fpga_zephyr_get_base_address_def zephyr_dfl_base_addr_decoder_def wp_eta x(3) at wp_gets wp_ret_eta wp_ret)
  have call: "test_at xs osys n (called c f s)" for c f
    by (rule test_at_cong [OF s]) (simp_all add: called_def can_print_def)
  have same: "dfl x = dfl (xs ! i)" "dev x = dev (xs ! i)" using x(2) by simp_all
  have "xs ! i \<in> set xs" "base_address x = base_address (xs ! i)" using i x(2) by simp_all
  then have al: "aligned 4 (base_address x - s_zephyr_dfl_addr s + ucast a)" if "dfl x"
    using s that same a by (intro aligned_sum) (simp_all add: test_at_def)
  have "os s = osys" using s by (simp add: test_at_def)
  then show "wp (fpga_zephyr_read_32 (int i) a) (\<lambda>v t. test_at xs osys n t
      \<and> (\<forall>w. answers osys (xs ! i) a w \<longrightarrow> v = w)) s"
    using wp_test_bus(1) [OF s al] call
    by (auto simp: fpga_zephyr_read_32_def wp_eta x(3) at base wp_gets wp_syscall wp_ret wp_ret_eta
        same answers_def elim!: wp_mono)
  show "wp (fpga_zephyr_write_32 (int i) a v) (\<lambda>_. test_at xs osys n) s"
    using wp_test_bus(2) [OF s al] call
    by (simp add: fpga_zephyr_write_32_def wp_eta x(3) at base wp_syscall_ignored)
qed

lemma wp_test_open:
  fixes s :: "'e zephyr_state_scheme"
  assumes s: "test_at xs osys n s" and n: "n < length xs" "int n \<le> INT_MAX"
    and free: "\<not> is_mmio_opened (xs ! n)"
  shows "wp (fpga_open (of_nat n)) (\<lambda>h t. h = int n \<and> test_at xs osys (Suc n) t) s"
proof -
  from s n obtain x where x: "common_fpga_interface_info_vec_at n s = Ret x s" "vec_abs s ! n = x"
    "x = xs ! n" "n < vec_size s"
    by (rule test_entry) auto
  have inv: "vec_inv s" and abs: "vec_abs s = map claimed (take n xs) @ drop n xs"
    using s by (simp_all add: test_at_def)
  have w: "unat (of_nat n :: u32) = n" "sint (of_nat n :: u32) = int n"
    using n(2) by (simp_all add: unat_of_nat signed_of_nat signed_take_bit_int_eq_self)
  have next_abs: "(vec_abs s)[n := claimed (vec_abs s ! n)] = map claimed (take (Suc n) xs) @ drop (Suc n) xs"
    using n(1) x(2,3) abs
    by (simp add: take_Suc_conv_app_nth list_update_append Cons_nth_drop_Suc [symmetric])
  have "wp (vec_upd n claimed) (\<lambda>_ t. test_at xs osys (Suc n) t) s"
  proof (rule wp_mono [OF vec_upd_abs [OF inv x(4)]])
    fix y and t :: "'e zephyr_state_scheme"
    assume t: "vec_inv t \<and> vec_abs t = (vec_abs s)[n := claimed (vec_abs s ! n)]
      \<and> vec_size t = vec_size s \<and> vec_blocks t = vec_blocks s
      \<and> t = s\<lparr>g_common_fpga_interface_info_vec := vec t\<rparr>"
    then obtain v where tv: "t = s\<lparr>g_common_fpga_interface_info_vec := v\<rparr>" by metis
    from t have "vec_inv t" "vec_abs t = map claimed (take (Suc n) xs) @ drop (Suc n) xs"
      unfolding next_abs by simp_all
    with s show "test_at xs osys (Suc n) t" by (simp add: test_at_def) (simp add: tv)
  qed simp_all
  moreover have "wp (common_fpga_interface_info_vec_at n) Q s = Q x s" for Q using x(1) by (rule wp_Ret)
  ultimately show ?thesis
    using x(3,4) free by (simp add: fpga_open_def wp_eta wp_vec_size w wp_ret_eta wp_ret)
qed

section \<open>The checks\<close>

lemma wp_check_rom:
  "test_at xs osys n s \<Longrightarrow> wp (check_rom B d a m) (\<lambda>ok t. test_at xs osys n t \<and> ok = (rom_addr B d = Some a)) s"
  by (auto simp: check_rom_def wp_ret_eta wp_ret split: option.split
      intro!: wp_thn_then [OF wp_test_lines(2)])

lemma wp_check_count:
  assumes s: "test_at xs osys 0 s" and n: "length xs = 5"
  shows "wp check_count (\<lambda>ok t. test_at xs osys 0 t \<and> ok) s"
proof -
  have "fpga_get_num_of_interfaces s = Ret 5 s"
    using s n run_num_of_interfaces [of s] by (simp add: test_at_def)
  then show ?thesis using s by (simp add: check_count_def wp_bnd wp_Ret wp_ret)
qed

lemma wp_list_addresses:
  "test_at xs osys n s \<Longrightarrow> i + k = length xs \<Longrightarrow> int (length xs) \<le> INT_MAX \<Longrightarrow>
     wp (list_addresses k i) (\<lambda>_. test_at xs osys n) s"
proof (induction k arbitrary: i s)
  case 0
  then show ?case by (simp add: wp_ret)
next
  case (Suc k)
  have i: "i < length xs" "int i \<le> INT_MAX" using Suc.prems(2,3) by simp_all
  from Suc.prems(1) i obtain x where "common_fpga_interface_info_vec_at i s = Ret x s" by (rule test_entry)
  then show ?case
    using Suc.IH Suc.prems
    by (auto simp: wp_bnd wp_Ret intro!: wp_thn_then [OF wp_test_lines(1) [OF Suc.prems(1)]])
qed

definition guid_passes :: "u64 \<Rightarrow> u64 \<Rightarrow> FPGA_INTERFACE_INFO \<Rightarrow> bool" where
  "guid_passes h l x \<longleftrightarrow> guid_h (guid x) = h \<or> guid_l (guid x) = l"

lemma wp_check_guids:
  assumes s: "test_at xs osys 0 s" and n: "length xs = 5"
  shows "wp check_guids (\<lambda>ok t. test_at xs osys 0 t
      \<and> ok = (guid_passes 0xDF3F3B5A300B4087 0x8CE57F09B3459B69 (xs ! 0)
           \<and> guid_passes 0xE3A2A9843F0340D0 0xB679F5A982E806B4 (xs ! 1))) s"
proof -
  have at: "fpga_get_interface_at 0 True s = Ret (True, Some (xs ! 0)) s"
    "fpga_get_interface_at 1 True s = Ret (True, Some (xs ! 1)) s"
    using s n run_interface_at [of s] by (simp_all add: test_at_def)
  show ?thesis
    using s wp_test_lines [OF s]
    by (auto simp: check_guids_def wp_bnd wp_gets wp_Ret at Let_def wp_thn wp_ret wp_ret_eta guid_passes_def
        elim!: wp_mono)
qed

lemma wp_orelse:
  assumes "wp a (\<lambda>_. P) s" and "\<And>t. P t \<Longrightarrow> wp b (\<lambda>_. P) t"
  shows "wp (orelse a b) (\<lambda>_. P) s"
  unfolding orelse_def by (rule wp_bnd_then [OF assms(1)]) (use assms(2) in \<open>auto simp: wp_ret\<close>)

lemma wp_differs:
  assumes s: "test_at xs osys n s" and i: "i < length xs" "int i \<le> INT_MAX" "4 dvd unat a" and p: "aligned 4 p"
  shows "wp (differs_from (int i) a v) (\<lambda>_. test_at xs osys n) s"
    and "wp (differs_from_memory (int i) a p) (\<lambda>_. test_at xs osys n) s"
  unfolding differs_from_def differs_from_memory_def
  by (rule wp_bnd_then [OF wp_test_32(1) [OF s i]], simp add: wp_ret,
      rule wp_bnd_then [OF wp_test_32(1) [OF s i]], rule wp_bnd_then [OF wp_test_bus(1) [OF _ p]])
    (auto simp: wp_ret)

lemma wp_check_memory:
  assumes s: "test_at xs osys n s" and n: "n < length xs" "int n \<le> INT_MAX" and free: "\<not> is_mmio_opened (xs ! n)"
    and i: "i = of_nat n" and a: "4 dvd unat a" "4 dvd unat (a + 4)" and p: "aligned 4 p" "aligned 4 (p + 4)"
  shows "wp (check_memory i a v w p m f) (\<lambda>ok t. test_at xs osys (Suc n) t \<and> ok) s"
  unfolding check_memory_def i
proof (rule wp_bnd_then [OF wp_test_open [OF s n free]])
  fix h t
  assume h: "h = int n \<and> test_at xs osys (Suc n) t"
  note w = wp_test_32(2) [OF _ n a(1)] and w' = wp_test_32(2) [OF _ n a(2)]
  have "wp (orelse (differs_from h a v) (orelse (differs_from h (a + 4) w)
       (orelse (differs_from_memory h a p) (differs_from_memory h (a + 4) (p + 4))))) (\<lambda>_. test_at xs osys (Suc n)) u"
    if "test_at xs osys (Suc n) u" for u
    using h that by (auto intro!: wp_orelse wp_differs n a p)
  then show "wp (if h = INVALID_HANDLE then thn (error_line m []) (ret False)
     else thn (fpga_zephyr_write_32 h a v) (thn (fpga_zephyr_write_32 h (a + 4) w)
      (bnd (orelse (differs_from h a v) (orelse (differs_from h (a + 4) w)
       (orelse (differs_from_memory h a p) (differs_from_memory h (a + 4) (p + 4))))) (\<lambda>bad.
       thn (if bad then error_line f [] else ret ()) (ret True)))))
     (\<lambda>ok t. test_at xs osys (Suc n) t \<and> ok) t"
    using h
    by (auto simp: INVALID_HANDLE_def wp_ret wp_thn [of "ret ()"] intro!: wp_thn_then [OF w] wp_thn_then [OF w'] wp_bnd_then
        wp_thn_then [OF wp_test_lines(2)])
qed

lemma mask_register: "4 dvd unat PIO_INT_MASK_REG_OFFSET"
  by (simp add: PIO_INT_MASK_REG_OFFSET_def)

lemma wp_check_mask:
  assumes s: "test_at xs osys n s" and i: "i < length xs" "int i \<le> INT_MAX"
    and v: "answers osys (xs ! i) PIO_INT_MASK_REG_OFFSET v"
  shows "wp (check_mask (int i) e m) (\<lambda>ok t. test_at xs osys n t \<and> ok = (v = e)) s"
  unfolding check_mask_def
proof (rule wp_bnd_then [OF wp_test_32(1) [OF s i mask_register]])
  fix w t
  assume w: "test_at xs osys n t \<and> (\<forall>w'. answers osys (xs ! i) PIO_INT_MASK_REG_OFFSET w' \<longrightarrow> w = w')"
  with v have "w = v" by simp
  with w show "wp (if w \<noteq> e then bnd (fpga_zephyr_read_32 (int i) PIO_INT_MASK_REG_OFFSET) (\<lambda>v.
       thn (error_line m [Arg_word (ucast v)]) (ret False)) else ret True)
      (\<lambda>ok t. test_at xs osys n t \<and> ok = (v = e)) t"
    by (auto simp: wp_ret intro!: wp_bnd_then [OF wp_test_32(1) [OF _ i mask_register]] wp_thn_then [OF wp_test_lines(2)])
qed

lemma wp_check_pios:
  assumes s: "test_at xs osys 2 s" and n: "length xs = 5"
    and free: "\<forall>x \<in> set xs. \<not> is_mmio_opened x"
    and v: "\<forall>i \<in> {2, 3, 4}. answers osys (xs ! i) PIO_INT_MASK_REG_OFFSET (pio_mask i)"
    and rest: "\<And>t. test_at xs osys 5 t \<Longrightarrow> wp (rest 2 3 4) (\<lambda>r t. r = 0) t"
  shows "wp (check_pios rest) (\<lambda>r t. r = (if pio_mask 2 = 0x7ff \<and> pio_mask 3 = 0x3ff \<and> pio_mask 4 = 0x3ff
      then 0 else -1)) s"
proof -
  have open_at: "wp (fpga_open (of_nat i)) (\<lambda>h t. h = int i \<and> test_at xs osys (Suc i) t) t"
    if "test_at xs osys i t" "i < 5" for i t
    using that n free by (intro wp_test_open) simp_all
  have three: "wp (fpga_open 2) (\<lambda>h t. h = 2 \<and> test_at xs osys 3 t) t" if "test_at xs osys 2 t" for t
    using open_at [OF that] by simp
  have four: "wp (fpga_open 3) (\<lambda>h t. h = 3 \<and> test_at xs osys 4 t) t" if "test_at xs osys 3 t" for t
    using open_at [OF that] by simp
  have five: "wp (fpga_open 4) (\<lambda>h t. h = 4 \<and> test_at xs osys 5 t) t" if "test_at xs osys 4 t" for t
    using open_at [OF that] by simp
  have wr: "wp (fpga_zephyr_write_32 h a w) (\<lambda>_. test_at xs osys 5) t"
    if "test_at xs osys 5 t" "h \<in> {2, 3, 4}" "4 dvd unat a" for h a w t
    using that wp_test_32(2) [OF that(1), of "nat h" a w] n by auto
  have mask: "wp (check_mask h e m) (\<lambda>ok t. test_at xs osys 5 t \<and> ok = (pio_mask (nat h) = e)) t"
    if "test_at xs osys 5 t" "h \<in> {2, 3, 4}" for h e m t
    using that wp_check_mask [OF that(1), of "nat h" "pio_mask (nat h)" e m] n v by auto
  show ?thesis
    unfolding check_pios_def
    by (auto simp: INVALID_HANDLE_def wp_ret mask_register PIO_EDGECAPTURE_REG_OFFSET_def
        intro!: wp_bnd_then [OF three [OF s]] wp_bnd_then [OF four]
        wp_bnd_then [OF five] wp_thn_then [OF wr] wp_bnd_then [OF mask] wp_thn_then [OF wp_test_lines(1)] rest)
qed

text \<open>A check that decides, and one that always passes.\<close>

lemma wp_guard:
  assumes "wp p (\<lambda>ok t. P t \<and> ok = b) s"
    and "\<And>t. P t \<Longrightarrow> wp q (\<lambda>r t. r = (if c then 0 else -1)) t"
  shows "wp (bnd p (\<lambda>ok. if \<not> ok then ret (-1) else q)) (\<lambda>r t. r = (if b \<and> c then 0 else (-1 :: int))) s"
  by (rule wp_bnd_then [OF assms(1)]) (use assms(2) in \<open>auto simp: wp_ret\<close>)

lemma wp_pass:
  assumes "wp p (\<lambda>ok t. P t \<and> ok) s" and "\<And>t. P t \<Longrightarrow> wp q Q t"
  shows "wp (bnd p (\<lambda>ok. if \<not> ok then ret (-1) else q)) Q s"
  by (rule wp_bnd_then [OF assms(1)]) (use assms(2) in auto)

lemma wp_zephyr_test_checks:
  assumes s: "test_at xs osys 0 s" and n: "length xs = 5"
    and free: "\<forall>x \<in> set xs. \<not> is_mmio_opened x"
    and v: "\<forall>i \<in> {2, 3, 4}. answers osys (xs ! i) PIO_INT_MASK_REG_OFFSET (pio_mask i)"
  shows "wp (zephyr_test_checks no_interrupt_test B) (\<lambda>r t. r =
      (if rom_addr B (myip1 B) = Some 0xa0000 \<and> rom_addr B (myip2 B) = Some 0xb0000
          \<and> rom_addr B (myip3 B) = Some 0xc0000
          \<and> guid_passes 0xDF3F3B5A300B4087 0x8CE57F09B3459B69 (xs ! 0)
          \<and> guid_passes 0xE3A2A9843F0340D0 0xB679F5A982E806B4 (xs ! 1)
          \<and> pio_mask 2 = 0x7ff \<and> pio_mask 3 = 0x3ff \<and> pio_mask 4 = 0x3ff
       then 0 else -1)) s"
proof -
  have size: "vec_size t = 5" if "test_at xs osys 0 t" for t
    using that n length_vec_abs [of t] by (simp add: test_at_def)
  have addresses: "wp (list_addresses 5 0) (\<lambda>_. test_at xs osys 0) t" if "test_at xs osys 0 t" for t
    using that n by (intro wp_list_addresses) simp_all
  have first: "wp (check_memory 0 a v w p m f) (\<lambda>ok t. test_at xs osys 1 t \<and> ok) t"
    if "test_at xs osys 0 t" "4 dvd unat a" "4 dvd unat (a + 4)" "aligned 4 p" "aligned 4 (p + 4)" for a v w p m f t
    using wp_check_memory [OF that(1), of 0] that(2-5) n free by simp
  have second: "wp (check_memory 1 a v w p m f) (\<lambda>ok t. test_at xs osys 2 t \<and> ok) t"
    if "test_at xs osys 1 t" "4 dvd unat a" "4 dvd unat (a + 4)" "aligned 4 p" "aligned 4 (p + 4)" for a v w p m f t
    using wp_check_memory [OF that(1), of 1] that(2-5) n free by (simp add: numeral_2_eq_2)
  have finish: "wp (thn (no_interrupt_test h h' h'') (thn (info_line f a) (ret 0))) (\<lambda>r t. r = (0 :: int)) t"
    if "test_at xs osys 5 t" for h h' h'' f a t
    using that by (auto simp: no_interrupt_test_def wp_thn [of "ret ()"] wp_ret intro!: wp_thn_then [OF wp_test_lines(1)])
  have guids: "wp (bnd check_guids (\<lambda>ok. if \<not> ok then ret (-1) else q)) (\<lambda>r t. r =
      (if guid_passes 0xDF3F3B5A300B4087 0x8CE57F09B3459B69 (xs ! 0)
          \<and> guid_passes 0xE3A2A9843F0340D0 0xB679F5A982E806B4 (xs ! 1) \<and> c then 0 else (-1 :: int))) t"
    if "test_at xs osys 0 t" and "\<And>u. test_at xs osys 0 u \<Longrightarrow> wp q (\<lambda>r u. r = (if c then 0 else -1)) u" for t q c
    using wp_guard [OF wp_check_guids [OF that(1) n] that(2)] by (simp add: conj_assoc)
  show ?thesis
    unfolding zephyr_test_checks_def
    by (rule wp_thn_then [OF wp_test_lines(1) [OF s]], rule wp_guard [OF wp_check_rom], assumption,
        rule wp_guard [OF wp_check_rom], assumption, rule wp_guard [OF wp_check_rom], assumption,
        rule wp_pass [OF wp_check_count [OF _ n]], assumption,
        rule wp_thn_then [OF wp_test_lines(1)], assumption,
        simp only: wp_bnd [of common_fpga_interface_info_vec_size] wp_vec_size size,
        rule wp_thn_then [OF addresses], assumption, rule wp_thn_then [OF wp_test_lines(1)], assumption,
        rule guids, assumption, rule wp_pass [OF first], assumption, simp, simp, simp add: aligned_def,
        simp add: aligned_def, rule wp_pass [OF second], assumption, simp, simp, simp add: aligned_def,
        simp add: aligned_def,
        rule wp_check_pios [OF _ n free v finish])
qed

end
