(* ===== verification/Zephyr_Test_Properties.thy ===== *)
theory Zephyr_Test_Properties
  imports Zephyr_Test Session_Properties
begin

text \<open>
  What the program \<open>zephyr/test/main.c\<close> concludes about a board, and what its interactive part does.
\<close>

section \<open>The verdict\<close>

text \<open>The state in which \<open>main\<close> initialises the platform: some lines have been printed and the program's
  own function prints from then on.\<close>

lemma wp_test_prologue:
  fixes s :: "'e zephyr_state_scheme"
  assumes "\<And>ev vp. wp (fpga_zephyr_platform_init fuel table []) (\<lambda>rc. wp (rest rc) Q)
    (s\<lparr>out := ev, g_common_fpga_platform_printf := App_printf (\<lambda>type. vp)\<rparr>)"
  shows "wp (thn (print_console f1 a1) (thn (print_console f2 a2) (thn (print_console f3 a3)
      (thn (print_console f4 a4) (thn (print_console f5 a5)
      (bnd (gets (\<lambda>s. env_vprintf (env s))) (\<lambda>vp.
       thn (fpga_platform_register_printf (App_printf (\<lambda>type. vp)))
      (bnd (fpga_zephyr_platform_init fuel table []) rest)))))))) Q s"
  using assms
  by (simp add: print_console_def fpga_platform_register_printf_def wp_thn wp_bnd wp_vprintf wp_gets
      wp_modify wp_ret wp_ret_eta)

text \<open>C25: The verdict of the Zephyr test program.  When the platform starts and reports five interfaces,
  those of the list at aligned addresses, and the syscon driver answers the reads of the mask registers of
  the three PIO blocks, \<open>main\<close> always returns, and its result
  is 0 exactly when the device tree has the three addresses, each of the two GUIDs has at least one
  right half, and the masks are the expected ones.  So a GUID with one wrong half passes; and what the
  memories hold makes no difference at all, since a failed comparison is only printed.\<close>

theorem zephyr_test_verdict:
  assumes "scan_ready s" and "vec_size s = 0" and "\<forall>a. mem s a \<noteq> None"
    and "zephyr_roms (dfl_view s) fuel tree (s_zephyr_start_addr s) table"
    and "0 < length table" and "length table < 256" and "s_zephyr_single_component_mode s = 0"
    and "zephyr_table tree (s_zephyr_start_addr s) table (s_zephyr_dfl_found s) [] = (True, found, xs)"
    and "length xs = 5"
    and "\<forall>i \<in> {2, 3, 4}. \<not> dfl (xs ! i)
      \<and> (\<forall>cs. \<not> os_result (os s) cs (Syscon_read (dev (xs ! i)) 8) < 0
             \<and> os_word (os s) cs (Syscon_read (dev (xs ! i)) 8) = pio_mask i)"
    and "\<forall>x \<in> set xs. dfl x \<longrightarrow>
      aligned 4 (base_address x - rom_address table (s_zephyr_dfl_found s) (s_zephyr_dfl_addr s))"
  shows "wp (zephyr_test_main no_interrupt_test B fuel table) (\<lambda>r t. r =
      (if rom_addr B (myip1 B) = Some 0xa0000 \<and> rom_addr B (myip2 B) = Some 0xb0000
          \<and> rom_addr B (myip3 B) = Some 0xc0000
          \<and> (guid_h (guid (xs ! 0)) = 0xDF3F3B5A300B4087 \<or> guid_l (guid (xs ! 0)) = 0x8CE57F09B3459B69)
          \<and> (guid_h (guid (xs ! 1)) = 0xE3A2A9843F0340D0 \<or> guid_l (guid (xs ! 1)) = 0xB679F5A982E806B4)
          \<and> pio_mask 2 = 0x7ff \<and> pio_mask 3 = 0x3ff \<and> pio_mask 4 = 0x3ff
       then 0 else -1)) s" (is "wp _ ?Q _")
  unfolding zephyr_test_main_def
proof (rule wp_test_prologue)
  fix ev and vp :: "string \<Rightarrow> msg_arg list \<Rightarrow> int"
  let ?s = "s\<lparr>out := ev, g_common_fpga_platform_printf := App_printf (\<lambda>type. vp)\<rparr>"
  have ready: "scan_ready ?s" and view: "dfl_view ?s = dfl_view s" and pr: "can_print ?s"
    using assms(1) vec_cong(1) [of ?s s] dfl_view_cong [of ?s s]
    by (simp_all add: scan_ready_def allocs_ok_def can_print_def)
  have closed: "\<forall>x \<in> set xs. \<not> is_mmio_opened x" using no_claims_table [OF _ assms(8)] by simp
  have small: "int (length xs) \<le> INT_MAX" using assms(9) by simp
  have pios: "\<forall>i \<in> {2, 3, 4}. answers (os s) (xs ! i) PIO_INT_MASK_REG_OFFSET (pio_mask i)"
    using assms(10) by (simp add: answers_def PIO_INT_MASK_REG_OFFSET_def)
  have parse: "zephyr_parse_args [] ?s = Ret () ?s" by (rule zephyr_no_args)
  show "wp (fpga_zephyr_platform_init fuel table []) (\<lambda>rc. wp (if \<not> rc
      then thn (error_line ''Error!: fpga_platform_init\<newline>'' []) (ret (-1))
      else zephyr_test_checks no_interrupt_test B) ?Q) ?s"
  proof (rule wp_mono [OF wp_zephyr_init_done(1) [OF parse ready]])
    show "zephyr_roms (dfl_view ?s) fuel tree (s_zephyr_start_addr ?s) table" using assms(4) view by simp
    fix rc and t :: "'a zephyr_state_scheme"
    assume t: "devices_done tree table ?s rc t"
    have "vec_abs ?s = []" using ready assms(2) length_vec_abs [of ?s] by (simp add: scan_ready_def)
    with t have rc: "rc" "vec_abs t = xs" using assms(8) by (simp_all add: devices_done_def)
    have "test_at xs (os s) 0 t"
      using t rc pr assms(3,11) by (simp add: test_at_def devices_done_def scan_ready_def kept_rest_def)
    from wp_zephyr_test_checks [OF this assms(9) closed pios] show "wp (if \<not> rc
      then thn (error_line ''Error!: fpga_platform_init\<newline>'' []) (ret (-1))
      else zephyr_test_checks no_interrupt_test B) ?Q t"
      using rc by (simp add: guid_passes_def)
  qed (use assms in simp_all)
qed

text \<open>A board with the list of the program's comment at 0x100000, whose second GUID has a wrong half,
  and with memories that the comparisons do not look at.\<close>

definition board_words :: "(u64 \<times> u64) list" where
  "board_words =
     [(0x100000, construct_dfh 3 1 0 0 0 0x100 0 0x11), (0x100008, 0x8CE57F09B3459B69),
      (0x100010, 0xDF3F3B5A300B4087), (0x100018, 0x300000), (0x100020, construct_csr_size_group 0x1000 0 1 0),
      (0x100100, construct_dfh 3 1 0 0 1 0 0 0x12), (0x100108, 0x123), (0x100110, 0xE3A2A9843F0340D0),
      (0x100118, 0x400000), (0x100120, construct_csr_size_group 0x1000 0 2 0)]"

definition board_dfh1 :: dfh where
  "board_dfh1 = \<lparr>dfh_word = construct_dfh 3 1 0 0 0 0x100 0 0x11, dfh_guid_l = 0x8CE57F09B3459B69,
     dfh_guid_h = 0xDF3F3B5A300B4087, dfh_csr_addr = 0x300000,
     dfh_csr_group = construct_csr_size_group 0x1000 0 1 0\<rparr>"

definition board_dfh2 :: dfh where
  "board_dfh2 = \<lparr>dfh_word = construct_dfh 3 1 0 0 1 0 0 0x12, dfh_guid_l = 0x123,
     dfh_guid_h = 0xE3A2A9843F0340D0, dfh_csr_addr = 0x400000,
     dfh_csr_group = construct_csr_size_group 0x1000 0 2 0\<rparr>"

definition board_tree :: dfl_level where
  "board_tree = Next_dfh board_dfh1 No_params (Last_dfh board_dfh2 No_params)"

definition board_devices :: "dev_info list" where
  "board_devices =
     [\<lparr>dev_dev = 9, dev_base_addr = 0x100000, dev_size = 0x1000000, dev_irq = -1, dev_type = 2\<rparr>,
      \<lparr>dev_dev = 1, dev_base_addr = 0xa0000, dev_size = 0x10, dev_irq = 17, dev_type = 1\<rparr>,
      \<lparr>dev_dev = 2, dev_base_addr = 0xb0000, dev_size = 0x10, dev_irq = 18, dev_type = 1\<rparr>,
      \<lparr>dev_dev = 3, dev_base_addr = 0xc0000, dev_size = 0x10, dev_irq = 19, dev_type = 1\<rparr>]"

definition nios_board :: board where
  "nios_board = \<lparr>config_board = ''niosv'', app_version_base = ''1'', git_version = ''0'',
     rom_addr = (\<lambda>d. if d = 1 then Some 0xa0000 else if d = 2 then Some 0xb0000 else Some 0xc0000),
     myip1 = 1, myip2 = 2, myip3 = 3\<rparr>"

definition pio_os :: os_env where
  "pio_os = demo_os\<lparr>os_word := (\<lambda>cs c. case c of
     Syscon_read d a \<Rightarrow> (if d = 1 then 0x7ff else 0x3ff) | _ \<Rightarrow> 0)\<rparr>"

lemma board_tree_at: "dfl_at (word_view (table_read board_words)) 0x100000 board_tree"
proof -
  have "word_view (table_read board_words) 0x100000 = Some (dfh_word board_dfh1)"
    "word_view (table_read board_words) 0x100008 = Some 0x8CE57F09B3459B69"
    "word_view (table_read board_words) 0x100010 = Some 0xDF3F3B5A300B4087"
    "word_view (table_read board_words) 0x100018 = Some 0x300000"
    "word_view (table_read board_words) 0x100020 = Some (dfh_csr_group board_dfh1)"
    "word_view (table_read board_words) 0x100100 = Some (dfh_word board_dfh2)"
    "word_view (table_read board_words) 0x100108 = Some 0x123"
    "word_view (table_read board_words) 0x100110 = Some 0xE3A2A9843F0340D0"
    "word_view (table_read board_words) 0x100118 = Some 0x400000"
    "word_view (table_read board_words) 0x100120 = Some (dfh_csr_group board_dfh2)"
    by (simp_all add: word_view_def table_read_def board_words_def board_dfh1_def board_dfh2_def join_halves)
      (simp_all add: join32_def)
  then show ?thesis
    by (simp add: board_tree_def dfh_at_def codec board_dfh1_def board_dfh2_def get_next_dfh_addr_def)
qed

lemma board_tree_fits: "tree_fits board_tree" "fuel_level board_tree \<le> 5"
  by (simp_all add: tree_fits_def board_tree_def board_dfh1_def board_dfh2_def codec)

lemma board_rows:
  "map guid_h (map guid (rows 0x100000 board_tree)) = [0xDF3F3B5A300B4087, 0xE3A2A9843F0340D0]"
  by (simp add: rows_def row_def params_result_def interface_of_def board_tree_def board_dfh1_def
      board_dfh2_def codec)

lemma board_bases: "map base_address (rows 0x100000 board_tree) = [0x400000, 0x500100]"
  by (simp add: rows_def row_def params_result_def interface_of_def board_tree_def board_dfh1_def
      board_dfh2_def codec csr_base_def get_next_dfh_addr_def)

lemma board_aligned:
  assumes "x \<in> set (rows 0x100000 board_tree)"
  shows "aligned 4 (base_address x - 0x100000)"
proof -
  have "base_address x \<in> set (map base_address (rows 0x100000 board_tree))" using assms by simp
  then show ?thesis unfolding board_bases by (auto simp: aligned_def)
qed

lemma zephyr_test_verdict_witness:
  "wp (zephyr_test_main no_interrupt_test nios_board 5 board_devices) (\<lambda>r t. r = 0)
     ((zephyr_process (table_read board_words))\<lparr>os := pio_os\<rparr>)"
proof -
  let ?s = "(zephyr_process (table_read board_words))\<lparr>os := pio_os\<rparr>"
  let ?xs = "rows 0x100000 board_tree @ map (zephyr_entry 0) (tl board_devices)"
  have len: "length (rows 0x100000 board_tree) = 2"
    using arg_cong [OF board_rows, of length] by simp
  have h: "guid_h (guid (?xs ! 0)) = 0xDF3F3B5A300B4087" "guid_h (guid (?xs ! 1)) = 0xE3A2A9843F0340D0"
    using arg_cong [OF board_rows, of "\<lambda>xs. xs ! 0"] arg_cong [OF board_rows, of "\<lambda>xs. xs ! 1"] len
    by (simp_all add: nth_append)
  have "dfl_at (dfl_view ?s) 0x100000 board_tree" using board_tree_at by (simp add: dfl_view_custom)
  then have roms: "zephyr_roms (dfl_view ?s) 5 (\<lambda>a. board_tree) 0 board_devices"
    using board_tree_fits by (simp add: zephyr_roms_def board_devices_def)
  have table: "zephyr_table (\<lambda>a. board_tree) 0 board_devices False [] = (True, True, ?xs)"
    by (simp add: board_devices_def)
  have pios: "\<forall>i \<in> {2, 3, 4}. \<not> dfl (?xs ! i)
      \<and> (\<forall>cs. \<not> os_result (os ?s) cs (Syscon_read (dev (?xs ! i)) 8) < 0
             \<and> os_word (os ?s) cs (Syscon_read (dev (?xs ! i)) 8) = (if i = 2 then 0x7ff else 0x3ff))"
    using len by (simp add: nth_append board_devices_def zephyr_entry_def pio_os_def demo_os_def)
  have ready: "scan_ready ?s"
    by (simp add: scan_ready_def allocs_ok_def vec_inv_def zephyr_process_def)
  show ?thesis
    by (rule wp_mono [OF zephyr_test_verdict [OF ready _ _ _ _ _ _ _ _ pios]])
      (use roms table len h in \<open>simp_all add: nios_board_def\<close>,
        simp_all add: board_devices_def zephyr_entry_def zero_info_def board_aligned)
qed

section \<open>The interactive part\<close>

text \<open>A table with the given interfaces, and calls among which no write to the device \<open>d\<close> is.\<close>

definition untouched ::
    "FPGA_INTERFACE_INFO list \<Rightarrow> nat \<Rightarrow> memory \<Rightarrow> os_call list \<Rightarrow> 'e zephyr_state_scheme \<Rightarrow> bool" where
  "untouched xs d m calls t \<longleftrightarrow> vec_inv t \<and> map fixed_part (vec_abs t) = map fixed_part xs \<and> mem t = m
     \<and> (\<exists>cs. os_calls t = calls @ cs \<and> (\<forall>a v. Syscon_write d a v \<notin> set cs))"

lemma untouched_called:
  assumes t: "untouched xs d m calls t" and c: "\<And>a v. c \<noteq> Syscon_write d a v"
  shows "untouched xs d m calls (called c f t)"
proof -
  from t obtain cs where cs: "os_calls t = calls @ cs" "\<forall>a v. Syscon_write d a v \<notin> set cs"
    by (auto simp: untouched_def)
  then have "os_calls (called c f t) = calls @ (cs @ [c])" "\<forall>a v. Syscon_write d a v \<notin> set (cs @ [c])"
    using c by (auto simp: called_def)
  moreover have "vec_inv (called c f t) = vec_inv t" "vec_abs (called c f t) = vec_abs t"
    "mem (called c f t) = mem t"
    using vec_cong [of "called c f t" t] by (simp_all add: called_def)
  ultimately show ?thesis using t unfolding untouched_def by metis
qed

lemma untouched_entry:
  assumes t: "untouched xs d m calls t" and i: "i < length xs" "int i \<le> INT_MAX"
  obtains x where "\<forall>Q. wp (common_fpga_interface_info_vec_at (size_t_of_int (int i))) Q t = Q x t"
    and "fixed_part x = fixed_part (xs ! i)" and "i < vec_size t" and "size_t_of_int (int i) = i"
proof -
  have inv: "vec_inv t" and fx: "map fixed_part (vec_abs t) = map fixed_part xs"
    using t by (simp_all add: untouched_def)
  have len: "length (vec_abs t) = length xs" using fx by (rule map_eq_imp_length_eq)
  then have sz: "i < vec_size t" using length_vec_abs [OF inv] i(1) by simp
  from inv sz obtain ys where ys: "vec t = Some ys" "i < length ys" "ys ! i = vec_abs t ! i"
    by (rule vec_inv_Some)
  have "fixed_part (vec_abs t ! i) = fixed_part (xs ! i)"
    using arg_cong [OF fx, of "\<lambda>zs. zs ! i"] len i(1) by simp
  moreover have "size_t_of_int (int i) = i" using i(2) by simp
  ultimately show ?thesis using that [of "vec_abs t ! i"] ys sz by (simp add: wp_vec_at)
qed

lemma fixed_same:
  assumes "fixed_part x = fixed_part y"
  shows "dfl x = dfl y" and "dev x = dev y" and "base_address x = base_address y"
  using arg_cong [OF assms, of dfl] arg_cong [OF assms, of dev] arg_cong [OF assms, of base_address]
  by (simp_all add: fixed_part_def)

lemma wp_untouched_write:
  assumes t: "untouched xs d m calls t" and i: "i < length xs" "int i \<le> INT_MAX"
    and other: "\<not> dfl (xs ! i)" "dev (xs ! i) \<noteq> d"
  shows "wp (fpga_zephyr_write_32 (int i) a v) (\<lambda>_. untouched xs d m calls) t"
proof -
  from t i obtain x where x: "\<forall>Q. wp (common_fpga_interface_info_vec_at (size_t_of_int (int i))) Q t = Q x t"
    "fixed_part x = fixed_part (xs ! i)" "i < vec_size t" "size_t_of_int (int i) = i"
    by (rule untouched_entry)
  show ?thesis
    using fixed_same [OF x(2)] other untouched_called [OF t]
    by (simp add: fpga_zephyr_write_32_def wp_eta x(1) wp_syscall_ignored)
qed

lemma wp_untouched_enable:
  fixes t :: "'e zephyr_state_scheme"
  assumes t: "untouched xs d m calls t" and i: "i < length xs" "int i \<le> INT_MAX"
  shows "wp (fpga_zephyr_enable_interrupt (int i)) (\<lambda>_. untouched xs d m calls) t"
proof -
  from t i obtain x where x: "\<forall>Q. wp (common_fpga_interface_info_vec_at (size_t_of_int (int i))) Q t = Q x t"
    and "fixed_part x = fixed_part (xs ! i)" and sz: "i < vec_size t" and w: "size_t_of_int (int i) = i"
    by (rule untouched_entry)
  have at: "wp (common_fpga_interface_info_vec_at i) Q t = Q x t" for Q using x w by metis
  have upd: "wp (vec_upd i (\<lambda>x. x\<lparr>interrupt_enable := True\<rparr>)) (\<lambda>_. untouched xs d m calls) u"
    if u: "untouched xs d m calls u" "i < vec_size u" for u :: "'e zephyr_state_scheme"
  proof -
    have inv: "vec_inv u" using u(1) by (simp add: untouched_def)
    show ?thesis
    proof (rule wp_mono [OF wp_irq_upd [OF inv u(2)]])
      fix y and v :: "'e zephyr_state_scheme"
      assume v: "table_kept u v \<and> held v = held u"
      then obtain w where "v = u\<lparr>g_common_fpga_interface_info_vec := w\<rparr>" by (auto simp: table_kept_def)
      with u(1) v show "untouched xs d m calls v" by (simp add: untouched_def table_kept_def)
    qed (simp_all add: fixed_part_def)
  qed
  show ?thesis
  proof (cases "valid_handle (int i) (vec_size t) \<and> \<not> interrupt_enable x \<and> 0 \<le> irq x")
    case True
    then show ?thesis
      using upd [OF untouched_called [OF t]] sz
      by (simp add: fpga_zephyr_enable_interrupt_def wp_eta wp_vec_size at w wp_syscall_ignored wp_ret_eta)
  next
    case False
    with t show ?thesis
      by (auto simp: fpga_zephyr_enable_interrupt_def wp_eta wp_vec_size at w wp_ret)
  qed
qed

text \<open>C26: The interactive part of the Zephyr test program, where it clears the edge capture registers before
  it enables the interrupts again.  With the first interface from the list and the PIO block of the
  first ISR at handle 2, the constant handle 0 of the first write makes it overwrite four bytes of the
  first memory; no write reaches the block at handle 2, so that an edge captured meanwhile is still
  there when its interrupt is enabled.\<close>

theorem zephyr_test_wrong_register:
  assumes "vec_inv s" and "vec_abs s = xs" and "length xs = 5"
    and "mapped (mem s) (base_address (xs ! 0) - s_zephyr_dfl_addr s + 0xc) 4"
    and "aligned 4 (base_address (xs ! 0) - s_zephyr_dfl_addr s)"
    and "dfl (xs ! 0)" and "\<forall>i \<in> {3, 4}. \<not> dfl (xs ! i) \<and> dev (xs ! i) \<noteq> dev (xs ! 2)"
  shows "wp (clear_edge_captures 2 3 4) (\<lambda>_ t.
      mem t = store_bytes (mem s) (base_address (xs ! 0) - s_zephyr_dfl_addr s + 0xc) (bytes_le 4 (0xffffffff :: u32))
      \<and> (\<exists>cs. os_calls t = os_calls s @ cs \<and> (\<forall>a v. Syscon_write (dev (xs ! 2)) a v \<notin> set cs))) s"
proof -
  let ?a = "base_address (xs ! 0) - s_zephyr_dfl_addr s + 0xc"
  let ?m = "store_bytes (mem s) ?a (bytes_le 4 (0xffffffff :: u32))"
  let ?U = "untouched xs (dev (xs ! 2)) ?m (os_calls s)"
  have start: "untouched xs (dev (xs ! 2)) (mem s) (os_calls s) s" using assms(1,2) by (simp add: untouched_def)
  obtain x where x: "\<forall>Q. wp (common_fpga_interface_info_vec_at 0) Q s = Q x s" "fixed_part x = fixed_part (xs ! 0)"
    using untouched_entry [OF start, of 0] assms(3) by auto
  from mapped_load [OF assms(4), of 0 4] obtain bs where "load_bytes (mem s) ?a 4 = Some bs" by auto
  moreover have "aligned 4 ?a" using aligned_sum [OF assms(5), of "0xc"] by simp
  ultimately have first: "wp (fpga_zephyr_write_32 0 PIO_EDGECAPTURE_REG_OFFSET 0xffffffff) (\<lambda>_. ?U) s"
    using fixed_same [OF x(2)] assms(1,2,6) vec_cong [of "s\<lparr>mem := ?m, bus := ev\<rparr>" s for ev]
    by (simp add: fpga_zephyr_write_32_def fpga_zephyr_get_base_address_def zephyr_dfl_base_addr_decoder_def
        wp_eta size_t_of_int_def x(1) wp_gets wp_ret_eta wp_ret bus_write_def wp_modify wp_require untouched_def
        PIO_EDGECAPTURE_REG_OFFSET_def)
  have enable: "wp (fpga_zephyr_enable_interrupt h) (\<lambda>_. ?U) t" if "?U t" "h \<in> {2, 3, 4}" for h t
    using that wp_untouched_enable [OF that(1), of "nat h"] assms(3) by auto
  have wr: "wp (fpga_zephyr_write_32 h a v) (\<lambda>_. ?U) t" if "?U t" "h \<in> {3, 4}" for h a v t
    using that wp_untouched_write [OF that(1), of "nat h"] assms(3,7) by auto
  have "wp (clear_edge_captures 2 3 4) (\<lambda>_. ?U) s"
    unfolding clear_edge_captures_def
    by (auto simp: INVALID_HANDLE_def wp_ret intro!: wp_thn_then [OF first] wp_bnd_then [OF enable]
        wp_thn_then [where P = ?U] wr)
  then show ?thesis by (rule wp_mono) (simp add: untouched_def)
qed

text \<open>The program on its board, after the first part.\<close>

definition test_board_table :: "FPGA_INTERFACE_INFO list" where
  "test_board_table =
     [zero_info\<lparr>base_address := 0x400000, dfl := True, is_mmio_opened := True\<rparr>,
      zero_info\<lparr>base_address := 0x500000, dfl := True, is_mmio_opened := True\<rparr>,
      zero_info\<lparr>base_address := 0xa0000, dev := 1, irq := 17, is_mmio_opened := True\<rparr>,
      zero_info\<lparr>base_address := 0xb0000, dev := 2, irq := 18, is_mmio_opened := True\<rparr>,
      zero_info\<lparr>base_address := 0xc0000, dev := 3, irq := 19, is_mmio_opened := True\<rparr>]"

definition test_board :: zephyr_state where
  "test_board = (zephyr_process (\<lambda>a. 0))
     \<lparr>g_common_fpga_interface_info_vec := Some test_board_table,
      g_common_fpga_interface_info_vec_size := 5, g_common_fpga_interface_info_vec_reserved := 5,
      s_zephyr_dfl_addr := 0x100000, s_zephyr_dfl_found := True\<rparr>"

lemma zephyr_test_wrong_register_witness:
  "wp (clear_edge_captures 2 3 4) (\<lambda>_ t. mem t 0x30000c = Some 0xff
     \<and> (\<forall>a v. Syscon_write 1 a v \<notin> set (os_calls t))) test_board"
proof -
  have s: "vec_inv test_board" "vec_abs test_board = test_board_table" "length test_board_table = 5"
    by (simp_all add: test_board_def test_board_table_def vec_inv_def vec_abs_def info_ok_def zephyr_process_def)
  show ?thesis
    by (rule wp_mono [OF zephyr_test_wrong_register [OF s]])
      (auto simp: test_board_def test_board_table_def zephyr_process_def store_bytes_def bytes_le_def
        mapped_def aligned_def)
qed

text \<open>The interactive part does not come back.\<close>

definition endless :: "('a, 's) prog \<Rightarrow> bool" where
  "endless p \<longleftrightarrow> (\<forall>s x t. p s \<noteq> Ret x t)"

lemma endless_seq:
  "endless q \<Longrightarrow> endless (thn p q)" "(\<And>x. endless (f x)) \<Longrightarrow> endless (bnd p f)"
  by (auto simp: endless_def run_thn run_bnd split: outcome.splits)

lemma tick_forever_endless: "endless (tick_forever seconds)"
  by (induction seconds) (simp add: endless_def run_rules, simp add: endless_seq)

lemma interrupt_test_endless: "endless (interrupt_test p1 p2 p3 seconds h h' h'')"
  unfolding interrupt_test_def by (intro endless_seq tick_forever_endless)

end
