(* ===== verification/C_Heap.thy ===== *)
theory C_Heap
  imports Platform_Table
begin

text \<open>
  \<open>malloc\<close>, \<open>memset\<close> and \<open>free\<close> on blocks of bytes that are used as register windows, so that their
  addresses matter.  The answers of \<open>malloc\<close> come from the environment; which blocks are live is a
  function of the calls made so far.  A block is a part of \<open>mem\<close> while it is live, and \<open>free\<close> of
  anything but the address of a live block is undefined.
\<close>

section \<open>Live blocks\<close>

text \<open>The addresses of the live blocks, with their sizes.\<close>

type_synonym blocks = "u64 \<Rightarrow> u64 option"

definition heap_step :: "os_env \<Rightarrow> os_call list \<Rightarrow> os_call \<Rightarrow> blocks \<Rightarrow> blocks" where
  "heap_step osys cs c B =
     (case c of
        Malloc n \<Rightarrow> (let p = os_pointer osys cs c in if p = 0 then B else B(p \<mapsto> n))
      | Free p \<Rightarrow> B(p := None)
      | _ \<Rightarrow> B)"

fun heap_after :: "os_env \<Rightarrow> os_call list \<Rightarrow> os_call list \<Rightarrow> blocks \<Rightarrow> blocks" where
  "heap_after osys made [] B = B"
| "heap_after osys made (c # cs) B = heap_after osys (made @ [c]) cs (heap_step osys made c B)"

definition heap_blocks :: "'e os_state_scheme \<Rightarrow> blocks" where
  "heap_blocks s = heap_after (os s) [] (os_calls s) Map.empty"

lemma heap_after_append:
  "heap_after osys made (cs @ ds) B = heap_after osys (made @ cs) ds (heap_after osys made cs B)"
  by (induction cs arbitrary: made B) simp_all

lemma heap_blocks_step:
  assumes "os t = os s" and "os_calls t = os_calls s @ [c]"
  shows "heap_blocks t = heap_step (os s) (os_calls s) c (heap_blocks s)"
  using assms by (simp add: heap_blocks_def heap_after_append)

text \<open>Other calls do not change the heap.\<close>

fun heap_call :: "os_call \<Rightarrow> bool" where
  "heap_call (Malloc n) = True"
| "heap_call (Free p) = True"
| "heap_call c = False"

lemma heap_after_other: "list_all (\<lambda>c. \<not> heap_call c) cs \<Longrightarrow> heap_after osys made cs B = B"
  by (induction cs arbitrary: made) (auto simp: heap_step_def split: os_call.split)

lemma heap_blocks_other:
  assumes "os t = os s" and "os_calls t = os_calls s @ cs" and "list_all (\<lambda>c. \<not> heap_call c) cs"
  shows "heap_blocks t = heap_blocks s"
  using assms by (simp add: heap_blocks_def heap_after_append heap_after_other)

section \<open>Bytes of a block\<close>

definition fill :: "memory \<Rightarrow> u64 \<Rightarrow> u64 \<Rightarrow> u8 option \<Rightarrow> memory" where
  "fill m p n b = (\<lambda>a. if a - p < n then b else m a)"

lemma fill_fill [simp]: "fill (fill m p n b) p n c = fill m p n c"
  by (simp add: fill_def fun_eq_iff)

lemma fill_same: "(\<And>a. a - p < n \<Longrightarrow> m a = b) \<Longrightarrow> fill m p n b = m"
  by (simp add: fill_def fun_eq_iff)

section \<open>The functions\<close>

text \<open>A fresh block has some contents.\<close>

definition malloc :: "u64 \<Rightarrow> ('e, u64) osp" where
  "malloc n =
     bnd (gets (\<lambda>s. os_pointer (os s) (os_calls s) (Malloc n))) (\<lambda>p.
     bnd (gets (\<lambda>s. os_errno (os s) (os_calls s) (Malloc n))) (\<lambda>en.
     thn (record_call (Malloc n))
    (thn (if p = 0 then modify (\<lambda>s. s\<lparr>errno := en\<rparr>)
          else modify (\<lambda>s. s\<lparr>mem := fill (mem s) p n (Some (ucast (env_junk_word (env s))))\<rparr>))
         (ret p))))"

fun memset_loop :: "nat \<Rightarrow> u64 \<Rightarrow> u8 \<Rightarrow> ('e, unit) osp" where
  "memset_loop 0 p b = ret ()"
| "memset_loop (Suc k) p b =
     bnd (gets mem) (\<lambda>m.
     case m p of
       None \<Rightarrow> halt (Undefined_behaviour Unmapped_address)
     | Some _ \<Rightarrow> thn (modify (\<lambda>s. s\<lparr>mem := m(p \<mapsto> b)\<rparr>)) (memset_loop k (p + 1) b))"

definition memset :: "u64 \<Rightarrow> u8 \<Rightarrow> u64 \<Rightarrow> ('e, unit) osp" where
  "memset p b n = thn (require Null_dereference (p \<noteq> 0)) (memset_loop (unat n) p b)"

definition free :: "u64 \<Rightarrow> ('e, unit) osp" where
  "free p =
     (if p = 0 then ret ()
      else
        bnd (gets heap_blocks) (\<lambda>B.
        case B p of
          None \<Rightarrow> halt (Undefined_behaviour Invalid_free)
        | Some n \<Rightarrow> thn (record_call (Free p)) (modify (\<lambda>s. s\<lparr>mem := fill (mem s) p n None\<rparr>))))"

section \<open>What they do\<close>

lemma wp_memset_loop:
  fixes s :: "'e os_state_scheme"
  assumes "\<And>i. i < k \<Longrightarrow> mem s (p + of_nat i) \<noteq> None" and "k < 2 ^ 64"
  shows "wp (memset_loop k p b) Q s = Q () (s\<lparr>mem := (\<lambda>a. if unat (a - p) < k then Some b else mem s a)\<rparr>)"
  using assms
proof (induction k arbitrary: p s)
  case 0
  show ?case by (simp add: wp_ret)
next
  case (Suc k)
  let ?t = "s\<lparr>mem := (mem s)(p \<mapsto> b)\<rparr>"
  obtain c where c: "mem s p = Some c" using Suc.prems(1) [of 0] by auto
  have "mem ?t (p + 1 + of_nat i) \<noteq> None" if "i < k" for i
    using Suc.prems(1) [of "Suc i"] that by (simp add: add.assoc)
  note IH = Suc.IH [of ?t "p + 1", OF this]
  have "unat (a - p) < Suc k \<longleftrightarrow> a = p \<or> unat (a - (p + 1)) < k" for a
  proof (cases "a = p")
    case False
    then have "a - p \<noteq> 0" by simp
    then have "unat (a - p - 1) = unat (a - p) - 1" and "0 < unat (a - p)"
      by (simp_all add: unat_minus_one unat_gt_0)
    then show ?thesis using False by (auto simp: algebra_simps)
  qed simp
  then have "(\<lambda>a. if unat (a - (p + 1)) < k then Some b else mem ?t a)
      = (\<lambda>a. if unat (a - p) < Suc k then Some b else mem s a)"
    by (auto simp: fun_eq_iff)
  with IH Suc.prems(2) c show ?case by (simp add: wp_bnd wp_gets wp_thn wp_modify)
qed

lemma wp_memset:
  fixes s :: "'e os_state_scheme"
  assumes "p \<noteq> 0" and "\<And>a. a - p < n \<Longrightarrow> mem s a \<noteq> None"
  shows "wp (memset p b n) Q s = Q () (s\<lparr>mem := fill (mem s) p n (Some b)\<rparr>)"
proof -
  have "unat n < 2 ^ LENGTH(64)" by (rule unsigned_less)
  then have small: "unat n < 2 ^ 64" by simp
  have "mem s (p + of_nat i) \<noteq> None" if "i < unat n" for i
  proof (rule assms(2))
    have "i < 2 ^ 64" using that small by simp
    then have "unat (of_nat i :: u64) = i" by (simp add: unat_of_nat)
    with that show "p + of_nat i - p < n" by (simp add: word_less_nat_alt)
  qed
  then show ?thesis
    using assms(1) small
    by (simp add: memset_def wp_thn wp_require wp_memset_loop fill_def word_less_nat_alt)
qed

lemma wp_block_malloc:
  fixes s :: "'e os_state_scheme"
  assumes "os_pointer (os s) (os_calls s) (Malloc n) = p" and "p \<noteq> 0"
  shows "wp (malloc n) Q s = Q p (s\<lparr>os_calls := os_calls s @ [Malloc n],
      mem := fill (mem s) p n (Some (ucast (env_junk_word (env s))))\<rparr>)"
  using assms by (simp add: malloc_def wp_eta wp_gets record_call_def wp_modify wp_ret_eta)

lemma run_block_malloc_null:
  fixes s :: "'e os_state_scheme"
  assumes "os_pointer (os s) (os_calls s) (Malloc n) = 0"
  shows "malloc n s = Ret 0 (s\<lparr>os_calls := os_calls s @ [Malloc n],
      errno := os_errno (os s) (os_calls s) (Malloc n)\<rparr>)"
  using assms by (simp add: malloc_def run_rules record_call_def)

lemma wp_block_free:
  fixes s :: "'e os_state_scheme"
  assumes "heap_blocks s p = Some n" and "p \<noteq> 0"
  shows "wp (free p) Q s = Q () (s\<lparr>os_calls := os_calls s @ [Free p], mem := fill (mem s) p n None\<rparr>)"
  using assms by (simp add: free_def wp_bnd wp_gets wp_thn record_call_def wp_modify)

end
