(* ===== verification/Sw_Model.thy ===== *)
theory Sw_Model
  imports C_Heap Uio_Session Devmem_Session Zephyr_Session
begin

text \<open>
  The builds for the unit tests, with \<open>UIO_UNIT_TEST_SW_MODEL_MODE\<close>, \<open>DEVMEM_UNIT_TEST_SW_MODEL_MODE\<close>
  or \<open>ZEPHYR_UNIT_TEST_SW_MODEL_MODE\<close>: no driver is opened, and a heap block with all bits set stands
  for the registers of the one interface.  The three functions \<open>*_create_unit_test_sw_model\<close> have the same text,
  as have the parts of the three cleanups that free the block.
\<close>

section \<open>The block\<close>

definition create_unit_test_sw_model :: "u64 \<Rightarrow> ('e, bool) osp" where
  "create_unit_test_sw_model span =
     thn (common_fpga_interface_info_vec_resize 1)
    (bnd (malloc span) (\<lambda>p.
     thn (vec_upd 0 (\<lambda>x. x\<lparr>base_address := p\<rparr>))
    (bnd (common_fpga_interface_info_vec_at 0) (\<lambda>x.
     thn (memset (base_address x) 0xFF span)
         (ret True)))))"

definition release_sw_model :: "('e, unit) osp" where
  "release_sw_model =
     bnd common_fpga_interface_info_vec_size (\<lambda>n.
     if n > 0 then
       bnd (common_fpga_interface_info_vec_at 0) (\<lambda>x.
       thn (free (base_address x))
           (common_fpga_interface_info_vec_resize 0))
     else ret ())"

section \<open>UIO\<close>

definition uio_create_unit_test_sw_model :: "('e, bool) uio" where
  "uio_create_unit_test_sw_model = bnd (gets s_uio_addr_span) create_unit_test_sw_model"

text \<open>\<open>uio_update_based_on_sysfs\<close> is empty in this build.\<close>

definition uio_sw_platform_init :: "string list \<Rightarrow> ('e, bool) uio" where
  "uio_sw_platform_init args =
     thn (uio_parse_args args)
    (bnd uio_validate_args (\<lambda>is_args_valid.
     thn (modify (\<lambda>s. s\<lparr>s_uio_inThread_timeout := 100\<rparr>))
         (if is_args_valid then
            thn uio_print_configuration
           (bnd uio_create_unit_test_sw_model (\<lambda>ok.
            if \<not> ok then ret False
            else
              bnd (gets s_uio_single_component_mode) (\<lambda>single.
              if single \<noteq> 0 then bnd uio_create_interrupt_thread (\<lambda>created. ret True)
              else ret True)))
          else ret False)))"

definition uio_sw_platform_cleanup :: "('e, unit) uio" where
  "uio_sw_platform_cleanup =
     bnd (gets s_intThread_id) (\<lambda>tid.
     thn (if tid \<noteq> 0 then stop_interrupt_thread tid else ret ())
    (bnd (gets s_uio_drv_handle) (\<lambda>fd.
     thn (if fd \<ge> 0 then syscall_ignored (Close fd) else ret ())
    (thn (modify (\<lambda>s. s\<lparr>s_uio_drv_path := None, s_uio_start_addr := 0, s_uio_addr_span := 0,
                        s_uio_single_component_mode := 0, s_uio_drv_handle := -1,
                        s_uio_mmap_ptr := 0\<rparr>))
    (thn release_sw_model
    (thn (modify (\<lambda>s. s\<lparr>errno := -1\<rparr>))
         (debug_line ''Completed fpga_platform_cleanup'' [])))))))"

section \<open>Devmem\<close>

definition devmem_create_unit_test_sw_model :: "('e, bool) devmem" where
  "devmem_create_unit_test_sw_model = bnd (gets s_devmem_addr_span) create_unit_test_sw_model"

definition devmem_sw_platform_init :: "string list \<Rightarrow> ('e, bool) devmem" where
  "devmem_sw_platform_init args =
     thn (devmem_parse_args args)
    (bnd devmem_validate_args (\<lambda>is_args_valid.
     if is_args_valid then thn devmem_print_configuration devmem_create_unit_test_sw_model
     else ret False))"

definition devmem_sw_platform_cleanup :: "('e, unit) devmem" where
  "devmem_sw_platform_cleanup =
     bnd (gets s_devmem_drv_handle) (\<lambda>fd.
     thn (if fd \<ge> 0 then syscall_ignored (Close fd) else ret ())
    (thn (modify (\<lambda>s. s\<lparr>s_devmem_start_addr := 0, s_devmem_addr_span := 0,
                        s_devmem_single_component_mode := 1, s_devmem_drv_handle := -1,
                        s_devmem_mmap_ptr := 0\<rparr>))
    (thn release_sw_model
    (thn (modify (\<lambda>s. s\<lparr>errno := -1\<rparr>))
         (debug_line ''Completed fpga_platform_cleanup'' [])))))"

section \<open>Zephyr\<close>

definition zephyr_create_unit_test_sw_model :: "('e, bool) zephyr" where
  "zephyr_create_unit_test_sw_model = bnd (gets s_zephyr_addr_span) create_unit_test_sw_model"

definition zephyr_sw_validate_args :: "('e, bool) zephyr" where
  "zephyr_sw_validate_args =
     bnd (gets s_zephyr_addr_span) (\<lambda>span.
     thn (if span = 0 then
            error_line ''No valid address span value is provided using the argument, --address-span.'' []
          else ret ())
         (ret (span > 0)))"

definition zephyr_sw_platform_init :: "opt_event list \<Rightarrow> ('e, bool) zephyr" where
  "zephyr_sw_platform_init options =
     thn (zephyr_parse_args options)
    (bnd zephyr_sw_validate_args (\<lambda>is_args_valid.
     if is_args_valid then zephyr_create_unit_test_sw_model else ret False))"

definition zephyr_sw_platform_cleanup :: "('e, unit) zephyr" where
  "zephyr_sw_platform_cleanup =
     thn (modify (\<lambda>s. s\<lparr>s_zephyr_start_addr := 0, s_zephyr_addr_span := 0,
                       s_zephyr_single_component_mode := 0, s_zephyr_mmap_ptr := 0\<rparr>))
    (thn release_sw_model
    (thn (modify (\<lambda>s. s\<lparr>errno := -1\<rparr>))
         (debug_line ''Completed fpga_platform_cleanup'' [])))"

section \<open>Creation and release of the block\<close>

text \<open>The parts of the state that both may change.\<close>

definition sw_same :: "'e os_state_scheme \<Rightarrow> 'e os_state_scheme \<Rightarrow> bool" where
  "sw_same s t \<longleftrightarrow> (\<exists>v n r l al m cs. t = s\<lparr>g_common_fpga_interface_info_vec := v,
      g_common_fpga_interface_info_vec_size := n, g_common_fpga_interface_info_vec_reserved := r,
      live := l, alloc_no := al, mem := m, os_calls := cs\<rparr>)"

lemma sw_sameD:
  "sw_same s t \<Longrightarrow> os t = os s \<and> env t = env s \<and> can_print t = can_print s \<and> errno t = errno s
     \<and> out t = out s \<and> os_state.more t = os_state.more s"
  by (auto simp: sw_same_def can_print_def)

lemma sw_same_trans:
  assumes "sw_same s t" and "sw_same t u"
  shows "sw_same s u"
proof -
  obtain v n r l al m cs where t: "t = s\<lparr>g_common_fpga_interface_info_vec := v,
      g_common_fpga_interface_info_vec_size := n, g_common_fpga_interface_info_vec_reserved := r,
      live := l, alloc_no := al, mem := m, os_calls := cs\<rparr>"
    using assms(1) unfolding sw_same_def by blast
  obtain v' n' r' l' al' m' cs' where "u = t\<lparr>g_common_fpga_interface_info_vec := v',
      g_common_fpga_interface_info_vec_size := n', g_common_fpga_interface_info_vec_reserved := r',
      live := l', alloc_no := al', mem := m', os_calls := cs'\<rparr>"
    using assms(2) unfolding sw_same_def by blast
  with t have "u = s\<lparr>g_common_fpga_interface_info_vec := v',
      g_common_fpga_interface_info_vec_size := n', g_common_fpga_interface_info_vec_reserved := r',
      live := l', alloc_no := al', mem := m', os_calls := cs'\<rparr>" by simp
  then show ?thesis unfolding sw_same_def by blast
qed

lemma sw_same_step:
  "sw_same s (s\<lparr>os_calls := cs, mem := m\<rparr>)" "sw_same s (s\<lparr>g_common_fpga_interface_info_vec := v, mem := m\<rparr>)"
  "sw_same s (resized k s)"
  unfolding sw_same_def by (cases s; auto simp: resized_def)+

text \<open>What the creation leaves: one entry, on a block whose bytes are all ones.\<close>

definition sw_created :: "u64 \<Rightarrow> u64 \<Rightarrow> 'e os_state_scheme \<Rightarrow> 'e os_state_scheme \<Rightarrow> bool" where
  "sw_created p span s t \<longleftrightarrow> vec_inv t \<and> vec_abs t = [single_entry p]
     \<and> live t - vec_blocks t = live s - vec_blocks s \<and> mem t = fill (mem s) p span (Some 0xFF)
     \<and> os_calls t = os_calls s @ [Malloc span] \<and> sw_same s t"

text \<open>The entry and its block, before the address is entered.\<close>

lemma wp_sw_block:
  fixes s :: "'e os_state_scheme"
  assumes inv: "vec_inv s" and empty: "vec_abs s = []" and ok: "allocs_ok s"
    and p: "os_pointer (os s) (os_calls s) (Malloc span) = p" "p \<noteq> 0"
  shows "wp (thn (common_fpga_interface_info_vec_resize 1) (malloc span)) (\<lambda>r u. r = p \<and> vec_inv u
      \<and> vec_abs u = [zero_info] \<and> vec_size u = 1 \<and> live u - vec_blocks u = live s - vec_blocks s
      \<and> (\<exists>b. mem u = fill (mem s) p span (Some b)) \<and> os_calls u = os_calls s @ [Malloc span]
      \<and> sw_same s u) s"
proof -
  let ?r = "resized 1 s"
  let ?u = "?r\<lparr>os_calls := os_calls s @ [Malloc span],
      mem := fill (mem s) p span (Some (ucast (env_junk_word (env s))))\<rparr>"
  have r: "os ?r = os s" "os_calls ?r = os_calls s" "mem ?r = mem s" "env ?r = env s"
    by (simp_all add: resized_def)
  have u: "vec_inv ?u" "vec_abs ?u = [zero_info]" "vec_size ?u = 1" "vec_blocks ?u = vec_blocks ?r"
    using vec_cong [of ?u ?r] resized_inv [OF inv] resized_abs [OF inv, of 1] empty
    by (simp_all add: resized_vec list_resize_def)
  have "live ?u - vec_blocks ?u = live s - vec_blocks s"
    using resized_live [OF inv, of 1] u(4) by simp
  moreover have "sw_same s ?u" by (rule sw_same_trans [OF sw_same_step(3) sw_same_step(1)])
  moreover have "mem ?u = fill (mem s) p span (Some (ucast (env_junk_word (env s))))"
    "os_calls ?u = os_calls s @ [Malloc span]" by simp_all
  ultimately have "r = p \<and> vec_inv ?u \<and> vec_abs ?u = [zero_info] \<and> vec_size ?u = 1
      \<and> live ?u - vec_blocks ?u = live s - vec_blocks s
      \<and> (\<exists>b. mem ?u = fill (mem s) p span (Some b)) \<and> os_calls ?u = os_calls s @ [Malloc span]
      \<and> sw_same s ?u" if "r = p" for r
    using u that by blast
  with wp_block_malloc [of ?r span p] p r show ?thesis
    by (simp only: wp_thn wp_resize_ok [OF inv ok] simp_thms)
qed

text \<open>The address is entered and the block filled.\<close>

lemma wp_sw_fill:
  fixes u :: "'e os_state_scheme"
  assumes u: "vec_inv u" "vec_abs u = [zero_info]" "vec_size u = 1"
    and m: "\<And>a. a - p < span \<Longrightarrow> mem u a \<noteq> None" "p \<noteq> 0"
  shows "wp (thn (vec_upd 0 (\<lambda>x. x\<lparr>base_address := p\<rparr>))
    (bnd (common_fpga_interface_info_vec_at 0) (\<lambda>x.
     thn (memset (base_address x) 0xFF span) (ret True)))) (\<lambda>r t. r \<and> vec_inv t
      \<and> vec_abs t = [single_entry p] \<and> vec_blocks t = vec_blocks u \<and> live t = live u
      \<and> os_calls t = os_calls u \<and> mem t = fill (mem u) p span (Some 0xFF) \<and> sw_same u t) u"
proof (rule wp_thn_then [OF vec_upd_abs [OF u(1)]])
  fix t :: "'e os_state_scheme"
  assume t: "vec_inv t \<and> vec_abs t = (vec_abs u)[0 := (vec_abs u ! 0)\<lparr>base_address := p\<rparr>]
    \<and> vec_size t = vec_size u \<and> vec_blocks t = vec_blocks u
    \<and> t = u\<lparr>g_common_fpga_interface_info_vec := vec t\<rparr>"
  then obtain v where v: "t = u\<lparr>g_common_fpga_interface_info_vec := v\<rparr>" by metis
  have abs: "vec_inv t" "vec_abs t = [single_entry p]" "vec_size t = 1" "vec_blocks t = vec_blocks u"
    using t u by (simp_all add: single_entry_def)
  obtain xs where xs: "vec t = Some xs" "0 < length xs" "xs ! 0 = single_entry p"
    using vec_inv_Some [OF abs(1), of 0] abs by auto
  let ?w = "t\<lparr>mem := fill (mem t) p span (Some 0xFF)\<rparr>"
  have w: "vec_inv ?w = vec_inv t" "vec_abs ?w = vec_abs t" "vec_blocks ?w = vec_blocks t"
    using vec_cong [of ?w t] by simp_all
  have tm: "mem t = mem u" "os_calls t = os_calls u" "live t = live u" by (simp_all add: v)
  have "?w = u\<lparr>g_common_fpga_interface_info_vec := v, mem := fill (mem t) p span (Some 0xFF)\<rparr>"
    unfolding v by simp
  then have "sw_same u ?w" using sw_same_step(2) by metis
  with xs abs w tm m show "wp (bnd (common_fpga_interface_info_vec_at 0) (\<lambda>x.
     thn (memset (base_address x) 0xFF span) (ret True))) (\<lambda>r t. r \<and> vec_inv t
      \<and> vec_abs t = [single_entry p] \<and> vec_blocks t = vec_blocks u \<and> live t = live u
      \<and> os_calls t = os_calls u \<and> mem t = fill (mem u) p span (Some 0xFF) \<and> sw_same u t) t"
    by (simp add: wp_bnd wp_vec_at wp_thn single_entry_def wp_memset wp_ret)
qed (simp_all add: u(3) del: One_nat_def)

lemma wp_create_sw_model:
  fixes s :: "'e os_state_scheme"
  assumes "vec_inv s" and "vec_abs s = []" and "allocs_ok s"
    and p: "os_pointer (os s) (os_calls s) (Malloc span) = p" "p \<noteq> 0"
  shows "wp (create_unit_test_sw_model span) (\<lambda>r t. r \<and> sw_created p span s t) s"
proof -
  have "wp (bnd (thn (common_fpga_interface_info_vec_resize 1) (malloc span)) (\<lambda>p.
      thn (vec_upd 0 (\<lambda>x. x\<lparr>base_address := p\<rparr>))
     (bnd (common_fpga_interface_info_vec_at 0) (\<lambda>x.
      thn (memset (base_address x) 0xFF span) (ret True))))) (\<lambda>r t. r \<and> sw_created p span s t) s"
  proof (rule wp_bnd_then [OF wp_sw_block [OF assms]])
    fix r and u :: "'e os_state_scheme"
    assume u: "r = p \<and> vec_inv u \<and> vec_abs u = [zero_info] \<and> vec_size u = 1
      \<and> live u - vec_blocks u = live s - vec_blocks s
      \<and> (\<exists>b. mem u = fill (mem s) p span (Some b)) \<and> os_calls u = os_calls s @ [Malloc span]
      \<and> sw_same s u"
    then have "mem u a \<noteq> None" if "a - p < span" for a using that by (auto simp: fill_def)
    with u show "wp (thn (vec_upd 0 (\<lambda>x. x\<lparr>base_address := r\<rparr>))
      (bnd (common_fpga_interface_info_vec_at 0) (\<lambda>x.
       thn (memset (base_address x) 0xFF span) (ret True)))) (\<lambda>r t. r \<and> sw_created p span s t) u"
      using sw_same_trans [of s u] p(2)
      by (auto simp: sw_created_def intro!: wp_mono [OF wp_sw_fill] simp del: One_nat_def)
  qed
  then show ?thesis
    by (simp add: create_unit_test_sw_model_def thn_def bnd_assoc del: One_nat_def)
qed

lemma wp_release_sw_model:
  fixes s :: "'e os_state_scheme"
  assumes inv: "vec_inv s" and x: "vec_abs s = [x]" "base_address x = p"
    and p: "heap_blocks s p = Some n" "p \<noteq> 0"
  shows "wp release_sw_model (\<lambda>_ t. vec t = None \<and> vec_size t = 0 \<and> vec_inv t
      \<and> live t = live s - vec_blocks s \<and> mem t = fill (mem s) p n None
      \<and> os_calls t = os_calls s @ [Free p] \<and> sw_same s t) s"
proof -
  let ?u = "s\<lparr>os_calls := os_calls s @ [Free p], mem := fill (mem s) p n None\<rparr>"
  have n: "vec_size s = 1" using x(1) length_vec_abs [OF inv] by simp
  with inv x obtain xs where xs: "vec s = Some xs" "0 < length xs" "xs ! 0 = x"
    using vec_inv_Some [OF inv, of 0] by auto
  have u: "vec_inv ?u" "vec_blocks ?u = vec_blocks s" using vec_cong [of ?u s] inv by simp_all
  have live: "live (resized 0 ?u) = live s - vec_blocks s"
    using resized_live [OF u(1), of 0] vec_blocks_abs [of "resized 0 ?u"] u(2) by (simp add: resized_vec)
  have "sw_same s (resized 0 ?u)" by (rule sw_same_trans [OF sw_same_step(1,3)])
  moreover have "mem (resized 0 ?u) = mem ?u" "os_calls (resized 0 ?u) = os_calls ?u"
    by (simp_all add: resized_def)
  ultimately show ?thesis
    using n xs x(2) live
    by (simp add: release_sw_model_def wp_bnd wp_vec_size wp_vec_at wp_thn wp_block_free [OF p]
        wp_resize_0 [OF u(1)] resized_vec resized_inv [OF u(1)])
qed

text \<open>A block that was created and is not freed yet.\<close>

lemma heap_after_create:
  assumes "os_pointer (os s) (os_calls s) (Malloc n) = p" and "p \<noteq> 0"
    and "os t = os s" and "os_calls t = os_calls s @ [Malloc n] @ cs" and "list_all (\<lambda>c. \<not> heap_call c) cs"
  shows "heap_blocks t = (heap_blocks s)(p \<mapsto> n)"
  using assms
  by (simp add: heap_blocks_def heap_after_append heap_after_other heap_step_def)

lemma heap_after_release:
  assumes "os t = os s" and "os_calls t = os_calls s @ [Free p]"
  shows "heap_blocks t = (heap_blocks s)(p := None)"
  using heap_blocks_step [OF assms] by (simp add: heap_step_def)

end
