(* ===== verification/Sw_Properties.thy ===== *)
theory Sw_Properties
  imports Sw_Model Session_Properties
begin

text \<open>
  The life of an application on the builds with the unit-test software model.
\<close>

section \<open>Initialisation and cleanup on UIO\<close>

lemma uio_more:
  fixes s t :: "'e uio_state_scheme"
  assumes "os_state.more t = os_state.more s"
  shows "s_uio_drv_path t = s_uio_drv_path s" "s_uio_start_addr t = s_uio_start_addr s"
    "s_uio_addr_span t = s_uio_addr_span s" "s_uio_single_component_mode t = s_uio_single_component_mode s"
    "s_uio_drv_handle t = s_uio_drv_handle s" "s_uio_mmap_ptr t = s_uio_mmap_ptr s"
    "s_intThread_id t = s_intThread_id s"
  using assms by (cases s; cases t; simp)+

definition uio_sw_bring_up :: "('e, bool) uio" where
  "uio_sw_bring_up =
     bnd uio_create_unit_test_sw_model (\<lambda>ok.
     if \<not> ok then ret False
     else
       bnd (gets s_uio_single_component_mode) (\<lambda>single.
       if single \<noteq> 0 then bnd uio_create_interrupt_thread (\<lambda>created. ret True)
       else ret True))"

text \<open>The state with a running thread and one interface on the block.\<close>

definition uio_sw_ready :: "u64 \<Rightarrow> 'e uio_state_scheme \<Rightarrow> 'e uio_state_scheme \<Rightarrow> bool" where
  "uio_sw_ready p s t \<longleftrightarrow> vec_inv t \<and> vec_abs t = [single_entry p]
     \<and> live t - vec_blocks t = live s - vec_blocks s \<and> s_uio_drv_handle t = s_uio_drv_handle s \<and> can_print t
     \<and> os t = os s \<and> os_calls t = os_calls s @ [Malloc (s_uio_addr_span s)] @ create_calls
     \<and> s_intThread_id t \<noteq> 0 \<and> mem t = fill (mem s) p (s_uio_addr_span s) (Some 0xFF)
     \<and> env t = env s"

lemma wp_uio_sw_bring_up:
  fixes s :: "'e uio_state_scheme"
  assumes "vec_inv s" and "vec_abs s = []" and "allocs_ok s" and "can_print s" and "locks_work (os s)"
    and "s_uio_single_component_mode s \<noteq> 0"
    and "os_pointer (os s) (os_calls s) (Malloc (s_uio_addr_span s)) = p" and "p \<noteq> 0"
  shows "wp uio_sw_bring_up (\<lambda>r t. r \<and> uio_sw_ready p s t) s"
  unfolding uio_sw_bring_up_def uio_create_unit_test_sw_model_def wp_bnd wp_gets
proof (rule wp_mono [OF wp_create_sw_model [OF assms(1-3,7,8)]])
  fix r and t :: "'e uio_state_scheme"
  assume t: "r \<and> sw_created p (s_uio_addr_span s) s t"
  then have f: "os t = os s" "can_print t" "os_state.more t = os_state.more s" "env t = env s"
    using sw_sameD [of s t] assms(4) by (simp_all add: sw_created_def)
  note m = uio_more [OF f(3)]
  have "wp uio_create_interrupt_thread (\<lambda>_. uio_sw_ready p s) t"
  proof (rule wp_mono [OF wp_conj [OF wp_create_thread wp_create_works]])
    fix c and u :: "'e uio_state_scheme"
    assume u: "(vec u = vec t \<and> vec_size u = vec_size t \<and> vec_reserved u = vec_reserved t
      \<and> s_uio_drv_handle u = s_uio_drv_handle t \<and> live u = live t \<and> env u = env t \<and> mem u = mem t
      \<and> dfh_parent_stack u = dfh_parent_stack t \<and> s_uio_mmap_ptr u = s_uio_mmap_ptr t
      \<and> (\<not> c \<longrightarrow> s_intThread_id u = s_intThread_id t)
      \<and> (c \<longrightarrow> s_intThread_id u \<noteq> 0 \<and> s_intFlags u = 0 \<and> g_intSem u = 0))
      \<and> c \<and> os u = os t \<and> os_calls u = os_calls t @ create_calls \<and> can_print u = can_print t
      \<and> only_prints t u"
    then have "vec_inv u = vec_inv t" "vec_abs u = vec_abs t" "vec_blocks u = vec_blocks t"
      using vec_cong [of u t] by simp_all
    with t f m u show "uio_sw_ready p s u" by (simp add: uio_sw_ready_def sw_created_def)
  qed (use assms(5) f in simp)
  with t m(4) assms(6) show "wp (if \<not> r then ret False
      else
        bnd (gets s_uio_single_component_mode) (\<lambda>single.
        if single \<noteq> 0 then bnd uio_create_interrupt_thread (\<lambda>created. ret True)
        else ret True)) (\<lambda>r t. r \<and> uio_sw_ready p s t) t"
    by (simp add: wp_bnd wp_gets wp_ret_eta)
qed

lemma wp_uio_sw_init:
  assumes conf: "uio_configured args s s1"
    and up: "\<And>t. but_out (s1\<lparr>s_uio_inThread_timeout := 100\<rparr>) t \<Longrightarrow>
      wp uio_sw_bring_up Q t"
  shows "wp (uio_sw_platform_init args) Q s"
proof -
  from conf obtain path where c: "uio_parse_args args s = Ret () s1" "can_print s1"
    "0 < s_uio_addr_span s1" "s_uio_drv_path s1 = Some path"
    by (auto simp: uio_configured_def)
  have parse: "wp (uio_parse_args args) R s = R () s1" for R using c(1) by (rule wp_Ret)
  have "wp (thn uio_print_configuration uio_sw_bring_up) Q (s1\<lparr>s_uio_inThread_timeout := 100\<rparr>)"
    unfolding wp_thn by (rule wp_print_configuration) (use c(2) up in simp_all)
  with c(2-4) show ?thesis
    unfolding uio_sw_platform_init_def uio_sw_bring_up_def [symmetric]
    by (simp add: wp_rules parse uio_validate_args_def)
qed

lemma wp_stop_thread_more:
  assumes "can_print s" and "locks_work (os s)"
  shows "wp (stop_interrupt_thread tid) (\<lambda>_ t. mem t = mem s \<and> os t = os s) s"
  using assms locks_workD [OF assms(2)]
  by (simp add: stop_interrupt_thread_def wp_rules sem_post_def)

lemma wp_uio_sw_cleanup:
  fixes s :: "'e uio_state_scheme"
  assumes pr: "can_print s" and inv: "vec_inv s" and x: "vec_abs s = [x]" "base_address x = p"
    and p: "heap_blocks s p = Some n" "p \<noteq> 0" and locks: "locks_work (os s)"
    and tid: "s_intThread_id s \<noteq> 0" and fd: "s_uio_drv_handle s < 0"
  shows "wp uio_sw_platform_cleanup (\<lambda>_ t. uio_cleaned t \<and> live t = live s - vec_blocks s
      \<and> mem t = fill (mem s) p n None \<and> os t = os s
      \<and> os_calls t = os_calls s @ stop_calls (s_intThread_id s) @ [Free p]) s" (is "wp _ ?Q s")
  unfolding uio_sw_platform_cleanup_def wp_bnd [of "gets s_intThread_id"] wp_gets
proof (simp only: tid if_True not_False_eq_True, rule wp_thn_then [OF wp_conj [OF wp_stop_thread wp_stop_thread_more]])
  fix r and t :: "'e uio_state_scheme"
  assume t: "(os_calls t = os_calls s @ stop_calls (s_intThread_id s)
    \<and> odd (s_intFlags t) \<and> g_intSem t = g_intSem s + 1 \<and> can_print t
    \<and> vec t = vec s \<and> vec_size t = vec_size s \<and> vec_reserved t = vec_reserved s
    \<and> live t = live s \<and> s_uio_drv_handle t = s_uio_drv_handle s
    \<and> s_intThread_id t = s_intThread_id s) \<and> mem t = mem s \<and> os t = os s"
  let ?u = "t\<lparr>s_uio_drv_path := None, s_uio_start_addr := 0, s_uio_addr_span := 0,
      s_uio_single_component_mode := 0, s_uio_drv_handle := -1, s_uio_mmap_ptr := 0\<rparr>"
  have u: "vec_inv ?u" "vec_abs ?u = [x]" "vec_blocks ?u = vec_blocks s" "can_print ?u"
    using t inv x vec_cong [of ?u s] by (simp_all add: can_print_def)
  have heap: "heap_blocks ?u p = Some n"
    using t p(1) heap_blocks_other [of ?u s "stop_calls (s_intThread_id s)"] by (simp add: stop_calls_def)
  have "wp (thn release_sw_model (thn (modify (\<lambda>s. s\<lparr>errno := -1\<rparr>))
      (debug_line ''Completed fpga_platform_cleanup'' []))) ?Q ?u"
  proof (rule wp_thn_then [OF wp_release_sw_model [OF u(1,2) x(2) heap p(2)]])
    fix v :: "'e uio_state_scheme"
    assume v: "vec v = None \<and> vec_size v = 0 \<and> vec_inv v
      \<and> live v = live ?u - vec_blocks ?u \<and> mem v = fill (mem ?u) p n None
      \<and> os_calls v = os_calls ?u @ [Free p] \<and> sw_same ?u v"
    then have f: "os v = os s" "can_print v" "os_state.more v = os_state.more ?u"
      using sw_sameD [of ?u v] u(4) t by simp_all
    have "can_print (v\<lparr>errno := -1\<rparr>)" using f(2) by simp
    with v f t u(3) uio_more [OF f(3)]
    show "wp (thn (modify (\<lambda>s. s\<lparr>errno := -1\<rparr>)) (debug_line ''Completed fpga_platform_cleanup'' [])) ?Q v"
      by (simp add: wp_thn wp_modify wp_lines uio_cleaned_def)
  qed
  with t fd show "wp (bnd (gets s_uio_drv_handle) (\<lambda>fd.
     thn (if fd \<ge> 0 then syscall_ignored (Close fd) else ret ())
    (thn (modify (\<lambda>s. s\<lparr>s_uio_drv_path := None, s_uio_start_addr := 0, s_uio_addr_span := 0,
                      s_uio_single_component_mode := 0, s_uio_drv_handle := -1, s_uio_mmap_ptr := 0\<rparr>))
    (thn release_sw_model
    (thn (modify (\<lambda>s. s\<lparr>errno := -1\<rparr>))
         (debug_line ''Completed fpga_platform_cleanup'' [])))))) ?Q t"
    by (simp add: wp_bnd [of "gets _"] wp_gets wp_thn [of "ret ()"] wp_ret wp_thn [of "modify _"] wp_modify)
qed (use locks_workD [OF locks] pr locks in simp_all)

section \<open>The whole life on UIO\<close>

lemma uio_may_no_heap: "list_all uio_may cs \<Longrightarrow> list_all (\<lambda>c. \<not> heap_call c) cs"
  by (auto simp: list_all_iff uio_may_def)

lemma mapped_fill:
  assumes "unat l \<le> unat n"
  shows "mapped (fill m p n (Some b)) p (unat l)"
proof -
  have "unat (of_nat i :: u64) = i" if "i < unat l" for i
  proof -
    have "unat n < 2 ^ LENGTH(64)" by (rule unsigned_less)
    with that assms show ?thesis by (simp add: unat_of_nat)
  qed
  then show ?thesis using assms by (simp add: mapped_def fill_def word_less_nat_alt)
qed

text \<open>A block of the heap is aligned for every object, so its bytes can be registers.\<close>

lemma register_space_fill:
  "unat l \<le> unat n \<Longrightarrow> aligned 8 p \<Longrightarrow> register_space (fill m p n (Some b)) p (unat l)"
  by (simp add: register_space_def mapped_fill)

lemma dom_fill_back:
  assumes "\<And>a. a - p < n \<Longrightarrow> m a = None" and "dom m' = dom (fill m p n (Some b))"
  shows "dom (fill m' p n None) = dom m"
proof -
  have "m' a = None \<longleftrightarrow> fill m p n (Some b) a = None" for a
    using assms(2) by (metis domIff)
  with assms(1) have "fill m' p n None a = None \<longleftrightarrow> m a = None" for a by (auto simp: fill_def)
  then show ?thesis by (simp add: dom_def)
qed

text \<open>The abstract machine of the model: the registers of the block are all ones at the start.\<close>

definition sw_answers :: "u64 \<Rightarrow> 'e uio_state_scheme \<Rightarrow> history \<Rightarrow> bool" where
  "sw_answers p s h \<longleftrightarrow> history_ok [single_entry p] (memory_layout (env_read_mode (env s)))
     (({}, {}), fill (mem s) p (s_uio_addr_span s) (Some 0xFF)) h"

text \<open>What is left after a session and the cleanup, \<open>s\<close> being the state before the block was made.\<close>

definition uio_sw_ended :: "u64 \<Rightarrow> 'e uio_state_scheme \<Rightarrow> history \<Rightarrow> 'e uio_state_scheme \<Rightarrow> bool" where
  "uio_sw_ended p s h t \<longleftrightarrow> uio_cleaned t \<and> live t = live s - vec_blocks s
     \<and> heap_blocks t = heap_blocks s \<and> dom (mem t) = dom (mem s)
     \<and> sw_answers p s h
     \<and> (\<exists>ds tid. list_all uio_may ds \<and> tid \<noteq> 0
         \<and> os_calls t = os_calls s @ [Malloc (s_uio_addr_span s)] @ create_calls
             @ ds @ stop_calls tid @ [Free p])"

text \<open>The cleanup after calls that made no block and freed none.\<close>

lemma wp_uio_sw_end:
  fixes s v :: "'e uio_state_scheme"
  assumes v: "can_print v" "vec_inv v" "vec_abs v = [x]" "base_address x = p" "os v = os s"
      "s_intThread_id v \<noteq> 0" "s_uio_drv_handle v < 0" "live v - vec_blocks v = live s - vec_blocks s"
    and dm: "dom (mem v) = dom (fill (mem s) p (s_uio_addr_span s) (Some 0xFF))"
    and calls: "os_calls v = os_calls s @ [Malloc (s_uio_addr_span s)] @ create_calls @ ds" "list_all uio_may ds"
    and p: "os_pointer (os s) (os_calls s) (Malloc (s_uio_addr_span s)) = p" "p \<noteq> 0" "heap_blocks s p = None"
    and free: "\<forall>a. a - p < s_uio_addr_span s \<longrightarrow> mem s a = None" and locks: "locks_work (os s)"
    and h: "sw_answers p s h"
  shows "wp uio_sw_platform_cleanup (\<lambda>_. uio_sw_ended p s h) v"
proof -
  let ?m = "v\<lparr>os_calls := os_calls v @ stop_calls (s_intThread_id v)\<rparr>"
  have "list_all (\<lambda>c. \<not> heap_call c) (create_calls @ ds)"
    using uio_may_no_heap [OF calls(2)] by (simp add: create_calls_def)
  then have heap: "heap_blocks v = (heap_blocks s)(p \<mapsto> s_uio_addr_span s)"
    by (rule heap_after_create [OF p(1,2) v(5) calls(1)])
  have stopped: "heap_blocks ?m = heap_blocks v"
    by (rule heap_blocks_other [of _ _ "stop_calls (s_intThread_id v)"]) (simp_all add: stop_calls_def)
  have same_dom: "dom (fill (mem v) p (s_uio_addr_span s) None) = dom (mem s)"
    by (rule dom_fill_back) (use free dm in simp_all)
  show ?thesis
  proof (rule wp_mono [OF wp_uio_sw_cleanup [OF v(1-4) _ p(2)]])
    fix y and w :: "'e uio_state_scheme"
    assume w: "uio_cleaned w \<and> live w = live v - vec_blocks v
      \<and> mem w = fill (mem v) p (s_uio_addr_span s) None \<and> os w = os v
      \<and> os_calls w = os_calls v @ stop_calls (s_intThread_id v) @ [Free p]"
    have "heap_blocks w = (heap_blocks ?m)(p := None)"
      by (rule heap_after_release) (use w in simp_all)
    then have "heap_blocks w = heap_blocks s" using heap stopped p(3) by auto
    with w v(6,8) calls same_dom h show "uio_sw_ended p s h w" by (auto simp: uio_sw_ended_def)
  qed (use heap v locks in simp_all)
qed

text \<open>C28: A whole life on the software model of the UIO platform: initialisation, an arbitrary
  application that keeps to its handles and to aligned offsets inside the block, cleanup.  The block is
  aligned for every object, as \<open>malloc\<close> makes it.  The run ends without undefined behaviour of the
  application's thread (as long as no call enables the interrupt, the interrupt thread only waits); the calls are those the application chose, and their answers those of the abstract machine
  with one interface, whose registers are all ones at the start and then hold what the application
  wrote; no driver is opened; the interrupt thread is joined before the block is freed; and at the end
  the heap, the mapped addresses and the table are as they were before.\<close>

theorem uio_sw_session:
  assumes "can_print s" and "s_uio_single_component_mode s \<noteq> 0" and "uio_configured args s s1"
    and "vec_inv s1" and "vec_abs s1 = []" and "allocs_ok s1" and "locks_work (os s1)"
    and "s_uio_drv_handle s1 = -1"
    and "os_pointer (os s1) (os_calls s1) (Malloc (s_uio_addr_span s1)) = p" and "p \<noteq> 0"
    and "aligned 8 p" and "heap_blocks s1 p = None" and "\<forall>a. a - p < s_uio_addr_span s1 \<longrightarrow> mem s1 a = None"
    and "unat l \<le> unat (s_uio_addr_span s1)" and "well_behaved l (\<lambda>_. True) client"
  shows "wp (bnd (uio_sw_platform_init args) (\<lambda>r.
        bnd (run_client uio_perform k client []) (\<lambda>h.
        thn uio_sw_platform_cleanup (ret (r, h)))))
    (\<lambda>(r, h) t. r \<and> uio_cleaned t \<and> live t = live s1 - vec_blocks s1
       \<and> heap_blocks t = heap_blocks s1 \<and> dom (mem t) = dom (mem s1)
       \<and> sw_answers p s1 h \<and> played client k h
       \<and> (\<exists>ds tid. list_all uio_may ds \<and> tid \<noteq> 0
           \<and> os_calls t = os_calls s1 @ [Malloc (s_uio_addr_span s1)] @ create_calls
               @ ds @ stop_calls tid @ [Free p])) s" (is "wp _ ?Q s")
  unfolding wp_bnd
proof (rule wp_uio_sw_init [OF assms(3)])
  fix t
  assume t: "but_out (s1\<lparr>s_uio_inThread_timeout := 100\<rparr>) t"
  note f = but_outD [OF t]
  have mode: "s_uio_single_component_mode t \<noteq> 0"
    using parse_args_mode [OF assms(1,2), of args s1] assms(3) f by (simp add: uio_configured_def)
  have tab: "vec_inv t" "vec_abs t = []" "allocs_ok t" and vb: "vec_blocks t = vec_blocks s1"
    using assms(4-6) f vec_cong [of t s1] by (simp_all add: allocs_ok_def)
  have g: "can_print t" "locks_work (os t)" "os_pointer (os t) (os_calls t) (Malloc (s_uio_addr_span t)) = p"
    "s_uio_addr_span t = s_uio_addr_span s1" "mem t = mem s1" "os t = os s1" "os_calls t = os_calls s1"
    "live t = live s1" "heap_blocks t = heap_blocks s1" "env t = env s1"
    using assms(3,7,9) f by (simp_all add: uio_configured_def heap_blocks_def)
  have fd: "s_uio_drv_handle t = -1" using t assms(8) by (auto simp: but_out_def)
  show "wp uio_sw_bring_up (\<lambda>r. wp (run_client uio_perform k client [])
      (\<lambda>h. wp (thn uio_sw_platform_cleanup (ret (r, h))) ?Q)) t"
  proof (rule wp_mono [OF wp_uio_sw_bring_up [OF tab g(1,2) mode g(3) assms(10)]])
    fix r and u :: "'a uio_state_scheme"
    assume u: "r \<and> uio_sw_ready p t u"
    have n: "vec_inv u" "vec_abs u = [single_entry p]" "vec_size u = 1"
      using u length_vec_abs [of u] by (simp_all add: uio_sw_ready_def)
    have ok: "uio_ok l u"
      using n u g assms(11,14) by (simp add: session_ok_def uio_sw_ready_def single_entry_def register_space_fill)
    have claims: "held u = ({}, {})" by (rule no_claims) (use n in \<open>simp_all add: single_entry_def\<close>)
    show "wp (run_client uio_perform k client []) (\<lambda>h. wp (thn uio_sw_platform_cleanup (ret (r, h))) ?Q) u"
      unfolding wp_thn wp_ret_eta
    proof (rule wp_mono [OF uio_api.answers [OF ok assms(15)]])
      fix h and v :: "'a uio_state_scheme"
      assume v: "uio_ok l v \<and> api_step uio_rest uio_may u v
        \<and> history_ok (vec_abs u) (uio_layout u) (machine_of u) h \<and> played client k h"
      have answers: "sw_answers p t h"
        using v u n claims by (simp add: sw_answers_def machine_of_def uio_layout_memory uio_sw_ready_def)
      from v obtain ds where ds: "os_calls v = os_calls u @ ds" "list_all uio_may ds"
        by (auto simp: api_step_def)
      from v n obtain x where x: "vec_abs v = [x]" "fixed_part x = fixed_part (single_entry p)"
        by (auto simp: api_step_def)
      have "wp uio_sw_platform_cleanup (\<lambda>_. uio_sw_ended p t h) v"
      proof (rule wp_uio_sw_end [OF _ _ x(1) _ _ _ _ _ _ _ ds(2) g(3) assms(10)])
        show "base_address x = p"
          using arg_cong [OF x(2), of base_address] by (simp add: fixed_part_def single_entry_def)
      qed (use v u n g fd ds(1) answers assms(12,13) in
        \<open>simp_all add: session_ok_def api_step_def uio_rest_def uio_sw_ready_def\<close>)
      then show "wp uio_sw_platform_cleanup (\<lambda>_. ?Q (r, h)) v"
        by (rule wp_mono) (use u v g vb in \<open>auto simp: uio_sw_ended_def sw_answers_def\<close>)
    qed
  qed
qed

lemma uio_sw_session_witness:
  "wp (bnd (uio_sw_platform_init [''-s'', show_nat 4096]) (\<lambda>r.
        bnd (run_client uio_perform 4 demo_client []) (\<lambda>h.
        thn uio_sw_platform_cleanup (ret (r, h)))))
    (\<lambda>(r, h) t. r \<and> live t = 0 \<and> mem t = Map.empty \<and> h = demo_history) (uio_process (\<lambda>a. 0) demo_os)"
proof -
  let ?s = "uio_process (\<lambda>a. 0) demo_os"
  have "uio_parse_args [''-s'', show_nat 4096] ?s = Ret () (?s\<lparr>s_uio_addr_span := of_nat 4096\<rparr>)"
    by (rule parse_span) (simp_all add: uio_process_def LONG_MAX_def ERANGE_def can_print_def)
  then have conf: "uio_configured [''-s'', show_nat 4096] ?s (?s\<lparr>s_uio_addr_span := 4096\<rparr>)"
    by (simp add: uio_configured_def uio_process_def can_print_def)
  show ?thesis
    by (rule wp_mono [OF uio_sw_session [OF _ _ conf, where p = "0x1000"
            and l = 64 and k = 4 and client = demo_client]])
      (auto simp: demo_os_def vec_inv_def vec_abs_def allocs_ok_def heap_blocks_def
        can_print_def uio_process_def locks_work_def demo_client_behaves vec_blocks_def
        sw_answers_def aligned_def dest: demo_played_memory)
qed

section \<open>Devmem: the registers of the model\<close>

lemma wp_devmem_sw_init:
  assumes p: "devmem_parse_args args s = Ret () s1" and c: "can_print s1" and conf: "devmem_config_ok s1"
    and up: "\<And>t. more_messages s1 t \<Longrightarrow> wp devmem_create_unit_test_sw_model Q t"
  shows "wp (devmem_sw_platform_init args) Q s"
proof -
  have parse: "wp (devmem_parse_args args) R s = R () s1" for R using p by (rule wp_Ret)
  have print: "wp (thn devmem_print_configuration devmem_create_unit_test_sw_model) Q t"
    if "more_messages s1 t" for t
    unfolding wp_thn
  proof (rule wp_devmem_print_configuration)
    show "can_print t" using that c by (auto simp: more_messages_def)
  qed (use up that more_messages_trans in blast)
  show ?thesis
    unfolding devmem_sw_platform_init_def wp_thn parse wp_bnd
    by (rule wp_devmem_validate [OF c]) (use conf print in \<open>auto simp: more_messages_def wp_thn\<close>)
qed

lemma wp_devmem_sw_cleanup:
  fixes s :: "'e devmem_state_scheme"
  assumes pr: "can_print s" and inv: "vec_inv s" and x: "vec_abs s = [x]" "base_address x = p"
    and p: "heap_blocks s p = Some n" "p \<noteq> 0" and fd: "s_devmem_drv_handle s < 0"
  shows "wp devmem_sw_platform_cleanup (\<lambda>_ t. vec t = None \<and> vec_size t = 0
      \<and> live t = live s - vec_blocks s \<and> mem t = fill (mem s) p n None \<and> os t = os s
      \<and> os_calls t = os_calls s @ [Free p]) s"
proof -
  let ?u = "s\<lparr>s_devmem_start_addr := 0, s_devmem_addr_span := 0, s_devmem_single_component_mode := 1,
      s_devmem_drv_handle := -1, s_devmem_mmap_ptr := 0\<rparr>"
  have u: "vec_inv ?u" "vec_abs ?u = [x]" "vec_blocks ?u = vec_blocks s" "can_print ?u"
    using pr inv x vec_cong [of ?u s] by (simp_all add: can_print_def)
  have heap: "heap_blocks ?u p = Some n" using p(1) by (simp add: heap_blocks_def)
  have "wp (thn release_sw_model (thn (modify (\<lambda>s. s\<lparr>errno := -1\<rparr>))
      (debug_line ''Completed fpga_platform_cleanup'' []))) (\<lambda>_ t. vec t = None \<and> vec_size t = 0
      \<and> live t = live s - vec_blocks s \<and> mem t = fill (mem s) p n None \<and> os t = os s
      \<and> os_calls t = os_calls s @ [Free p]) ?u"
  proof (rule wp_thn_then [OF wp_release_sw_model [OF u(1,2) x(2) heap p(2)]])
    fix v :: "'e devmem_state_scheme"
    assume v: "vec v = None \<and> vec_size v = 0 \<and> vec_inv v
      \<and> live v = live ?u - vec_blocks ?u \<and> mem v = fill (mem ?u) p n None
      \<and> os_calls v = os_calls ?u @ [Free p] \<and> sw_same ?u v"
    then have "os v = os s" "can_print (v\<lparr>errno := -1\<rparr>)" using sw_sameD [of ?u v] u(4) by simp_all
    with v u(3) show "wp (thn (modify (\<lambda>s. s\<lparr>errno := -1\<rparr>)) (debug_line ''Completed fpga_platform_cleanup'' []))
        (\<lambda>_ t. vec t = None \<and> vec_size t = 0
        \<and> live t = live s - vec_blocks s \<and> mem t = fill (mem s) p n None \<and> os t = os s
        \<and> os_calls t = os_calls s @ [Free p]) v"
      by (simp add: wp_thn wp_modify wp_lines)
  qed
  with fd show ?thesis
    unfolding devmem_sw_platform_cleanup_def
    by (simp add: wp_bnd [of "gets _"] wp_gets wp_thn [of "ret ()"] wp_ret wp_thn [of "modify _"] wp_modify)
qed

lemma load_fill:
  assumes "x + k \<le> unat n"
  shows "load_bytes (fill m p n (Some b)) (p + of_nat x) k = Some (replicate k b)"
proof -
  have "unat n < 2 ^ LENGTH(64)" by (rule unsigned_less)
  then have small: "unat n < 2 ^ 64" by simp
  have "fill m p n (Some b) (p + of_nat x + of_nat i) = Some b" if "i < k" for i
  proof -
    have "unat (of_nat (x + i) :: u64) = x + i" using that assms small by (simp add: unat_of_nat del: of_nat_add)
    moreover have "p + of_nat x + of_nat i - p = (of_nat (x + i) :: u64)" by simp
    ultimately have "p + of_nat x + of_nat i - p < n" using that assms by (simp add: word_less_nat_alt)
    then show ?thesis by (simp only: fill_def if_True)
  qed
  then show ?thesis by (simp add: load_bytes_iff)
qed

lemma all_ones: "le_word (replicate 8 (0xFF :: u8)) = (-1 :: u64)"
  by code_simp

lemma wp_sw_open:
  fixes u :: "'e os_state_scheme"
  assumes u: "vec_inv u" "vec_abs u = [single_entry p]"
  shows "wp (fpga_open 0) (\<lambda>h v. h = 0 \<and> vec_inv v \<and> (\<exists>x. vec_abs v = [x] \<and> base_address x = p)
      \<and> vec_blocks v = vec_blocks u \<and> (\<exists>ys. v = u\<lparr>g_common_fpga_interface_info_vec := ys\<rparr>)) u"
    (is "wp _ ?Q u")
proof -
  have n: "vec_size u = 1" using u length_vec_abs [of u] by simp
  with u obtain xs where xs: "vec u = Some xs" "0 < length xs" "xs ! 0 = single_entry p"
    using vec_inv_Some [of u 0] by auto
  have "wp (vec_upd 0 (\<lambda>x. x\<lparr>is_mmio_opened := True\<rparr>)) (\<lambda>_. ?Q 0) u"
  proof (rule wp_mono [OF vec_upd_abs [of u 0]])
    fix y and v :: "'e os_state_scheme"
    assume v: "vec_inv v \<and> vec_abs v = (vec_abs u)[0 := (vec_abs u ! 0)\<lparr>is_mmio_opened := True\<rparr>]
      \<and> vec_size v = vec_size u \<and> vec_blocks v = vec_blocks u
      \<and> v = u\<lparr>g_common_fpga_interface_info_vec := vec v\<rparr>"
    then have "\<exists>ys. v = u\<lparr>g_common_fpga_interface_info_vec := ys\<rparr>" by blast
    with v u show "?Q 0 v" by (simp add: single_entry_def)
  qed (use u n in simp_all)
  with xs n show ?thesis
    by (simp add: fpga_open_def wp_bnd wp_vec_size wp_vec_at wp_thn wp_ret_eta single_entry_def)
qed

lemma wp_devmem_sw_read:
  fixes v :: "'e devmem_state_scheme"
  assumes x: "vec_inv v" "vec_abs v = [x]" "base_address x = p" and m: "mem v = fill m p n (Some 0xFF)"
    and a: "unat a + 8 \<le> unat (l :: u32)" "unat l \<le> unat n" "8 dvd unat a" and p: "aligned 8 p"
  shows "wp (fpga_devmem_read_64 0 a) R v
    = R (-1) (v\<lparr>bus := bus v @ read_events (env_read_mode (env v)) (p + ucast a)\<rparr>)"
proof -
  have "vec_size v = 1" using x length_vec_abs [of v] by simp
  then have win: "window fpga_devmem_get_base_address 0 p l v"
    using devmem_window [OF x(1), of 0 l] x m a(2) p by (simp add: register_space_fill)
  have "load_bytes (mem v) (p + ucast a) 8 = Some (replicate 8 0xFF)"
    unfolding m offset_nat by (rule load_fill) (use a in simp)
  then have "port_word p v a = -1" by (simp only: port_word_def option.sel all_ones)
  then show ?thesis using run_read_64 [OF win a(1,3)] by (simp add: wp_def devmem_access)
qed

text \<open>The registers of the software model.  On devmem, a complete configuration gives one interface
  whose registers all read as ones, at every aligned offset and in both builds of the 64-bit access; a cleanup
  gives the block back, and the memory is exactly what it was.\<close>

lemma devmem_sw_registers:
  assumes "devmem_parse_args args s = Ret () s1" and "can_print s1" and "devmem_config_ok s1"
    and "vec_inv s1" and "vec_abs s1 = []" and "allocs_ok s1" and "s_devmem_drv_handle s1 = -1"
    and "os_pointer (os s1) (os_calls s1) (Malloc (s_devmem_addr_span s1)) = p" and "p \<noteq> 0"
    and "\<forall>a. a - p < s_devmem_addr_span s1 \<longrightarrow> mem s1 a = None"
    and "unat a + 8 \<le> unat (l :: u32)" and "unat l \<le> unat (s_devmem_addr_span s1)"
    and "8 dvd unat a" and "aligned 8 p"
  shows "wp (bnd (devmem_sw_platform_init args) (\<lambda>r.
        bnd (fpga_open 0) (\<lambda>h.
        bnd (fpga_devmem_read_64 h a) (\<lambda>w.
        thn devmem_sw_platform_cleanup (ret (r, h, w))))))
    (\<lambda>(r, h, w) t. r \<and> h = 0 \<and> w = -1 \<and> mem t = mem s1 \<and> vec t = None
       \<and> live t = live s1 - vec_blocks s1
       \<and> os_calls t = os_calls s1 @ [Malloc (s_devmem_addr_span s1), Free p]) s" (is "wp _ ?Q s")
  unfolding wp_bnd
proof (rule wp_devmem_sw_init [OF assms(1-3)])
  fix t
  assume t: "more_messages s1 t"
  note f = more_messagesD [OF t]
  let ?n = "s_devmem_addr_span s1"
  have tab: "vec_inv t" "vec_abs t = []" "allocs_ok t" and vb: "vec_blocks t = vec_blocks s1"
    using assms(4-6) f vec_cong [of t s1] by (simp_all add: allocs_ok_def)
  have fd: "s_devmem_drv_handle t = -1" using t assms(7) by (auto simp: more_messages_def)
  have ptr: "os_pointer (os t) (os_calls t) (Malloc ?n) = p" using assms(8) f by simp
  have "wp (create_unit_test_sw_model ?n) (\<lambda>r. wp (fpga_open 0) (\<lambda>h. wp (fpga_devmem_read_64 h a)
      (\<lambda>w. wp (thn devmem_sw_platform_cleanup (ret (r, h, w))) ?Q))) t"
  proof (rule wp_mono [OF wp_create_sw_model [OF tab ptr assms(9)]], elim conjE)
    fix r and u :: "'a devmem_state_scheme"
    assume r: r and "sw_created p ?n t u"
    then have u: "vec_inv u" "vec_abs u = [single_entry p]" "os u = os s1" "can_print u"
      "live u - vec_blocks u = live s1 - vec_blocks s1" "mem u = fill (mem s1) p ?n (Some 0xFF)"
      "os_calls u = os_calls s1 @ [Malloc ?n]" and "os_state.more u = os_state.more t"
      using sw_sameD [of t u] f assms(2) vb by (simp_all add: sw_created_def)
    then have dr: "s_devmem_drv_handle u < 0" using fd by (cases t; cases u) simp
    show "wp (fpga_open 0) (\<lambda>h. wp (fpga_devmem_read_64 h a)
      (\<lambda>w. wp (thn devmem_sw_platform_cleanup (ret (r, h, w))) ?Q)) u"
    proof (rule wp_mono [OF wp_sw_open [OF u(1,2)]], elim conjE exE)
      fix h :: int and v :: "'a devmem_state_scheme" and x ys
      assume h: "h = 0" and v: "vec_inv v" "vec_abs v = [x]" "base_address x = p" "vec_blocks v = vec_blocks u"
        and ys: "v = u\<lparr>g_common_fpga_interface_info_vec := ys\<rparr>"
      let ?w = "v\<lparr>bus := bus v @ read_events (env_read_mode (env v)) (p + ucast a)\<rparr>"
      have m: "mem v = fill (mem s1) p ?n (Some 0xFF)" using u(6) ys by simp
      have w: "vec_inv ?w" "vec_abs ?w = [x]" "vec_blocks ?w = vec_blocks u" "can_print ?w"
        "s_devmem_drv_handle ?w < 0" "os ?w = os s1" "os_calls ?w = os_calls s1 @ [Malloc ?n]"
        using v u dr vec_cong [of ?w v] by (simp_all add: ys can_print_def)
      have heap: "heap_blocks ?w p = Some ?n"
        using heap_after_create [OF assms(8,9) w(6), of "[]"] w(7) by simp
      have back_again: "fill (mem v) p ?n None = mem s1"
        unfolding m fill_fill by (rule fill_same) (use assms(10) in blast)
      show "wp (fpga_devmem_read_64 h a) (\<lambda>w. wp (thn devmem_sw_platform_cleanup (ret (r, h, w))) ?Q) v"
        unfolding h wp_devmem_sw_read [OF v(1-3) m assms(11-14)] wp_thn wp_ret_eta
        by (rule wp_mono [OF wp_devmem_sw_cleanup [OF w(4,1,2) v(3) heap assms(9) w(5)]])
          (use r u(5) w back_again in \<open>auto simp: ys\<close>)
    qed
  qed
  then show "wp devmem_create_unit_test_sw_model (\<lambda>r. wp (fpga_open 0) (\<lambda>h. wp (fpga_devmem_read_64 h a)
      (\<lambda>w. wp (thn devmem_sw_platform_cleanup (ret (r, h, w))) ?Q))) t"
    using f by (simp add: devmem_create_unit_test_sw_model_def wp_bnd wp_gets)
qed

lemma devmem_sw_registers_witness:
  "wp (bnd (devmem_sw_platform_init [''-s'', show_nat 0x100, ''-a'', show_nat 0x80000000]) (\<lambda>r.
        bnd (fpga_open 0) (\<lambda>h.
        bnd (fpga_devmem_read_64 h 0x20) (\<lambda>w.
        thn devmem_sw_platform_cleanup (ret (r, h, w))))))
    (\<lambda>(r, h, w) t. r \<and> w = 0xFFFFFFFFFFFFFFFF \<and> mem t = Map.empty) (devmem_process (\<lambda>a. 0) demo_os)"
proof -
  let ?s = "devmem_process (\<lambda>a. 0) demo_os"
  let ?s1 = "?s\<lparr>s_devmem_addr_span := 0x100, s_devmem_start_addr := 0x80000000\<rparr>"
  have "devmem_parse_args [''-s'', show_nat 0x100, ''-a'', show_nat 0x80000000] ?s
      = Ret () (?s\<lparr>s_devmem_addr_span := of_nat 0x100, s_devmem_start_addr := of_nat 0x80000000\<rparr>)"
    by (rule devmem_parse_two) (simp_all add: devmem_process_def LONG_MAX_def ERANGE_def can_print_def)
  then have parse: "devmem_parse_args [''-s'', show_nat 0x100, ''-a'', show_nat 0x80000000] ?s = Ret () ?s1"
    by simp
  show ?thesis
    by (rule wp_mono [OF devmem_sw_registers [OF parse, where p = "0x1000" and l = "0x100"]])
      (auto simp: devmem_process_def can_print_def devmem_config_ok_def vec_inv_def vec_abs_def allocs_ok_def
        demo_os_def aligned_def)
qed

section \<open>Zephyr: the block is not used\<close>

text \<open>On Zephyr the entry of the model has no device and does not come from a list: a 32-bit access
  goes to the syscon driver with a null device, and the block keeps its ones.  When the driver refuses the
  read, its value is whatever the uninitialised variable held.\<close>

lemma zephyr_sw_null_device:
  fixes s :: "'e zephyr_state_scheme"
  assumes "zephyr_parse_args options s = Ret () s1" and "0 < s_zephyr_addr_span s1"
    and "vec_inv s1" and "vec_abs s1 = []" and "allocs_ok s1"
    and "os_pointer (os s1) (os_calls s1) (Malloc (s_zephyr_addr_span s1)) = p" and "p \<noteq> 0"
  shows "wp (bnd (zephyr_sw_platform_init options) (\<lambda>r.
        thn (fpga_zephyr_write_32 0 a v)
            (bnd (fpga_zephyr_read_32 0 a) (\<lambda>w. ret (r, w)))))
    (\<lambda>(r, w) t. r \<and> mem t = fill (mem s1) p (s_zephyr_addr_span s1) (Some 0xFF)
       \<and> os_calls t = os_calls s1 @ [Malloc (s_zephyr_addr_span s1), Syscon_write 0 a v, Syscon_read 0 a]
       \<and> w = (let cs = os_calls s1 @ [Malloc (s_zephyr_addr_span s1), Syscon_write 0 a v] in
            if os_result (os s1) cs (Syscon_read 0 a) < 0 then ucast (env_junk_word (env s1))
            else os_word (os s1) cs (Syscon_read 0 a))) s"
proof -
  let ?n = "s_zephyr_addr_span s1"
  let ?cs = "os_calls s1 @ [Malloc ?n, Syscon_write 0 a v]"
  let ?w = "if os_result (os s1) ?cs (Syscon_read 0 a) < 0 then ucast (env_junk_word (env s1))
    else os_word (os s1) ?cs (Syscon_read 0 a)"
  have parse: "wp (zephyr_parse_args options) R s = R () s1" for R using assms(1) by (rule wp_Ret)
  have "wp (bnd (create_unit_test_sw_model ?n) (\<lambda>r. thn (fpga_zephyr_write_32 0 a v)
      (bnd (fpga_zephyr_read_32 0 a) (\<lambda>w. ret (r, w)))))
    (\<lambda>(r, w) t. r \<and> mem t = fill (mem s1) p ?n (Some 0xFF)
       \<and> os_calls t = os_calls s1 @ [Malloc ?n, Syscon_write 0 a v, Syscon_read 0 a]
       \<and> w = ?w) s1"
  proof (rule wp_bnd_then [OF wp_create_sw_model [OF assms(3-7)]])
    fix r and t :: "'e zephyr_state_scheme"
    assume "r \<and> sw_created p ?n s1 t"
    then have t: "r \<and> vec_inv t \<and> vec_abs t = [single_entry p] \<and> mem t = fill (mem s1) p ?n (Some 0xFF)
      \<and> os_calls t = os_calls s1 @ [Malloc ?n] \<and> sw_same s1 t"
      by (simp add: sw_created_def)
    have n: "vec_size t = 1" using t length_vec_abs [of t] by simp
    with t obtain xs where xs: "vec t = Some xs" "0 < length xs" "xs ! 0 = single_entry p"
      using vec_inv_Some [of t 0] by auto
    have "os t = os s1" "env t = env s1" using t sw_sameD [of s1 t] by simp_all
    moreover have "dfl (single_entry p) = False" "dev (single_entry p) = 0"
      by (simp_all add: single_entry_def zero_info_def)
    ultimately show "wp (thn (fpga_zephyr_write_32 0 a v) (bnd (fpga_zephyr_read_32 0 a) (\<lambda>w. ret (r, w))))
      (\<lambda>(r, w) t. r \<and> mem t = fill (mem s1) p ?n (Some 0xFF)
       \<and> os_calls t = os_calls s1 @ [Malloc ?n, Syscon_write 0 a v, Syscon_read 0 a]
       \<and> w = ?w) t"
      using t xs
      by (simp add: fpga_zephyr_write_32_def fpga_zephyr_read_32_def wp_eta wp_vec_at size_t_of_int_def wp_gets
          wp_syscall wp_syscall_ignored wp_ret_eta wp_ret)
  qed
  moreover have "s_zephyr_addr_span s1 \<noteq> 0" using assms(2) by auto
  moreover note assms(2)
  ultimately show ?thesis
    by (simp add: zephyr_sw_platform_init_def zephyr_sw_validate_args_def zephyr_create_unit_test_sw_model_def
        Let_def wp_eta parse wp_gets wp_ret_eta wp_ret)
qed

section \<open>Without memory\<close>

text \<open>The result of \<open>malloc\<close> is not looked at: when it is null, every platform writes through it.\<close>

lemma sw_model_no_memory:
  fixes s :: "'e os_state_scheme"
  assumes inv: "vec_inv s" and "vec_abs s = []" and ok: "allocs_ok s"
    and null: "os_pointer (os s) (os_calls s) (Malloc span) = 0"
  shows "\<exists>t. create_unit_test_sw_model span s = Stop (Undefined_behaviour Null_dereference) t"
proof -
  have r: "common_fpga_interface_info_vec_resize 1 s = Ret () (resized 1 s)"
    using wp_resize_ok [OF inv ok, of 1 "\<lambda>x t. x = () \<and> t = resized 1 s"] by (simp only: wp_returns simp_thms)
  have "os (resized 1 s) = os s" "os_calls (resized 1 s) = os_calls s" by (simp_all add: resized_def)
  then have m: "malloc span (resized 1 s) = Ret 0 ((resized 1 s)\<lparr>os_calls := os_calls s @ [Malloc span],
      errno := os_errno (os s) (os_calls s) (Malloc span)\<rparr>)"
    using run_block_malloc_null [of "resized 1 s" span] null by simp
  show ?thesis
    using assms(2)
    by (simp add: create_unit_test_sw_model_def run_thn run_bnd r m vec_upd_def
        common_fpga_interface_info_vec_at_def run_rules resized_vec list_resize_def memset_def del: One_nat_def)
qed

end
