(* ===== verification/Dfl_Debug.thy ===== *)
theory Dfl_Debug
  imports Dfl_Report
begin

text \<open>
  The debug code of \<open>common/src/intel_fpga_api_cmn_dfl.c\<close>: the scan of the build with
  \<open>DFL_WALKER_REPORT\<close>, which ends in a report, and \<open>common_dfl_save_dfl_rom\<close> of the build with
  \<open>DFL_WALKER_DEBUG_MODE\<close>, which writes the words of a Device Feature List to a file.  The text of
  \<open>perror\<close> is left out.
\<close>

section \<open>The scan with a report\<close>

definition common_dfl_scan_multi_interfaces_report :: "nat \<Rightarrow> u64 \<Rightarrow> (u64 \<Rightarrow> u64) \<Rightarrow> ('e, unit) cmn" where
  "common_dfl_scan_multi_interfaces_report fuel first_dfh_addr base_addr_decoder =
     thn (common_dfl_scan_multi_interfaces fuel first_dfh_addr base_addr_decoder)
    (thn (info_line ''==========================='' [])
    (bnd common_fpga_interface_info_vec_size (\<lambda>n.
     thn (info_line ''MMIO Interface(s) registered: %d'' [Arg_size n])
         (common_dfl_print_all_interfaces base_addr_decoder))))"

section \<open>The dump of the words\<close>

text \<open>The index and the printed address have 64 bits; the offset of the read has 32.\<close>

fun save_rom_loop :: "nat \<Rightarrow> u64 \<Rightarrow> u64 \<Rightarrow> u64 \<Rightarrow> ('e, unit) osp" where
  "save_rom_loop 0 f_readwrite start_addr i = ret ()"
| "save_rom_loop (Suc k) f_readwrite start_addr i =
     bnd (common_dfl_read_64 start_addr (ucast (i * 8))) (\<lambda>data.
     thn (syscall_ignored (Fprintf f_readwrite ''0x%lX 64 bit data is: 0x%lX \<newline>''
            [Arg_word (i * 8 + start_addr), Arg_word data]))
         (save_rom_loop k f_readwrite start_addr (i + 1)))"

text \<open>The buffer of the path; \<open>getcwd\<close> leaves it unspecified when it fails.\<close>

definition sizeof_cwd :: nat where "sizeof_cwd = 1024"

definition common_dfl_save_dfl_rom :: "u64 \<Rightarrow> u64 \<Rightarrow> ('e, unit) osp" where
  "common_dfl_save_dfl_rom start_addr sz =
     bnd (gets (\<lambda>s. os_cwd (os s) (os_calls s))) (\<lambda>dir.
     thn (record_call (Getcwd sizeof_cwd))
    (bnd (case dir of
            None \<Rightarrow> halt (Undefined_behaviour Indeterminate_value)
          | Some d \<Rightarrow>
              thn (require Out_of_bounds (length d + length ''/dfl_rom.txt'' < sizeof_cwd))
             (thn (info_line ''DFL ROM is Dumped to: %s'' [Arg_str (d @ ''/dfl_rom.txt'')])
                  (ret (d @ ''/dfl_rom.txt'')))) (\<lambda>cwd.
     bnd (syscall_file (Fopen cwd ''w+'')) (\<lambda>f_readwrite.
     if f_readwrite = 0 then thn (error_line ''FAILED OPEN FILE'' []) (halt (Process_exit 1))
     else
       thn (syscall_ignored (Fprintf f_readwrite ''Dumping DFL ROM Content...\<newline>'' []))
      (thn (save_rom_loop (unat sz) f_readwrite start_addr 0)
           (syscall_ignored (Fclose f_readwrite)))))))"

section \<open>What is written\<close>

text \<open>The line of the word at index \<open>i\<close>.\<close>

definition rom_line :: "u64 \<Rightarrow> u64 \<Rightarrow> (nat \<Rightarrow> u64) \<Rightarrow> nat \<Rightarrow> os_call" where
  "rom_line f a w i = Fprintf f ''0x%lX 64 bit data is: 0x%lX \<newline>'' [Arg_word (of_nat i * 8 + a), Arg_word (w i)]"

text \<open>The offset of a word does not straddle the end of its 32 bits.\<close>

lemma rom_offset: "(ucast ((ucast (i * 8 :: u64) :: u32) + 4) :: u64) = ucast (ucast (i * 8) :: u32) + 4"
proof -
  let ?o = "ucast (i * 8) :: u32"
  have "unat ?o = (8 * unat i) mod 2 ^ 32"
    by (simp add: unsigned_ucast_eq unat_word_ariths take_bit_eq_mod mod_mod_cancel mult.commute)
  then have "8 dvd unat ?o" "unat ?o < 2 ^ 32" by (simp_all add: dvd_mod_iff)
  then have "unat ?o + 4 < 2 ^ 32" by (auto elim!: dvdE)
  moreover have "(ucast (off + 4) :: u64) = ucast off + 4" if "unat off + 4 < 2 ^ 32" for off :: u32
  proof -
    have "unat (ucast (off + 4) :: u64) = unat (ucast off + 4 :: u64)"
      using that by (simp add: unat_word_ariths unsigned_ucast_eq take_bit_nat_eq_self)
    then show ?thesis by (rule word_unat_eq_iff [THEN iffD2])
  qed
  ultimately show ?thesis by blast
qed

text \<open>Only the calls, and \<open>errno\<close> where one fails.\<close>

definition only_calls :: "os_call list \<Rightarrow> 'e os_state_scheme \<Rightarrow> 'e os_state_scheme \<Rightarrow> bool" where
  "only_calls cs s t \<longleftrightarrow> (\<exists>e. t = s\<lparr>os_calls := os_calls s @ cs, errno := e\<rparr>)"

lemma only_calls_called: "only_calls [c] s (called c b s)"
  unfolding only_calls_def called_def by (rule exI) (rule refl)

lemma only_calls_trans: "only_calls cs s t \<Longrightarrow> only_calls ds t u \<Longrightarrow> only_calls (cs @ ds) s u"
  by (auto simp: only_calls_def)

lemma only_calls_nil: "only_calls [] s s"
  by (auto simp: only_calls_def intro: exI [of _ "errno s"])

lemma wp_save_rom_loop:
  fixes s :: "'e os_state_scheme"
  assumes "\<And>j. i \<le> j \<Longrightarrow> j < i + k \<Longrightarrow>
    dfl_view s (a + ucast (ucast (of_nat j * 8 :: u64) :: u32)) = Some (w j)"
  shows "wp (save_rom_loop k f a (of_nat i)) (\<lambda>_. only_calls (map (rom_line f a w) [i..<i + k]) s) s"
  using assms
proof (induction k arbitrary: i s)
  case 0
  then show ?case by (simp add: wp_ret only_calls_nil)
next
  case (Suc k)
  let ?c = "rom_line f a w i"
  let ?t = "called ?c (os_result (os s) (os_calls s) ?c < 0) s"
  have "common_dfl_read_64 a (ucast (of_nat i * 8 :: u64)) s = Ret (w i) s"
    by (rule common_dfl_read_64_at [OF Suc.prems rom_offset]) simp_all
  then have read: "wp (common_dfl_read_64 a (ucast (of_nat i * 8 :: u64))) Q s = Q (w i) s" for Q by (rule wp_Ret)
  have "dfl_view ?t = dfl_view s" by (rule dfl_view_cong) simp_all
  then have "wp (save_rom_loop k f a (of_nat (Suc i))) (\<lambda>_. only_calls (map (rom_line f a w) [Suc i..<Suc i + k]) ?t) ?t"
    by (intro Suc.IH) (use Suc.prems in simp)
  then have rest: "wp (save_rom_loop k f a (of_nat (Suc i))) (\<lambda>_. only_calls (map (rom_line f a w) (i # [Suc i..<Suc i + k])) s) ?t"
    by (rule wp_mono) (use only_calls_trans [OF only_calls_called [of ?c s]] in fastforce)
  have upt: "[i..<i + Suc k] = i # [Suc i..<Suc i + k]" by (simp add: upt_conv_Cons del: upt_Suc)
  have "wp (save_rom_loop (Suc k) f a (of_nat i)) Q s = wp (save_rom_loop k f a (of_nat (Suc i))) Q ?t" for Q
    by (simp add: wp_bnd read wp_thn wp_syscall_ignored rom_line_def add.commute)
  with rest show ?case unfolding upt by simp
qed

section \<open>The path\<close>

lemma save_rom_overflow:
  fixes s :: "'e os_state_scheme"
  assumes "os_cwd (os s) (os_calls s) = Some d" and "1024 \<le> length d + 12"
  shows "\<exists>t. common_dfl_save_dfl_rom a sz s = Stop (Undefined_behaviour Out_of_bounds) t"
  using assms by (simp add: common_dfl_save_dfl_rom_def run_rules record_call_def sizeof_cwd_def)

end
