(* ===== verification/Debug_Properties.thy ===== *)
theory Debug_Properties
  imports Dfl_Debug Show_Properties
begin

text \<open>
  The debug builds: the report at the end of a scan, and the dump of the words of a list.
\<close>

section \<open>The report at the end of a scan\<close>

text \<open>C27: The scan of the build with \<open>DFL_WALKER_REPORT\<close>.  On every finite list nested at most six deep it
  returns, leaves the table that the other build leaves and every heap block accounted for, reads no
  parameter outside its arrays, and prints the number of the interfaces and then, for every interface in walk
  order, its number, decoded address, GUID, ids, and every parameter with all its data words; nothing else
  is printed.\<close>

theorem scan_report:
  assumes "scan_ready s" and "dfl_at (dfl_view s) a x" and "tree_fits x" and "fuel_level x \<le> fuel"
    and "can_print s"
  shows "wp (common_dfl_scan_multi_interfaces_report fuel a dec)
    (\<lambda>_ t. vec_inv t \<and> vec_abs t = rows a x \<and> live t - vec_blocks t = live s - vec_blocks s
      \<and> out t = out s @ line_events s
          ((''==========================='', []) # (''MMIO Interface(s) registered: %d'', [Arg_size (length (rows a x))])
           # report dec 0 (rows a x))) s"
  unfolding common_dfl_scan_multi_interfaces_report_def
proof (rule wp_thn_then [OF wp_scan [OF assms(1-4)]])
  fix t
  assume t: "scanned a x s t"
  have len: "length (rows a x) = vec_size t" using t length_vec_abs [of t] by (simp add: scanned_def)
  then have n: "vec_size t < 2 ^ 32" using assms(3) by (simp add: tree_fits_def rows_def length_rows)
  have pr: "can_print t" using t assms(5) by (simp add: scanned_def same_rest_def can_print_def)
  have ev: "line_events t ls = line_events s ls" for ls
    using t by (intro line_events_cong) (simp add: scanned_def same_rest_def)
  let ?ls = "[(''==========================='', []), (''MMIO Interface(s) registered: %d'', [Arg_size (vec_size t)])]"
  let ?u = "printed ?ls t"
  have u: "vec_inv ?u" "vec_abs ?u = rows a x" "vec_size ?u < 2 ^ 32" "can_print ?u" using t n pr by (simp_all add: scanned_def)
  have "wp (common_dfl_print_all_interfaces dec) Q ?u = Q () (printed (report dec 0 (rows a x)) ?u)" for Q
    using run_print_all [OF u(1,3) _ u(4)] u(2) printable_rows by (intro wp_Ret) metis
  moreover have "wp (info_line f r) Q (printed ls t) = Q () (printed (ls @ [(f, r)]) t)" for f r ls Q
    using pr by (simp add: wp_lines printed_def)
  moreover from this [of _ _ _ "[]"] have "wp (info_line f r) Q t = Q () (printed [(f, r)] t)" for f r Q by simp
  moreover have "vec_blocks (printed ls t) = vec_blocks t" "live (printed ls t) = live t" "out (printed ls t) = out t @ line_events t ls" for ls
    using vec_cong [of "printed ls t" t] by (simp_all add: printed_def)
  ultimately show "wp (thn (info_line ''==========================='' [])
      (bnd common_fpga_interface_info_vec_size (\<lambda>n.
       thn (info_line ''MMIO Interface(s) registered: %d'' [Arg_size n])
           (common_dfl_print_all_interfaces dec))))
    (\<lambda>_ t. vec_inv t \<and> vec_abs t = rows a x \<and> live t - vec_blocks t = live s - vec_blocks s
      \<and> out t = out s @ line_events s
          ((''==========================='', []) # (''MMIO Interface(s) registered: %d'', [Arg_size (length (rows a x))])
           # report dec 0 (rows a x))) t"
    using t len u(1,2) by (simp add: wp_thn wp_bnd wp_vec_size ev scanned_def same_rest_def)
qed

lemma scan_report_witness:
  "wp (common_dfl_scan_multi_interfaces_report 5 0x1000 (\<lambda>a. a - 0x1000))
    (\<lambda>_ t. vec_abs t = rows 0x1000 demo_tree \<and> out t = line_events (demo_state (table_read demo_words))
        ((''==========================='', []) # (''MMIO Interface(s) registered: %d'', [Arg_size 3])
         # report (\<lambda>a. a - 0x1000) 0 (rows 0x1000 demo_tree)))
    (demo_state (table_read demo_words))"
  by (rule wp_mono [OF scan_report [OF demo_scan]])
    (use arg_cong [OF demo_rows(1), of length] in \<open>simp_all add: can_print_def demo_state_def initial_state_def numeral_3_eq_3\<close>)

section \<open>The dump\<close>

lemma rom_index: "(ucast (ucast (of_nat i * 8 :: u64) :: u32) :: u64) = of_nat (8 * (i mod 2 ^ 29))"
proof -
  have "8 * i mod 2 ^ 32 = 8 * (i mod 2 ^ 29)" using mult_mod_right [of 8 i "2 ^ 29"] by simp
  then have "unat (ucast (ucast (of_nat i * 8 :: u64) :: u32) :: u64) = 8 * (i mod 2 ^ 29)"
    by (simp add: unsigned_ucast_eq unat_word_ariths unat_of_nat take_bit_eq_mod mod_mod_cancel mod_mult_right_eq
        mult.commute)
  moreover have "8 * (i mod 2 ^ 29) < 2 ^ 64" using mod_less_divisor [of "2 ^ 29" i] by simp
  ultimately show ?thesis by (intro word_unat_eq_iff [THEN iffD2]) (simp add: unat_of_nat del: of_nat_mult)
qed

text \<open>C29: The dump of a list to a file.  In a directory whose path is short enough and with a file that
  opens, the dump writes a heading and then one line for each of the first words in order, with its 64-bit
  address and the word, closes the file and leaves the memory and the table alone.  The word is read
  at an offset of 32 bits: from the index \<open>2 ^ 29\<close> on, the dump starts again with the first word.\<close>

theorem rom_dump:
  assumes "can_print s" and "os_cwd (os s) (os_calls s) = Some d" and "length d < 1012"
    and "os_pointer (os s) (os_calls s @ [Getcwd 1024]) (Fopen (d @ ''/dfl_rom.txt'') ''w+'') = f" and "f \<noteq> 0"
    and "\<forall>i < unat sz. dfl_view s (a + of_nat (8 * (i mod 2 ^ 29))) = Some (w i)"
  shows "wp (common_dfl_save_dfl_rom a sz) (\<lambda>_ t.
      os_calls t = os_calls s @ [Getcwd 1024, Fopen (d @ ''/dfl_rom.txt'') ''w+'',
          Fprintf f ''Dumping DFL ROM Content...\<newline>'' []] @ map (rom_line f a w) [0..<unat sz] @ [Fclose f]
      \<and> mem t = mem s \<and> vec t = vec s \<and> out t = out s @ msg_events s FPGA_MSG_PRINTF_INFO
          ''DFL ROM is Dumped to: %s'' [Arg_str (d @ ''/dfl_rom.txt'')]) s"
proof -
  let ?p = "d @ ''/dfl_rom.txt''" and ?h = "''Dumping DFL ROM Content...\<newline>''"
  let ?s1 = "s\<lparr>os_calls := os_calls s @ [Getcwd 1024],
      out := out s @ msg_events s FPGA_MSG_PRINTF_INFO ''DFL ROM is Dumped to: %s'' [Arg_str ?p]\<rparr>"
  let ?s2 = "called (Fopen ?p ''w+'') False ?s1"
  let ?s3 = "called (Fprintf f ?h []) (os_result (os ?s2) (os_calls ?s2) (Fprintf f ?h []) < 0) ?s2"
  have view: "dfl_view ?s3 = dfl_view s" by (rule dfl_view_cong) simp_all
  have "wp (save_rom_loop (unat sz) f a (of_nat 0)) (\<lambda>_. only_calls (map (rom_line f a w) [0..<0 + unat sz]) ?s3) ?s3"
    by (rule wp_save_rom_loop) (use assms(6) view rom_index in simp)
  then have loop: "wp (save_rom_loop (unat sz) f a 0) (\<lambda>_. only_calls (map (rom_line f a w) [0..<unat sz]) ?s3) ?s3"
    by simp
  have pr: "can_print (s\<lparr>os_calls := cs\<rparr>)" for cs using assms(1) by (simp add: can_print_def)
  have ev: "msg_events (s\<lparr>os_calls := cs\<rparr>) = msg_events s" for cs
    by (simp add: fun_eq_iff msg_events_def default_lines_def split: FPGA_MSG_PRINTF.split)
  have start: "wp (common_dfl_save_dfl_rom a sz) Q s
      = wp (thn (save_rom_loop (unat sz) f a 0) (syscall_ignored (Fclose f))) Q ?s3" for Q
    using assms(2-5) pr ev
    by (simp add: common_dfl_save_dfl_rom_def sizeof_cwd_def record_call_def wp_eta wp_gets wp_modify wp_require
        wp_lines wp_ret wp_ret_eta wp_syscall_file wp_syscall_ignored)
  show ?thesis
    unfolding start
    by (rule wp_thn_then [OF loop]) (auto simp: wp_syscall_ignored only_calls_def)
qed

text \<open>The first two words of the example list.\<close>

lemma rom_dump_witness:
  "wp (common_dfl_save_dfl_rom 0x1000 2) (\<lambda>_ t. os_calls t =
      [Getcwd 1024, Fopen ''/root/dfl_rom.txt'' ''w+'', Fprintf 0x1000 ''Dumping DFL ROM Content...\<newline>'' [],
       rom_line 0x1000 0x1000 (\<lambda>i. the (word_view (table_read demo_words) (0x1000 + of_nat (8 * (i mod 2 ^ 29))))) 0,
       rom_line 0x1000 0x1000 (\<lambda>i. the (word_view (table_read demo_words) (0x1000 + of_nat (8 * (i mod 2 ^ 29))))) 1,
       Fclose 0x1000]) (devmem_process (table_read demo_words) demo_os)"
proof -
  let ?s = "devmem_process (table_read demo_words) demo_os"
  let ?w = "\<lambda>i. the (word_view (table_read demo_words) (0x1000 + of_nat (8 * (i mod 2 ^ 29))))"
  have "dfl_view ?s = word_view (table_read demo_words)"
    by (simp add: dfl_view_custom devmem_process_def)
  then have words: "\<forall>i < unat (2 :: u64). dfl_view ?s (0x1000 + of_nat (8 * (i mod 2 ^ 29))) = Some (?w i)"
    by (simp add: word_view_def)
  have upt: "[0..<unat (2 :: u64)] = [0, 1]" by (simp add: upt_rec)
  show ?thesis
    by (rule wp_mono [OF rom_dump [OF _ _ _ _ _ words, where d = "''/root''" and f = "0x1000"]])
      (simp_all only: upt list.map append.simps, simp_all add: devmem_process_def can_print_def demo_os_def)
qed

end
